(* ===== verification/Vdbg_Prelude.thy ===== *)
theory Vdbg_Prelude
  imports Main "HOL-Library.Word" "HOL-Library.Multiset"
begin

text \<open>
  Shared vocabulary of the development: the machine integer types, the ways in which the
  C program can go wrong (as values of \<open>fault\<close>), the result type of every
  operation that may fail, its sequencing and its loop over a list, and the named
  collections the component theories add their facts to.
\<close>

unbundle bit_operations_syntax

section \<open>Machine types\<close>

type_synonym u8 = "8 word"
type_synonym u16 = "16 word"
type_synonym u32 = "32 word"
type_synonym u64 = "64 word"

text \<open>
  Facts about states reached without a fault (\<open>res_elims\<close>), facts that say which
  fields an operation leaves alone (\<open>frame_simps\<close>), and the introduction rules of the
  invariants (\<open>inv_intros\<close>).
\<close>

named_theorems frame_simps
named_theorems inv_intros

section \<open>Faults and results\<close>

text \<open>
  \<open>AssertFailed\<close> is a failing \<open>assert\<close>, \<open>Aborted\<close> the \<open>abort()\<close> of the macros
  \<open>CRITICAL\<close>, \<open>CRITICAL_PERROR\<close> and \<open>DWFL_SANITY_CHECK\<close> of \<open>include/macro.h\<close>.
  The next five are the undefined behaviours that the code can reach: an access to freed
  memory, an access outside an array, a use of a null pointer, a read of memory that was
  never written, and any other one. \<open>Blocks\<close> is a \<open>waitpid\<close> that never returns, and
  \<open>Exits\<close> a call of \<open>exit\<close>.
\<close>

datatype fault =
    AssertFailed
  | Aborted
  | UseAfterFree
  | OutOfBounds
  | NullDeref
  | UninitRead
  | Undefined
  | Blocks
  | Exits int

type_synonym 'a res = "fault + 'a"

definition res_bind :: "'a res \<Rightarrow> ('a \<Rightarrow> 'b res) \<Rightarrow> 'b res" where
  "res_bind m f = (case m of Inl e \<Rightarrow> Inl e | Inr x \<Rightarrow> f x)"

lemma res_bind_Inl [simp]: "res_bind (Inl e) f = Inl e"
  by (simp add: res_bind_def)

lemma res_bind_Inr [simp]: "res_bind (Inr x) f = f x"
  by (simp add: res_bind_def)

lemma res_bind_eq_Inr [simp]:
  "res_bind m f = Inr y \<longleftrightarrow> (\<exists>x. m = Inr x \<and> f x = Inr y)"
  by (cases m) simp_all

lemma res_bind_eq_Inl:
  "res_bind m f = Inl e \<longleftrightarrow> m = Inl e \<or> (\<exists>x. m = Inr x \<and> f x = Inl e)"
  by (cases m) simp_all

lemma res_bind_assoc:
  "res_bind (res_bind m f) g = res_bind m (\<lambda>x. res_bind (f x) g)"
  by (cases m) simp_all

lemma res_bind_cong [fundef_cong]:
  "m = m' \<Longrightarrow> (\<And>x. m' = Inr x \<Longrightarrow> f x = f' x) \<Longrightarrow> res_bind m f = res_bind m' f'"
  by (cases m') simp_all

text \<open>An \<open>assert\<close>: the state goes on unchanged when the condition holds.\<close>

definition c_assert :: "bool \<Rightarrow> 's \<Rightarrow> 's res" where
  "c_assert b s = (if b then Inr s else Inl AssertFailed)"

lemma c_assert_True [simp]: "c_assert True s = Inr s"
  by (simp add: c_assert_def)

lemma c_assert_False [simp]: "c_assert False s = Inl AssertFailed"
  by (simp add: c_assert_def)

lemma c_assert_eq_Inr [simp]: "c_assert b s = Inr s' \<longleftrightarrow> b \<and> s' = s"
  by (auto simp: c_assert_def)

text \<open>The dereference of a pointer into a store of allocated objects.\<close>

definition deref :: "('p \<Rightarrow> 'o option) \<Rightarrow> 'p \<Rightarrow> 'o res" where
  "deref h p = (case h p of None \<Rightarrow> Inl UseAfterFree | Some x \<Rightarrow> Inr x)"

lemma deref_Some [simp]: "h p = Some x \<Longrightarrow> deref h p = Inr x"
  by (simp add: deref_def)

lemma deref_eq_Inr [simp]: "deref h p = Inr x \<longleftrightarrow> h p = Some x"
  by (simp add: deref_def split: option.splits)

section \<open>Loops over a list that stop at the first fault\<close>

fun res_fold :: "('a \<Rightarrow> 's \<Rightarrow> 's res) \<Rightarrow> 'a list \<Rightarrow> 's \<Rightarrow> 's res" where
  "res_fold f [] s = Inr s"
| "res_fold f (x # xs) s = res_bind (f x s) (res_fold f xs)"

lemma res_fold_append:
  "res_fold f (xs @ ys) s = res_bind (res_fold f xs s) (res_fold f ys)"
proof (induction xs arbitrary: s)
  case (Cons x xs)
  then show ?case by (cases "f x s") simp_all
qed simp

text \<open>Whatever every iteration keeps holds after the loop.\<close>

lemma res_fold_keeps:
  assumes step: "\<And>x s s'. x \<in> set xs \<Longrightarrow> I s \<Longrightarrow> f x s = Inr s' \<Longrightarrow> I s'"
  shows "I s \<Longrightarrow> res_fold f xs s = Inr s' \<Longrightarrow> I s'"
  using step by (induction xs arbitrary: s) auto

text \<open>A loop whose iterations never fail under an invariant they keep does not fail.\<close>

lemma res_fold_total:
  assumes step: "\<And>x s. x \<in> set xs \<Longrightarrow> I s \<Longrightarrow> \<exists>s'. f x s = Inr s' \<and> I s'"
  shows "I s \<Longrightarrow> \<exists>s'. res_fold f xs s = Inr s' \<and> I s'"
  using step
proof (induction xs arbitrary: s)
  case Nil
  then show ?case by simp
next
  case (Cons x xs)
  from Cons.prems obtain s1 where s1: "f x s = Inr s1" "I s1"
    by (meson list.set_intros(1))
  have "\<exists>s'. res_fold f xs s1 = Inr s' \<and> I s'"
    by (rule Cons.IH[OF s1(2)]) (use Cons.prems in auto)
  with s1 show ?case by auto
qed

text \<open>
  The general form: an invariant that also says which elements are done. The loop is total
  and ends with all of them done.
\<close>

lemma res_fold_progress:
  assumes step: "\<And>x ys s. x \<in> set xs \<Longrightarrow> I ys s \<Longrightarrow>
      \<exists>s'. f x s = Inr s' \<and> I (insert x ys) s'"
  shows "I ys s \<Longrightarrow> \<exists>s'. res_fold f xs s = Inr s' \<and> I (ys \<union> set xs) s'"
  using step
proof (induction xs arbitrary: ys s)
  case Nil
  then show ?case by simp
next
  case (Cons x xs)
  from Cons.prems obtain s1 where s1: "f x s = Inr s1" "I (insert x ys) s1"
    by (meson list.set_intros(1))
  have "\<exists>s'. res_fold f xs s1 = Inr s' \<and> I (insert x ys \<union> set xs) s'"
    by (rule Cons.IH[OF s1(2)]) (use Cons.prems in auto)
  with s1 show ?case by (auto simp: insert_commute)
qed

section \<open>List lemmas the components share\<close>

lemma takeWhile_shorter:
  "x \<in> set xs \<Longrightarrow> \<not> P x \<Longrightarrow> length (takeWhile P xs) < length xs"
  by (induction xs) auto

lemma even_unat_iff: "even (unat (w :: 'a :: len word)) \<longleftrightarrow> \<not> bit w 0"
proof -
  have "bit (unat w) 0 = bit w 0" by (auto simp: bit_unsigned_iff)
  then show ?thesis by (simp add: bit_0)
qed

lemma remove1_append_not_in: "x \<notin> set xs \<Longrightarrow> remove1 x (xs @ x # ys) = xs @ ys"
  by (induction xs) auto

lemma filter_neq_distinct: "distinct xs \<Longrightarrow> filter (\<lambda>y. y \<noteq> x) xs = remove1 x xs"
  by (simp add: distinct_remove1_removeAll removeAll_filter_not_eq fun_eq_iff eq_commute)

end
