(* ===== verification/Hashmap.thy ===== *)
theory Hashmap
  imports Vdbg_Prelude
begin

text \<open>
  The hash map of \<open>src/hashmap.c\<close>: an array of singly linked chains, indexed by Fibonacci
  hashing of a 64-bit key. The debugger keeps its breakpoints (by id) and its breakpoint
  locations (by running address) in two of these maps, the disassembler a third one.

  A chain \<open>struct entry *\<close> is the list of its entries in link order, a map pointer that
  may be \<open>NULL\<close> an option, a stored \<open>void *obj\<close> that may be \<open>NULL\<close> an option on
  insertion (a stored object is never \<open>NULL\<close>). The clean-up callback \<open>cf\<close> of the struct
  acts on the caller's state, so it is an argument of the two operations that call it.
  Allocation is taken to succeed, as the code takes it.
\<close>

section \<open>The data structure\<close>

record 'v umap =
  m_size :: u32
  m_shift_bits :: u8
  m_elements :: "(u64 \<times> 'v) list list"

text \<open>\<open>__builtin_ctz\<close>: the number of trailing zero bits; undefined for 0.\<close>

definition builtin_ctz :: "u32 \<Rightarrow> nat" where
  "builtin_ctz w = length (takeWhile (\<lambda>i. \<not> bit w i) [0..<32])"

definition map_index :: "'v umap \<Rightarrow> u64 \<Rightarrow> u32" where
  "map_index ht key = ucast (drop_bit (unat (m_shift_bits ht)) (key * 11400714819323198485))"

definition map_init :: "u32 \<Rightarrow> 'v umap option res" where
  "map_init sz =
     (if sz = 0 then Inr None
      else let size1 = (if sz AND 1 \<noteq> 0 then sz + 1 else sz)
           in if size1 = 0 then Inl Undefined
              else Inr (Some \<lparr>m_size = size1,
                              m_shift_bits = 64 - of_nat (builtin_ctz size1),
                              m_elements = replicate (unat size1) []\<rparr>))"

section \<open>The operations\<close>

text \<open>The walk of \<open>map_lookup\<close> along a chain.\<close>

fun chain_find :: "u64 \<Rightarrow> (u64 \<times> 'v) list \<Rightarrow> 'v option" where
  "chain_find key [] = None"
| "chain_find key (e # es) = (if key \<noteq> fst e then chain_find key es else Some (snd e))"

text \<open>
  The walk of \<open>map_delete\<close> with \<open>prev\<close> and \<open>temp\<close>: the object of the entry found and
  the chain with that entry unlinked.
\<close>

fun chain_unlink :: "u64 \<Rightarrow> (u64 \<times> 'v) list \<Rightarrow> ('v \<times> (u64 \<times> 'v) list) option" where
  "chain_unlink key [] = None"
| "chain_unlink key (e # es) =
     (if fst e \<noteq> key then map_option (\<lambda>(v, es'). (v, e # es')) (chain_unlink key es)
      else Some (snd e, es))"

definition map_bucket :: "'v umap \<Rightarrow> u64 \<Rightarrow> (u64 \<times> 'v) list res" where
  "map_bucket ht key =
     (let index = unat (map_index ht key)
      in if index < length (m_elements ht) then Inr (m_elements ht ! index) else Inl OutOfBounds)"

definition map_set_bucket :: "'v umap \<Rightarrow> u64 \<Rightarrow> (u64 \<times> 'v) list \<Rightarrow> 'v umap" where
  "map_set_bucket ht key chain =
     ht\<lparr>m_elements := (m_elements ht)[unat (map_index ht key) := chain]\<rparr>"

definition map_lookup :: "'v umap option \<Rightarrow> u64 \<Rightarrow> 'v option res" where
  "map_lookup h key =
     (case h of None \<Rightarrow> Inr None
      | Some ht \<Rightarrow> res_bind (map_bucket ht key) (\<lambda>chain. Inr (chain_find key chain)))"

definition map_insert :: "'v umap option \<Rightarrow> u64 \<Rightarrow> 'v option \<Rightarrow> (bool \<times> 'v umap option) res" where
  "map_insert h key obj =
     (case (h, obj) of
        (Some ht, Some v) \<Rightarrow>
          res_bind (map_lookup h key) (\<lambda>found.
            if found \<noteq> None then Inr (False, h)
            else res_bind (map_bucket ht key) (\<lambda>chain.
                   Inr (True, Some (map_set_bucket ht key ((key, v) # chain)))))
      | _ \<Rightarrow> Inr (False, h))"

definition call_cleanup :: "('v \<Rightarrow> 's \<Rightarrow> 's res) option \<Rightarrow> 'v \<Rightarrow> 's \<Rightarrow> 's res" where
  "call_cleanup cf v s = (case cf of None \<Rightarrow> Inr s | Some f \<Rightarrow> f v s)"

definition map_delete ::
    "('v \<Rightarrow> 's \<Rightarrow> 's res) option \<Rightarrow> 'v umap option \<Rightarrow> u64 \<Rightarrow> 's \<Rightarrow> ('v umap option \<times> 's) res" where
  "map_delete cf h key s =
     (case h of None \<Rightarrow> Inr (None, s)
      | Some ht \<Rightarrow>
          res_bind (map_bucket ht key) (\<lambda>chain.
            case chain_unlink key chain of
              None \<Rightarrow> Inr (h, s)
            | Some (v, chain') \<Rightarrow>
                res_bind (call_cleanup cf v s) (\<lambda>s'.
                  Inr (Some (map_set_bucket ht key chain'), s'))))"

text \<open>The two nested loops of \<open>map_free\<close>: the head of each chain until it is empty.\<close>

fun free_chain :: "('v \<Rightarrow> 's \<Rightarrow> 's res) option \<Rightarrow> (u64 \<times> 'v) list \<Rightarrow> 's \<Rightarrow> 's res" where
  "free_chain cf [] s = Inr s"
| "free_chain cf (e # es) s = res_bind (call_cleanup cf (snd e) s) (free_chain cf es)"

definition map_free :: "('v \<Rightarrow> 's \<Rightarrow> 's res) option \<Rightarrow> 'v umap option \<Rightarrow> 's \<Rightarrow> 's res" where
  "map_free cf h s =
     (case h of None \<Rightarrow> Inr s
      | Some ht \<Rightarrow>
          res_fold (\<lambda>i s. if i < length (m_elements ht)
                           then free_chain cf (m_elements ht ! i) s else Inl OutOfBounds)
            [0..<unat (m_size ht)] s)"

section \<open>Well-formed maps and what they stand for\<close>

text \<open>
  Every entry lies in the chain its key hashes to, no chain holds a key twice, and the
  size and the shift are those \<open>map_init\<close> leaves.
\<close>

definition wf_umap :: "'v umap \<Rightarrow> bool" where
  "wf_umap ht \<longleftrightarrow>
     m_size ht \<noteq> 0 \<and> even (unat (m_size ht)) \<and>
     m_shift_bits ht = 64 - of_nat (builtin_ctz (m_size ht)) \<and>
     length (m_elements ht) = unat (m_size ht) \<and>
     (\<forall>i < length (m_elements ht).
        distinct (map fst (m_elements ht ! i)) \<and>
        (\<forall>e \<in> set (m_elements ht ! i). unat (map_index ht (fst e)) = i))"

definition umap_abs :: "'v umap \<Rightarrow> u64 \<Rightarrow> 'v option" where
  "umap_abs ht key = map_of (m_elements ht ! unat (map_index ht key)) key"

definition map_ok :: "'v umap option \<Rightarrow> bool" where
  "map_ok h \<longleftrightarrow> (\<exists>ht. h = Some ht \<and> wf_umap ht)"

definition map_abs :: "'v umap option \<Rightarrow> u64 \<Rightarrow> 'v option" where
  "map_abs h = (case h of None \<Rightarrow> (\<lambda>_. None) | Some ht \<Rightarrow> umap_abs ht)"

subsection \<open>The index is always inside the array\<close>

lemma ctz_bound:
  assumes "w \<noteq> 0"
  shows "builtin_ctz w < 32"
proof -
  have "\<exists>n. bit w n"
  proof (rule ccontr)
    assume "\<nexists>n. bit w n"
    then have "w = 0" by (intro bit_eqI) simp
    with assms show False by simp
  qed
  then obtain n where n: "bit w n" by blast
  then have "n < 32" by (auto dest: bit_imp_le_length)
  with n have "length (takeWhile (\<lambda>i. \<not> bit w i) [0..<32]) < length [0..<32::nat]"
    by (intro takeWhile_shorter[of n]) simp_all
  then show ?thesis by (simp only: builtin_ctz_def length_upt)
qed

lemma ctz_low_bits_clear:
  assumes "i < builtin_ctz w"
  shows "\<not> bit w i"
proof -
  let ?t = "takeWhile (\<lambda>i. \<not> bit w i) [0..<32]"
  have i: "i < length ?t" using assms by (simp add: builtin_ctz_def)
  then have "i < 32"
    using length_takeWhile_le[of "\<lambda>i. \<not> bit w i" "[0..<32]"] by simp
  with i have "?t ! i = i" by (simp add: takeWhile_nth)
  with i have "i \<in> set ?t" by (metis nth_mem)
  then show ?thesis by (auto dest: set_takeWhileD)
qed

lemma ctz_le_size:
  assumes "w \<noteq> 0"
  shows "2 ^ builtin_ctz w \<le> unat (w :: u32)"
proof -
  let ?c = "builtin_ctz w"
  have "take_bit ?c w = 0"
    by (rule bit_eqI) (use ctz_low_bits_clear in \<open>auto simp: bit_take_bit_iff\<close>)
  then have "take_bit ?c (unat w) = 0"
    by (metis unat_0 unsigned_take_bit_eq)
  then have "2 ^ ?c dvd unat w" by (simp add: take_bit_eq_0_iff)
  with assms show ?thesis by (auto dest: dvd_imp_le simp: unat_eq_0 unat_gt_0)
qed

lemma ctz_even:
  assumes "even (unat (w :: u32))"
  shows "0 < builtin_ctz w"
proof -
  have "[0..<32::nat] = 0 # [1..<32]" by (simp add: upt_rec[of 0 32])
  then show ?thesis using assms
    by (simp only: builtin_ctz_def takeWhile.simps even_unat_iff if_True list.size not_False_eq_True)
qed

lemma shift_in_range:
  assumes "w \<noteq> 0" "even (unat (w :: u32))"
  shows "unat (64 - of_nat (builtin_ctz w) :: u8) = 64 - builtin_ctz w"
proof -
  have "builtin_ctz w < 32" using assms(1) by (rule ctz_bound)
  then have "unat (of_nat (builtin_ctz w) :: u8) = builtin_ctz w"
    by (simp add: unat_of_nat)
  moreover have "of_nat (builtin_ctz w) \<le> (64 :: u8)"
    using \<open>builtin_ctz w < 32\<close> calculation by (simp add: word_le_nat_alt)
  ultimately show ?thesis by (simp add: unat_sub)
qed

lemma drop_bit_bound:
  fixes x :: u64
  assumes "n \<le> 64"
  shows "unat (drop_bit n x) < 2 ^ (64 - n)"
proof -
  have "unat x < 2 ^ n * 2 ^ (64 - n)"
    using unsigned_less[of x] assms by (simp flip: power_add)
  then have "unat x div 2 ^ n < 2 ^ (64 - n)"
    by (intro less_mult_imp_div_less) (simp add: mult.commute)
  then show ?thesis by (subst unat_drop_bit_eq) (simp add: drop_bit_eq_div)
qed

lemma map_index_bound:
  assumes "m_size ht \<noteq> 0" "even (unat (m_size ht))"
    and "m_shift_bits ht = 64 - of_nat (builtin_ctz (m_size ht))"
  shows "unat (map_index ht key) < unat (m_size ht)"
proof -
  let ?c = "builtin_ctz (m_size ht)" and ?x = "key * 11400714819323198485"
  have c: "?c < 32" using assms(1) by (rule ctz_bound)
  have "unat (drop_bit (64 - ?c) ?x) < 2 ^ (64 - (64 - ?c))" by (rule drop_bit_bound) simp
  then have lt: "unat (drop_bit (64 - ?c) ?x) < 2 ^ ?c" using c by simp
  also have "(2 :: nat) ^ ?c < 2 ^ 32" using c by (intro power_strict_increasing) simp_all
  finally have "unat (ucast (drop_bit (64 - ?c) ?x) :: u32) = unat (drop_bit (64 - ?c) ?x)"
    by (simp only: unsigned_ucast_eq) (simp add: take_bit_nat_eq_self)
  with lt have "unat (map_index ht key) < 2 ^ ?c"
    using assms by (simp add: map_index_def shift_in_range)
  also have "\<dots> \<le> unat (m_size ht)" using assms(1) by (rule ctz_le_size)
  finally show ?thesis .
qed

lemma map_index_in_array [simp]:
  "wf_umap ht \<Longrightarrow> unat (map_index ht key) < length (m_elements ht)"
  using map_index_bound[of ht key] by (simp add: wf_umap_def)

lemma map_init_wf:
  assumes "sz \<noteq> 0" "sz \<noteq> - 1"
  shows "\<exists>ht. map_init sz = Inr (Some ht) \<and> wf_umap ht \<and> umap_abs ht = (\<lambda>_. None)
     \<and> m_size ht = (if odd sz then sz + 1 else sz)"
proof -
  define s1 where "s1 = (if sz AND 1 \<noteq> 0 then sz + 1 else sz)"
  have odd: "sz AND 1 \<noteq> 0 \<longleftrightarrow> odd sz"
    by (simp add: and_one_eq odd_iff_mod_2_eq_one)
  have ev: "even (unat s1)"
    unfolding even_unat_iff s1_def odd by (simp add: bit_0)
  have "s1 \<noteq> 0" using assms by (auto simp: s1_def eq_neg_iff_add_eq_0)
  moreover define ht :: "'a umap" where
    "ht = \<lparr>m_size = s1, m_shift_bits = 64 - of_nat (builtin_ctz s1),
           m_elements = replicate (unat s1) []\<rparr>"
  ultimately have wf: "wf_umap ht"
    using ev by (simp add: wf_umap_def)
  then have "umap_abs ht = (\<lambda>_. None)"
    using map_index_in_array[OF wf] by (simp add: umap_abs_def fun_eq_iff ht_def)
  moreover have "map_init sz = Inr (Some ht)"
    using assms \<open>s1 \<noteq> 0\<close> by (simp add: map_init_def Let_def ht_def flip: s1_def)
  ultimately show ?thesis using wf odd by (intro exI[of _ ht]) (simp add: ht_def s1_def)
qed

subsection \<open>Chains\<close>

lemma chain_find_map_of: "chain_find key es = map_of es key"
  by (induction es) auto

lemma chain_unlink_None: "map_of es key = None \<Longrightarrow> chain_unlink key es = None"
  by (induction es) (auto split: if_splits)

lemma chain_unlink_Some:
  "map_of es key = Some v \<Longrightarrow> distinct (map fst es) \<Longrightarrow>
     chain_unlink key es = Some (v, filter (\<lambda>e. fst e \<noteq> key) es)"
proof (induction es)
  case (Cons e es)
  show ?case
  proof (cases "fst e = key")
    case True
    with Cons.prems have "\<forall>e' \<in> set es. fst e' \<noteq> key" by (cases e) force
    then have "filter (\<lambda>e. fst e \<noteq> key) es = es" by (simp add: filter_id_conv)
    with True Cons.prems show ?thesis by (cases e) simp
  next
    case False
    with Cons show ?thesis by (cases e) simp
  qed
qed simp

lemma map_of_filter_key:
  "map_of (filter (\<lambda>e. fst e \<noteq> key) es) = (map_of es)(key := None)"
  by (induction es) (auto simp: fun_eq_iff)

lemma map_set_bucket_index [simp]:
  "map_index (map_set_bucket ht key c) k = map_index ht k"
  by (simp add: map_index_def map_set_bucket_def)

lemma wf_set_bucket:
  assumes "wf_umap ht" "distinct (map fst c)"
    and "\<And>e. e \<in> set c \<Longrightarrow> map_index ht (fst e) = map_index ht key"
  shows "wf_umap (map_set_bucket ht key c)"
proof -
  have "unat (map_index ht key) < length (m_elements ht)" using assms(1) by simp
  with assms show ?thesis
    unfolding wf_umap_def map_set_bucket_index
    by (auto simp: map_set_bucket_def nth_list_update)
qed

lemma umap_abs_set_bucket:
  assumes wf: "wf_umap ht"
    and "map_of c = (map_of (m_elements ht ! unat (map_index ht key)))(key := ov)"
  shows "umap_abs (map_set_bucket ht key c) = (umap_abs ht)(key := ov)"
  using assms map_index_in_array[OF wf]
  unfolding umap_abs_def map_set_bucket_index fun_eq_iff
  by (auto simp: map_set_bucket_def nth_list_update)

subsection \<open>The operations on well-formed maps\<close>

lemma map_bucket_wf [simp]:
  "wf_umap ht \<Longrightarrow> map_bucket ht key = Inr (m_elements ht ! unat (map_index ht key))"
  by (simp add: map_bucket_def Let_def)

lemma bucket_distinct:
  "wf_umap ht \<Longrightarrow> distinct (map fst (m_elements ht ! unat (map_index ht key)))"
  using map_index_in_array[of ht key] unfolding wf_umap_def by auto

lemma bucket_keys_index:
  assumes "wf_umap ht" "e \<in> set (m_elements ht ! unat (map_index ht key))"
  shows "map_index ht (fst e) = map_index ht key"
proof -
  have "unat (map_index ht (fst e)) = unat (map_index ht key)"
    using assms map_index_in_array[OF assms(1), of key] unfolding wf_umap_def by auto
  then show ?thesis by (rule unsigned_word_eqI)
qed

lemma lookup_ok: "map_ok h \<Longrightarrow> map_lookup h key = Inr (map_abs h key)"
  by (auto simp: map_ok_def map_lookup_def map_abs_def chain_find_map_of umap_abs_def)

lemma insert_fresh_ok:
  assumes "map_ok h" "map_abs h key = None"
  shows "\<exists>h'. map_insert h key (Some v) = Inr (True, h') \<and> map_ok h'
     \<and> map_abs h' = (map_abs h)(key \<mapsto> v)"
proof -
  from assms(1) obtain ht where h: "h = Some ht" and wf: "wf_umap ht"
    by (auto simp: map_ok_def)
  let ?b = "m_elements ht ! unat (map_index ht key)"
  let ?ht' = "map_set_bucket ht key ((key, v) # ?b)"
  from assms(2) h have none: "map_of ?b key = None"
    by (simp add: map_abs_def umap_abs_def)
  have "wf_umap ?ht'"
    using wf none bucket_distinct[OF wf] bucket_keys_index[OF wf]
    by (intro wf_set_bucket) (auto simp: map_of_eq_None_iff)
  moreover have "umap_abs ?ht' = (umap_abs ht)(key \<mapsto> v)"
    using wf by (rule umap_abs_set_bucket) simp
  moreover have "map_insert h key (Some v) = Inr (True, Some ?ht')"
    using assms wf h by (simp add: map_insert_def lookup_ok)
  ultimately show ?thesis
    using h by (intro exI[of _ "Some ?ht'"]) (simp add: map_ok_def map_abs_def)
qed

lemma insert_present_ok:
  "map_ok h \<Longrightarrow> map_abs h key \<noteq> None \<Longrightarrow> map_insert h key ov = Inr (False, h)"
  by (auto simp: map_insert_def lookup_ok split: option.splits)

lemma delete_present_ok:
  assumes "map_ok h" "map_abs h key = Some v"
  shows "\<exists>h'. map_ok h' \<and> map_abs h' = (map_abs h)(key := None) \<and>
     (\<forall>cf s. map_delete cf h key s = res_bind (call_cleanup cf v s) (\<lambda>s'. Inr (h', s')))"
proof -
  from assms(1) obtain ht where h: "h = Some ht" and wf: "wf_umap ht"
    by (auto simp: map_ok_def)
  let ?b = "m_elements ht ! unat (map_index ht key)"
  let ?b' = "filter (\<lambda>e. fst e \<noteq> key) ?b"
  let ?ht' = "map_set_bucket ht key ?b'"
  from assms(2) h have some: "map_of ?b key = Some v"
    by (simp add: map_abs_def umap_abs_def)
  have "wf_umap ?ht'"
    using wf bucket_distinct[OF wf, of key] bucket_keys_index[OF wf]
    by (intro wf_set_bucket) (auto simp: distinct_map_filter)
  moreover have "umap_abs ?ht' = (umap_abs ht)(key := None)"
    using wf by (rule umap_abs_set_bucket) (rule map_of_filter_key)
  moreover have "chain_unlink key ?b = Some (v, ?b')"
    using some bucket_distinct[OF wf] by (rule chain_unlink_Some)
  ultimately show ?thesis
    using h wf by (intro exI[of _ "Some ?ht'"]) (simp add: map_ok_def map_abs_def map_delete_def)
qed

lemma delete_absent_ok:
  assumes "map_ok h" "map_abs h key = None"
  shows "map_delete cf h key s = Inr (h, s)"
  using assms
  by (auto simp: map_ok_def map_abs_def umap_abs_def map_delete_def chain_unlink_None)

subsection \<open>Freeing: every stored object is cleaned up once\<close>

lemma free_chain_fold: "free_chain cf es = res_fold (\<lambda>e. call_cleanup cf (snd e)) es"
proof
  fix s
  show "free_chain cf es s = res_fold (\<lambda>e. call_cleanup cf (snd e)) es s"
  proof (induction es arbitrary: s)
    case (Cons e es)
    then show ?case by (cases "call_cleanup cf (snd e) s") simp_all
  qed simp
qed

lemma res_fold_concat:
  "res_fold (\<lambda>i s. if i < length xss then res_fold f (xss ! i) s else Inl OutOfBounds)
     [n..<length xss] s = res_fold f (concat (drop n xss)) s"
proof (induction "length xss - n" arbitrary: n s)
  case 0
  then show ?case by simp
next
  case (Suc k)
  then have n: "n < length xss" by simp
  then have *: "drop n xss = xss ! n # drop (Suc n) xss" by (simp add: Cons_nth_drop_Suc)
  from n have "[n..<length xss] = n # [Suc n..<length xss]" by (simp add: upt_conv_Cons)
  then show ?case using Suc(1)[of "Suc n"] Suc(2) n
    by (cases "res_fold f (xss ! n) s") (simp_all add: * res_fold_append)
qed

definition umap_entries :: "'v umap \<Rightarrow> (u64 \<times> 'v) list" where
  "umap_entries ht = concat (m_elements ht)"

lemma map_free_entries:
  assumes "wf_umap ht"
  shows "map_free cf (Some ht) s = res_fold (\<lambda>e. call_cleanup cf (snd e)) (umap_entries ht) s"
proof -
  have "unat (m_size ht) = length (m_elements ht)" using assms by (simp add: wf_umap_def)
  then show ?thesis
    using res_fold_concat[of "m_elements ht" "\<lambda>e. call_cleanup cf (snd e)" 0 s]
    unfolding map_free_def free_chain_fold umap_entries_def by simp
qed

lemma entry_in_own_bucket:
  assumes wf: "wf_umap ht"
  shows "(k, v) \<in> set (umap_entries ht) \<longleftrightarrow> (k, v) \<in> set (m_elements ht ! unat (map_index ht k))"
  using wf map_index_in_array[OF wf, of k]
  by (fastforce simp: umap_entries_def in_set_conv_nth[of _ "m_elements ht"] wf_umap_def)

lemma distinct_concat_keys:
  assumes "\<And>i. i < length xss \<Longrightarrow> distinct (map fst (xss ! i))"
    and "\<And>i e. i < length xss \<Longrightarrow> e \<in> set (xss ! i) \<Longrightarrow> h (fst e) = i"
  shows "distinct (map fst (concat xss))"
proof -
  have "distinct (map fst (concat (take n xss)))
      \<and> (\<forall>e \<in> set (concat (take n xss)). h (fst e) < n)" if "n \<le> length xss" for n
    using that
  proof (induction n)
    case (Suc n)
    then have n: "n < length xss" by simp
    with Suc have IH: "distinct (map fst (concat (take n xss)))"
        "\<And>e. e \<in> set (concat (take n xss)) \<Longrightarrow> h (fst e) < n" by auto
    have disj: "fst ` set (concat (take n xss)) \<inter> fst ` set (xss ! n) = {}"
      using IH(2) assms(2)[OF n] by fastforce
    have "concat (take (Suc n) xss) = concat (take n xss) @ xss ! n"
      using n by (simp add: take_Suc_conv_app_nth)
    then show ?case
      using IH assms(1)[OF n] assms(2)[OF n] disj by (auto simp: less_Suc_eq)
  qed simp
  from this[of "length xss"] show ?thesis by simp
qed

lemma umap_entries_distinct:
  assumes "wf_umap ht"
  shows "distinct (map fst (umap_entries ht))"
  unfolding umap_entries_def
  by (rule distinct_concat_keys[where h = "\<lambda>k. unat (map_index ht k)"])
    (use assms in \<open>auto simp: wf_umap_def\<close>)

lemma umap_entries_abs:
  assumes wf: "wf_umap ht"
  shows "map_of (umap_entries ht) = umap_abs ht"
proof
  fix k
  let ?b = "m_elements ht ! unat (map_index ht k)"
  have "map_of (umap_entries ht) k = Some v \<longleftrightarrow> map_of ?b k = Some v" for v
    using umap_entries_distinct[OF wf] bucket_distinct[OF wf, of k]
    by (simp add: entry_in_own_bucket[OF wf] map_of_eq_Some_iff)
  then show "map_of (umap_entries ht) k = umap_abs ht k"
    unfolding umap_abs_def by (metis not_None_eq)
qed

lemma free_ok:
  assumes "map_ok h"
  shows "\<exists>es. distinct (map fst es) \<and> map_of es = map_abs h \<and>
     (\<forall>cf s. map_free cf h s = res_fold (\<lambda>e. call_cleanup cf (snd e)) es s)"
proof -
  from assms obtain ht where "h = Some ht" "wf_umap ht" by (auto simp: map_ok_def)
  then show ?thesis
    by (intro exI[of _ "umap_entries ht"])
      (simp add: map_abs_def map_free_entries umap_entries_abs umap_entries_distinct)
qed

section \<open>The interface the debugger relies on\<close>

text \<open>
  What a client of the map may use: a handle that satisfies \<open>inv\<close> stands for the partial
  function \<open>abs h\<close>, and the four operations act on that function. The callback of the
  deletions runs after the entry is unlinked, on the object that was stored.
\<close>

locale addr_map =
  fixes lookup :: "'m \<Rightarrow> u64 \<Rightarrow> 'v option res"
    and ins :: "'m \<Rightarrow> u64 \<Rightarrow> 'v option \<Rightarrow> (bool \<times> 'm) res"
    and del :: "('v \<Rightarrow> 's \<Rightarrow> 's res) option \<Rightarrow> 'm \<Rightarrow> u64 \<Rightarrow> 's \<Rightarrow> ('m \<times> 's) res"
    and free_all :: "('v \<Rightarrow> 's \<Rightarrow> 's res) option \<Rightarrow> 'm \<Rightarrow> 's \<Rightarrow> 's res"
    and inv :: "'m \<Rightarrow> bool"
    and abs :: "'m \<Rightarrow> u64 \<Rightarrow> 'v option"
  assumes lookup_law: "inv h \<Longrightarrow> lookup h k = Inr (abs h k)"
    and insert_fresh_law: "inv h \<Longrightarrow> abs h k = None \<Longrightarrow>
      \<exists>h'. ins h k (Some v) = Inr (True, h') \<and> inv h' \<and> abs h' = (abs h)(k \<mapsto> v)"
    and insert_present_law: "inv h \<Longrightarrow> abs h k \<noteq> None \<Longrightarrow> ins h k ov = Inr (False, h)"
    and delete_present_law: "inv h \<Longrightarrow> abs h k = Some v \<Longrightarrow>
      \<exists>h'. inv h' \<and> abs h' = (abs h)(k := None) \<and>
        (\<forall>cf s. del cf h k s = res_bind (call_cleanup cf v s) (\<lambda>s'. Inr (h', s')))"
    and delete_absent_law: "inv h \<Longrightarrow> abs h k = None \<Longrightarrow> del cf h k s = Inr (h, s)"
    and free_law: "inv h \<Longrightarrow> \<exists>es. distinct (map fst es) \<and> map_of es = abs h \<and>
      (\<forall>cf s. free_all cf h s = res_fold (\<lambda>e. call_cleanup cf (snd e)) es s)"
begin

lemma insert_any:
  assumes "inv h"
  shows "\<exists>h'. ins h k (Some v) = Inr (abs h k = None, h') \<and> inv h' \<and>
     abs h' = (if abs h k = None then (abs h)(k \<mapsto> v) else abs h)"
  using assms insert_fresh_law[of h k v] insert_present_law[of h k "Some v"]
  by (cases "abs h k") auto

lemma delete_any:
  assumes "inv h"
  shows "\<exists>h'. inv h' \<and> abs h' = (abs h)(k := None) \<and>
     (\<forall>cf s. del cf h k s =
        (case abs h k of None \<Rightarrow> Inr (h', s)
         | Some v \<Rightarrow> res_bind (call_cleanup cf v s) (\<lambda>s'. Inr (h', s'))))"
proof (cases "abs h k")
  case None
  then have "(abs h)(k := None) = abs h" by (simp add: fun_upd_idem)
  with None show ?thesis
    using assms delete_absent_law[of h k] by (intro exI[of _ h]) simp
next
  case (Some v)
  then show ?thesis using assms delete_present_law[of h k v] by auto
qed

lemma delete_removes:
  assumes "inv h" "del cf h k s = Inr (h', s')"
  shows "inv h' \<and> abs h' = (abs h)(k := None)"
  using assms delete_any[OF assms(1), of k] by (cases "abs h k") auto

lemma insert_then_lookup:
  assumes "inv h" "abs h k = None"
  shows "\<exists>h'. ins h k (Some v) = Inr (True, h') \<and> inv h' \<and>
     lookup h' j = Inr (if j = k then Some v else abs h j)"
  using insert_fresh_law[OF assms, of v] lookup_law by fastforce

end

interpretation hm: addr_map map_lookup map_insert map_delete map_free map_ok map_abs
proof unfold_locales
qed (blast intro: lookup_ok insert_fresh_ok insert_present_ok delete_present_ok
       delete_absent_ok free_ok)+

section \<open>Properties\<close>

definition two_buckets :: "nat umap option" where
  "two_buckets = Some \<lparr>m_size = 2, m_shift_bits = 63, m_elements = [[], [(3, 30)]]\<rparr>"

lemma two_buckets_ok: "map_ok two_buckets"
proof -
  have "builtin_ctz 2 = 1" by code_simp
  moreover have "drop_bit 63 (3 * 11400714819323198485 :: u64) = 1" by code_simp
  moreover have "unat (ucast (1 :: u64) :: u32) = Suc 0" by code_simp
  ultimately show ?thesis
    by (auto simp: map_ok_def two_buckets_def wf_umap_def less_Suc_eq map_index_def)
qed

lemma two_buckets_abs: "map_abs two_buckets 3 = Some 30" "map_abs two_buckets 5 = None"
  by code_simp+

text \<open>
  every map that \<open>map_init\<close> builds, whatever the requested size (a power of two or
  not, odd or even), is empty and its Fibonacci index lies inside the allocated array for
  every 64-bit key; the array has the requested size, rounded up to an even number.
\<close>

theorem map_init_index_in_array:
  assumes "sz \<noteq> 0" "sz \<noteq> - 1"
  shows "\<exists>ht :: 'v umap. map_init sz = Inr (Some ht) \<and>
    length (m_elements ht) = unat (if odd sz then sz + 1 else sz) \<and>
    (\<forall>key. unat (map_index ht key) < length (m_elements ht) \<and>
       map_lookup (Some ht) key = Inr None)"
proof -
  obtain ht :: "'v umap" where ht: "map_init sz = Inr (Some ht)" "wf_umap ht" "umap_abs ht = (\<lambda>_. None)"
      "m_size ht = (if odd sz then sz + 1 else sz)"
    using map_init_wf[OF assms] by blast
  moreover have "map_ok (Some ht)" using ht(2) by (simp add: map_ok_def)
  ultimately have "map_lookup (Some ht) key = Inr None" for key
    by (simp add: hm.lookup_law map_abs_def)
  moreover have "length (m_elements ht) = unat (m_size ht)" using ht(2) by (simp add: wf_umap_def)
  moreover have "unat (map_index ht key) < length (m_elements ht)" for key
    using ht(2) by simp
  ultimately have "length (m_elements ht) = unat (if odd sz then sz + 1 else sz) \<and>
      (\<forall>key. unat (map_index ht key) < length (m_elements ht) \<and>
         map_lookup (Some ht) key = Inr None)"
    by (simp only: ht(4)) simp
  with ht(1) show ?thesis by blast
qed

theorem map_init_index_in_array_witness:
  "(1023 :: u32) \<noteq> 0 \<and> (1023 :: u32) \<noteq> - 1 \<and>
   (\<exists>ht :: nat umap. map_init 1023 = Inr (Some ht) \<and> length (m_elements ht) = 1024 \<and>
     (\<forall>key. unat (map_index ht key) < length (m_elements ht)))"
  using map_init_index_in_array[of 1023] by auto

text \<open>
  C23: \<open>map_insert\<close> refines the insertion into a partial function: it succeeds exactly when
  the key was absent, an existing binding is never overwritten, and every later lookup
  sees the new binding and all the old ones.
\<close>

theorem map_insert_refines:
  assumes "map_ok h"
  shows "\<exists>h'. map_insert h k (Some v) = Inr (map_abs h k = None, h') \<and> map_ok h' \<and>
    (\<forall>j. map_lookup h' j = Inr (if j = k \<and> map_abs h k = None then Some v else map_abs h j))"
  using hm.insert_any[OF assms, of k v] by (auto simp: hm.lookup_law)

theorem map_insert_refines_witness:
  "\<exists>h'. map_insert two_buckets 5 (Some 50) = Inr (True, h') \<and>
     map_lookup h' 5 = Inr (Some 50) \<and> map_lookup h' 3 = Inr (Some 30)"
  using map_insert_refines[OF two_buckets_ok, of 5 50]
  by (auto simp: two_buckets_abs)

text \<open>
  C24: \<open>map_delete\<close> refines the removal from a partial function: it calls the clean-up
  callback once, on the object bound to the key, when there is one, does nothing at all
  when there is none, and afterwards the key is unbound and every other binding is intact.
\<close>

theorem map_delete_refines:
  fixes h :: "'v umap option"
  assumes "map_ok h"
  shows "\<exists>h'. map_ok h' \<and> (\<forall>j. map_lookup h' j = Inr (if j = k then None else map_abs h j)) \<and>
    (\<forall>(cf :: 'v \<Rightarrow> 's \<Rightarrow> 's res) s. map_delete (Some cf) h k s =
       (case map_abs h k of None \<Rightarrow> Inr (h', s)
        | Some v \<Rightarrow> res_bind (cf v s) (\<lambda>s'. Inr (h', s'))))"
proof -
  obtain h' where "map_ok h'" "map_abs h' = (map_abs h)(k := None)"
    "\<forall>(cf :: ('v \<Rightarrow> 's \<Rightarrow> 's res) option) s. map_delete cf h k s = (case map_abs h k of None \<Rightarrow> Inr (h', s)
       | Some v \<Rightarrow> res_bind (call_cleanup cf v s) (\<lambda>s'. Inr (h', s')))"
    using hm.delete_any[OF assms, of k] by blast
  then show ?thesis
    by (intro exI[of _ h']) (cases "map_abs h k"; simp add: hm.lookup_law call_cleanup_def)
qed

theorem map_delete_refines_witness:
  "\<exists>h'. map_delete (Some (\<lambda>v s. Inr (v # s))) two_buckets 3 [] = Inr (h', [30]) \<and>
     map_lookup h' 3 = Inr None"
proof -
  obtain h' where
    "\<forall>j. map_lookup h' j = Inr (if j = 3 then None else map_abs two_buckets j)"
    "\<forall>(cf :: nat \<Rightarrow> nat list \<Rightarrow> nat list res) s. map_delete (Some cf) two_buckets 3 s = res_bind (cf 30 s) (\<lambda>s'. Inr (h', s'))"
    using map_delete_refines[OF two_buckets_ok, of 3] by (auto simp: two_buckets_abs)
  then show ?thesis by (intro exI[of _ h']) simp
qed

text \<open>
  \<open>map_free\<close> hands every object that the map holds to the clean-up callback exactly
  once, and nothing else: the calls run over a list without repeated keys that holds
  exactly the bindings that lookups would have found.
\<close>

theorem map_free_each_object_once:
  fixes h :: "'v umap option"
  assumes "map_ok h"
  shows "\<exists>es. distinct (map fst es) \<and>
    (\<forall>k v. (k, v) \<in> set es \<longleftrightarrow> map_lookup h k = Inr (Some v)) \<and>
    (\<forall>(cf :: 'v \<Rightarrow> 's \<Rightarrow> 's res) s. map_free (Some cf) h s = res_fold (\<lambda>e. cf (snd e)) es s)"
proof -
  obtain es where "distinct (map fst es)" "map_of es = map_abs h"
    "\<forall>(cf :: ('v \<Rightarrow> 's \<Rightarrow> 's res) option) s. map_free cf h s = res_fold (\<lambda>e. call_cleanup cf (snd e)) es s"
    using hm.free_law[OF assms] by blast
  moreover have "call_cleanup (Some cf) = cf" for cf :: "'v \<Rightarrow> 's \<Rightarrow> 's res"
    by (simp add: call_cleanup_def fun_eq_iff)
  ultimately show ?thesis
    using assms by (intro exI[of _ es]) (auto simp: hm.lookup_law simp flip: map_of_eq_Some_iff)
qed

theorem map_free_each_object_once_witness:
  "\<exists>es. distinct (map fst es) \<and> (3 :: u64, 30) \<in> set es \<and>
    map_free (Some (\<lambda>v s. Inr (v # s))) two_buckets [] = res_fold (\<lambda>e s. Inr (snd e # s)) es []"
proof -
  obtain es where "distinct (map fst es)"
    "\<forall>k v. (k, v) \<in> set es \<longleftrightarrow> map_lookup two_buckets k = Inr (Some v)"
    "\<forall>(cf :: nat \<Rightarrow> nat list \<Rightarrow> nat list res) s.
       map_free (Some cf) two_buckets s = res_fold (\<lambda>e. cf (snd e)) es s"
    using map_free_each_object_once[OF two_buckets_ok] by blast
  then show ?thesis
    by (intro exI[of _ es]) (simp add: hm.lookup_law[OF two_buckets_ok] two_buckets_abs)
qed

end
