(* ===== verification/Intrusive_List.thy ===== *)
theory Intrusive_List
  imports Vdbg_Prelude
begin

text \<open>
  The circular doubly linked lists of \<open>include/list.h\<close>, at the level of the pointers. A
  \<open>list_node\<close> is an address, a heap gives the two fields of every node, and every function
  performs the assignments of the source in their order. The breakpoint theories use the
  sequence of nodes that a head stands for (\<open>ring\<close>); the interface \<open>node_list\<close> at the end
  is what justifies that.
\<close>

section \<open>Nodes and operations\<close>

record lheap =
  lnext :: "nat \<Rightarrow> nat"
  lprev :: "nat \<Rightarrow> nat"

definition set_next :: "nat \<Rightarrow> nat \<Rightarrow> lheap \<Rightarrow> lheap" where
  "set_next a b h = h\<lparr>lnext := (lnext h)(a := b)\<rparr>"

definition set_prev :: "nat \<Rightarrow> nat \<Rightarrow> lheap \<Rightarrow> lheap" where
  "set_prev a b h = h\<lparr>lprev := (lprev h)(a := b)\<rparr>"

definition list_init :: "nat \<Rightarrow> lheap \<Rightarrow> lheap" where
  "list_init head h = set_prev head head (set_next head head h)"

definition list_add :: "nat \<Rightarrow> nat \<Rightarrow> nat \<Rightarrow> lheap \<Rightarrow> lheap res" where
  "list_add new prv nxt h =
     res_bind (c_assert (new \<noteq> 0 \<and> prv \<noteq> 0 \<and> nxt \<noteq> 0) h) (\<lambda>h.
       Inr (set_prev nxt new (set_next prv new (set_prev new prv (set_next new nxt h)))))"

definition list_add_front :: "nat \<Rightarrow> nat \<Rightarrow> lheap \<Rightarrow> lheap res" where
  "list_add_front head new h = list_add new head (lnext h head) h"

definition list_add_back :: "nat \<Rightarrow> nat \<Rightarrow> lheap \<Rightarrow> lheap res" where
  "list_add_back head new h = list_add new (lprev h head) head h"

definition list_delete :: "nat \<Rightarrow> lheap \<Rightarrow> lheap" where
  "list_delete target h =
     (let h1 = set_next (lprev h target) (lnext h target) h
      in set_prev (lnext h1 target) (lprev h1 target) h1)"

definition list_empty :: "nat \<Rightarrow> lheap \<Rightarrow> bool" where
  "list_empty head h \<longleftrightarrow> lnext h head = head"

text \<open>
  The loop of \<open>list_for_each\<close>: the nodes visited from \<open>pos\<close> until the head comes round
  again; \<open>None\<close> when the fuel does not suffice.
\<close>

fun list_walk :: "nat \<Rightarrow> lheap \<Rightarrow> nat \<Rightarrow> nat \<Rightarrow> nat list option" where
  "list_walk fuel h head pos =
     (if pos = head then Some []
      else case fuel of 0 \<Rightarrow> None
           | Suc fuel' \<Rightarrow> map_option (Cons pos) (list_walk fuel' h head (lnext h pos)))"

declare list_walk.simps [simp del]

definition list_for_each :: "nat \<Rightarrow> lheap \<Rightarrow> nat \<Rightarrow> nat list option" where
  "list_for_each fuel h head = list_walk fuel h head (lnext h head)"

text \<open>
  The loop of \<open>list_for_each_safe\<close>, whose body may change the heap: \<open>n\<close> is read before
  the body runs, and again from the node it names afterwards.
\<close>

fun safe_walk :: "nat \<Rightarrow> (nat \<Rightarrow> lheap \<Rightarrow> lheap) \<Rightarrow> nat \<Rightarrow> nat \<Rightarrow> nat \<Rightarrow> lheap \<Rightarrow> (nat list \<times> lheap) option" where
  "safe_walk fuel body head pos n h =
     (if pos = head then Some ([], h)
      else case fuel of 0 \<Rightarrow> None
           | Suc fuel' \<Rightarrow>
               (let h' = body pos h
                in map_option (\<lambda>(vs, h''). (pos # vs, h''))
                     (safe_walk fuel' body head n (lnext h' n) h')))"

declare safe_walk.simps [simp del]

definition list_for_each_safe ::
    "nat \<Rightarrow> (nat \<Rightarrow> lheap \<Rightarrow> lheap) \<Rightarrow> nat \<Rightarrow> lheap \<Rightarrow> (nat list \<times> lheap) option" where
  "list_for_each_safe fuel body head h =
     safe_walk fuel body head (lnext h head) (lnext h (lnext h head)) h"

section \<open>What a head stands for\<close>

fun linked :: "lheap \<Rightarrow> nat list \<Rightarrow> bool" where
  "linked h (a # b # zs) \<longleftrightarrow> lnext h a = b \<and> lprev h b = a \<and> linked h (b # zs)"
| "linked h zs \<longleftrightarrow> True"

definition ring :: "lheap \<Rightarrow> nat \<Rightarrow> nat list \<Rightarrow> bool" where
  "ring h head xs \<longleftrightarrow>
     distinct (head # xs) \<and> 0 \<notin> set (head # xs) \<and> linked h (head # xs @ [head])"

lemma set_next_simps [simp]:
  "lnext (set_next a b h) c = (if c = a then b else lnext h c)"
  "lprev (set_next a b h) = lprev h"
  "lnext (set_prev a b h) = lnext h"
  "lprev (set_prev a b h) c = (if c = a then b else lprev h c)"
  by (auto simp: set_next_def set_prev_def)

lemma linked_append:
  "linked h (xs @ a # ys) \<longleftrightarrow> linked h (xs @ [a]) \<and> linked h (a # ys)"
proof (induction xs)
  case (Cons x xs)
  then show ?case by (cases xs) auto
qed simp

lemma linked_cong:
  "(\<And>a. a \<in> set (butlast zs) \<Longrightarrow> lnext h' a = lnext h a) \<Longrightarrow>
   (\<And>a. a \<in> set (tl zs) \<Longrightarrow> lprev h' a = lprev h a) \<Longrightarrow> linked h' zs = linked h zs"
proof (induction zs)
  case (Cons a zs)
  note outer = Cons
  show ?case
  proof (cases zs)
    case (Cons b bs)
    have "linked h' zs = linked h zs"
    proof (rule outer(1))
      show "lnext h' c = lnext h c" if "c \<in> set (butlast zs)" for c
        using that outer(2)[of c] Cons by simp
      show "lprev h' c = lprev h c" if "c \<in> set (tl zs)" for c
        using that outer(3)[of c] Cons by simp
    qed
    moreover have "lnext h' a = lnext h a" "lprev h' b = lprev h b"
      using outer(2)[of a] outer(3)[of b] Cons by simp_all
    ultimately show ?thesis using Cons by simp
  qed simp
qed simp

text \<open>A ring depends on the fields of its own nodes only.\<close>

lemma ring_frame:
  assumes "ring h head xs"
    and "\<And>a. a \<in> set (head # xs) \<Longrightarrow> lnext h' a = lnext h a \<and> lprev h' a = lprev h a"
  shows "ring h' head xs"
proof -
  have "linked h' (head # xs @ [head]) = linked h (head # xs @ [head])"
    by (rule linked_cong) (use assms(2) in \<open>auto simp: butlast_append split: if_splits\<close>)
  with assms(1) show ?thesis by (simp add: ring_def)
qed

lemma ring_init: "head \<noteq> 0 \<Longrightarrow> ring (list_init head h) head []"
  by (simp add: ring_def list_init_def)

lemma linked_splits:
  "linked h (head # xs @ M @ ys @ [head]) \<longleftrightarrow>
     linked h (head # xs) \<and> linked h (last (head # xs) # M @ [hd (ys @ [head])]) \<and>
     linked h (ys @ [head])"
proof -
  obtain A p where A: "head # xs = A @ [p]" by (metis append_butlast_last_id list.distinct(1))
  obtain q B where B: "ys @ [head] = q # B" by (metis append_is_Nil_conv neq_Nil_conv)
  have whole: "head # xs @ M @ ys @ [head] = A @ p # (M @ q # B)"
    using A B by (metis append.assoc append_Cons append_Nil)
  have "linked h (head # xs @ M @ ys @ [head]) \<longleftrightarrow>
      linked h (A @ [p]) \<and> linked h (p # M @ q # B)"
    by (subst whole) (rule linked_append)
  also have "linked h (p # M @ q # B) \<longleftrightarrow> linked h (p # M @ [q]) \<and> linked h (q # B)"
    using linked_append[of h "p # M" q B] by simp
  finally show ?thesis by (simp only: A B last_snoc list.sel)
qed

lemma ring_neighbours:
  assumes "ring h head xs"
  shows "lnext h head = hd (xs @ [head])" "lprev h head = last (head # xs)"
proof -
  from assms have l: "linked h (head # xs @ [head])" by (simp add: ring_def)
  then show "lnext h head = hd (xs @ [head])" by (cases xs) auto
  show "lprev h head = last (head # xs)"
    using l linked_splits[of h head xs "[]" "[]"] by simp
qed

lemma ring_inner_neighbours:
  assumes "ring h head (xs @ t # ys)"
  shows "lprev h t = last (head # xs)" "lnext h t = hd (ys @ [head])"
  using assms linked_splits[of h head xs "[t]" ys] by (simp_all add: ring_def)

text \<open>Rewiring what lies between two neighbours of a ring.\<close>

lemma last_not_butlast: "distinct zs \<Longrightarrow> zs \<noteq> [] \<Longrightarrow> last zs \<notin> set (butlast zs)"
  by (induction zs rule: rev_induct) auto

lemma hd_not_tl: "distinct zs \<Longrightarrow> zs \<noteq> [] \<Longrightarrow> hd zs \<notin> set (tl zs)"
  by (cases zs) auto

lemma ring_rewire:
  assumes r: "ring h head (xs @ M @ ys)"
    and new: "distinct M'" "0 \<notin> set M'" "set M' \<inter> set (head # xs @ ys) = {}"
    and mid: "linked h' (last (head # xs) # M' @ [hd (ys @ [head])])"
    and nexts: "\<And>a. a \<noteq> last (head # xs) \<Longrightarrow> a \<notin> set M' \<Longrightarrow> lnext h' a = lnext h a"
    and prevs: "\<And>a. a \<noteq> hd (ys @ [head]) \<Longrightarrow> a \<notin> set M' \<Longrightarrow> lprev h' a = lprev h a"
  shows "ring h' head (xs @ M' @ ys)"
proof -
  have d: "distinct (head # xs @ ys)" and z: "0 \<notin> set (head # xs @ ys)"
    and l: "linked h (head # xs)" "linked h (ys @ [head])"
    using r linked_splits[of h head xs M ys] by (auto simp: ring_def)
  have lp: "last (head # xs) \<in> set (head # xs)" by (rule last_in_set) simp
  have hq: "hd (ys @ [head]) \<in> set (ys @ [head])" by (rule hd_in_set) simp
  have 1: "linked h' (head # xs)"
  proof (subst linked_cong[where h = h])
    show "lnext h' a = lnext h a" if "a \<in> set (butlast (head # xs))" for a
    proof (rule nexts)
      show "a \<noteq> last (head # xs)" using that last_not_butlast[of "head # xs"] d by auto
      show "a \<notin> set M'" using that in_set_butlastD[of a "head # xs"] new by auto
    qed
    show "lprev h' a = lprev h a" if "a \<in> set (tl (head # xs))" for a
    proof (rule prevs)
      show "a \<noteq> hd (ys @ [head])" using that hq d by auto
      show "a \<notin> set M'" using that new by auto
    qed
  qed (rule l)
  have 2: "linked h' (ys @ [head])"
  proof (subst linked_cong[where h = h])
    show "lnext h' a = lnext h a" if "a \<in> set (butlast (ys @ [head]))" for a
    proof (rule nexts)
      show "a \<noteq> last (head # xs)" using that lp d by auto
      show "a \<notin> set M'" using that new by auto
    qed
    show "lprev h' a = lprev h a" if "a \<in> set (tl (ys @ [head]))" for a
    proof (rule prevs)
      show "a \<noteq> hd (ys @ [head])" using that hd_not_tl[of "ys @ [head]"] d by auto
      show "a \<notin> set M'" using that list.set_sel(2)[of "ys @ [head]" a] new by auto
    qed
  qed (rule l)
  show ?thesis
    using 1 2 mid d z new linked_splits[of h' head xs M' ys] by (auto simp: ring_def)
qed

lemma ring_add:
  assumes r: "ring h head (xs @ ys)" and fresh: "new \<notin> set (head # xs @ ys)" "new \<noteq> 0"
  shows "\<exists>h'. list_add new (last (head # xs)) (hd (ys @ [head])) h = Inr h' \<and>
    ring h' head (xs @ new # ys) \<and>
    (\<forall>a. a \<notin> set (head # new # xs @ ys) \<longrightarrow> lnext h' a = lnext h a \<and> lprev h' a = lprev h a)"
proof -
  let ?p = "last (head # xs)" and ?q = "hd (ys @ [head])"
  define h' where
    "h' = set_prev ?q new (set_next ?p new (set_prev new ?p (set_next new ?q h)))"
  have p: "?p \<in> set (head # xs)" by (rule last_in_set) simp
  have q: "?q \<in> set (ys @ [head])" by (rule hd_in_set) simp
  have nz: "?p \<noteq> 0" "?q \<noteq> 0" using r p q by (auto simp: ring_def)
  have ne: "?p \<noteq> new" "?q \<noteq> new" using fresh p q by auto
  have "ring h' head (xs @ [new] @ ys)"
  proof (rule ring_rewire[where M = "[]" and h = h])
    show "linked h' (?p # [new] @ [?q])" using ne by (auto simp: h'_def)
  qed (use r fresh in \<open>auto simp: h'_def\<close>)
  moreover have "list_add new ?p ?q h = Inr h'"
    using nz fresh by (simp add: list_add_def h'_def)
  ultimately show ?thesis
    using p q by (intro exI[of _ h']) (auto simp: h'_def)
qed

lemma ring_delete:
  assumes r: "ring h head (xs @ t # ys)"
  shows "ring (list_delete t h) head (xs @ ys)"
    and "\<And>a. a \<notin> set (head # xs @ ys) \<Longrightarrow>
      lnext (list_delete t h) a = lnext h a \<and> lprev (list_delete t h) a = lprev h a"
proof -
  let ?p = "last (head # xs)" and ?q = "hd (ys @ [head])"
  have p: "?p \<in> set (head # xs)" by (rule last_in_set) simp
  have q: "?q \<in> set (ys @ [head])" by (rule hd_in_set) simp
  have nb: "lprev h t = ?p" "lnext h t = ?q" using ring_inner_neighbours[OF r] by simp_all
  have "t \<notin> set (head # xs @ ys)" using r by (auto simp: ring_def)
  then have ne: "?p \<noteq> t" "?q \<noteq> t" using p q by auto
  then have h': "list_delete t h = set_prev ?q ?p (set_next ?p ?q h)"
    by (simp add: list_delete_def nb)
  have "ring (list_delete t h) head (xs @ [] @ ys)"
    by (rule ring_rewire[where M = "[t]" and h = h]) (use r in \<open>auto simp: h'\<close>)
  then show "ring (list_delete t h) head (xs @ ys)" by simp
  show "lnext (list_delete t h) a = lnext h a \<and> lprev (list_delete t h) a = lprev h a"
    if "a \<notin> set (head # xs @ ys)" for a
    using that p q by (auto simp: h')
qed

section \<open>The loops\<close>

lemma list_walk_linked:
  "linked h (pos # xs @ [head]) \<Longrightarrow> head \<notin> set (pos # xs) \<Longrightarrow> length xs < fuel \<Longrightarrow>
     list_walk fuel h head pos = Some (pos # xs)"
proof (induction xs arbitrary: pos fuel)
  case Nil
  then obtain f where "fuel = Suc f" by (cases fuel) auto
  with Nil show ?case by (simp add: list_walk.simps)
next
  case (Cons x xs)
  then obtain f where f: "fuel = Suc f" by (cases fuel) auto
  with Cons have "list_walk f h head x = Some (x # xs)" by auto
  with Cons f show ?case by (subst list_walk.simps) auto
qed

lemma list_for_each_ring:
  assumes "ring h head xs" "length xs \<le> fuel"
  shows "list_for_each fuel h head = Some xs"
proof (cases xs)
  case Nil
  then show ?thesis
    using assms ring_neighbours[OF assms(1)] by (simp add: list_for_each_def list_walk.simps)
next
  case (Cons y ys)
  then show ?thesis
    using assms ring_neighbours[OF assms(1)]
    by (simp add: list_for_each_def list_walk_linked ring_def)
qed

lemma list_empty_ring: "ring h head xs \<Longrightarrow> list_empty head h \<longleftrightarrow> xs = []"
  using ring_neighbours(1)[of h head xs] by (cases xs) (auto simp: list_empty_def ring_def)

text \<open>
  \<open>list_for_each_safe\<close> with a body that unlinks the node it is given: every node of the
  ring is visited once, in order, and the ring is empty at the end.
\<close>

lemma safe_walk_delete:
  "ring h head xs \<Longrightarrow> length xs \<le> fuel \<Longrightarrow>
    \<exists>h'. safe_walk fuel list_delete head (lnext h head) (lnext h (lnext h head)) h = Some (xs, h')
       \<and> ring h' head []"
proof (induction xs arbitrary: fuel h)
  case Nil
  then show ?case using ring_neighbours(1)[of h head "[]"] by (simp add: safe_walk.simps)
next
  case (Cons x xs)
  then obtain f where f: "fuel = Suc f" "length xs \<le> f" by (cases fuel) auto
  have first: "lnext h head = x" "lnext h x = hd (xs @ [head])"
    using ring_neighbours[OF Cons.prems(1)] ring_inner_neighbours[of h head "[]" x xs] Cons.prems(1)
    by simp_all
  let ?h = "list_delete x h"
  have r: "ring ?h head xs" using ring_delete(1)[of h head "[]" x xs] Cons.prems(1) by simp
  have ne: "x \<noteq> head" using Cons.prems by (auto simp: ring_def)
  obtain h' where "safe_walk f list_delete head (lnext ?h head) (lnext ?h (lnext ?h head)) ?h
      = Some (xs, h')" "ring h' head []"
    using Cons.IH[OF r f(2)] by blast
  moreover have "lnext ?h head = lnext h x" using ring_neighbours(1)[OF r] first by simp
  ultimately show ?case using f first ne
    by (intro exI[of _ h']) (simp add: safe_walk.simps[of "Suc f"] Let_def)
qed

section \<open>The interface of a list of nodes\<close>

text \<open>
  What a client of \<open>list.h\<close> relies on: a head stands for a sequence of nodes, the
  operations act on the sequence, touch no node outside it and its neighbours, and the
  loops enumerate it.
\<close>

locale node_list =
  fixes seq :: "'h \<Rightarrow> nat \<Rightarrow> nat list \<Rightarrow> bool"
    and init :: "nat \<Rightarrow> 'h \<Rightarrow> 'h"
    and add_back :: "nat \<Rightarrow> nat \<Rightarrow> 'h \<Rightarrow> 'h res"
    and add_front :: "nat \<Rightarrow> nat \<Rightarrow> 'h \<Rightarrow> 'h res"
    and unlink :: "nat \<Rightarrow> 'h \<Rightarrow> 'h"
    and each :: "nat \<Rightarrow> 'h \<Rightarrow> nat \<Rightarrow> nat list option"
  assumes seq_distinct: "seq h head xs \<Longrightarrow> distinct (head # xs)"
    and init_law: "head \<noteq> 0 \<Longrightarrow> seq (init head h) head []"
    and back_law: "seq h head xs \<Longrightarrow> new \<notin> set (head # xs) \<Longrightarrow> new \<noteq> 0 \<Longrightarrow>
      \<exists>h'. add_back head new h = Inr h' \<and> seq h' head (xs @ [new]) \<and>
        (\<forall>g ys. seq h g ys \<longrightarrow> set (g # ys) \<inter> set (new # head # xs) = {} \<longrightarrow> seq h' g ys)"
    and front_law: "seq h head xs \<Longrightarrow> new \<notin> set (head # xs) \<Longrightarrow> new \<noteq> 0 \<Longrightarrow>
      \<exists>h'. add_front head new h = Inr h' \<and> seq h' head (new # xs)"
    and unlink_law: "seq h head (xs @ t # ys) \<Longrightarrow> seq (unlink t h) head (xs @ ys)"
    and unlink_frame: "seq h head (xs @ t # ys) \<Longrightarrow> seq h g zs \<Longrightarrow>
      set (g # zs) \<inter> set (head # xs @ t # ys) = {} \<Longrightarrow> seq (unlink t h) g zs"
    and each_law: "seq h head xs \<Longrightarrow> length xs \<le> fuel \<Longrightarrow> each fuel h head = Some xs"
begin

lemma unlink_remove1: "seq h head xs \<Longrightarrow> t \<in> set xs \<Longrightarrow> seq (unlink t h) head (remove1 t xs)"
proof -
  assume s: "seq h head xs" and "t \<in> set xs"
  then obtain us vs where xs: "xs = us @ t # vs" "t \<notin> set us" by (meson split_list_first)
  with s show ?thesis by (simp add: unlink_law remove1_append_not_in)
qed

text \<open>Appending a list of fresh nodes one by one appends the list.\<close>

lemma add_all_back:
  assumes "seq h head xs" "distinct ns" "set ns \<inter> set (head # xs) = {}" "0 \<notin> set ns"
  shows "\<exists>h'. res_fold (add_back head) ns h = Inr h' \<and> seq h' head (xs @ ns)"
  using assms
proof (induction ns arbitrary: h xs)
  case (Cons n ns)
  obtain h1 where h1: "add_back head n h = Inr h1" "seq h1 head (xs @ [n])"
    using back_law[OF Cons.prems(1), of n] Cons.prems by auto
  then obtain h' where "res_fold (add_back head) ns h1 = Inr h'" "seq h' head ((xs @ [n]) @ ns)"
    using Cons.IH[OF h1(2)] Cons.prems by fastforce
  with h1 show ?case by auto
qed auto

lemma back_then_unlink:
  assumes "seq h head xs" "new \<notin> set (head # xs)" "new \<noteq> 0"
  shows "\<exists>h'. add_back head new h = Inr h' \<and> seq (unlink new h') head xs"
  using back_law[OF assms] unlink_law[of _ head xs new "[]"] by fastforce

end

lemma list_add_back_ring:
  assumes r: "ring h head xs" and new: "new \<notin> set (head # xs)" "new \<noteq> 0"
  shows "\<exists>h'. list_add_back head new h = Inr h' \<and> ring h' head (xs @ [new]) \<and>
    (\<forall>g ys. ring h g ys \<longrightarrow> set (g # ys) \<inter> set (new # head # xs) = {} \<longrightarrow> ring h' g ys)"
proof -
  obtain h' where h': "list_add new (last (head # xs)) head h = Inr h'" "ring h' head (xs @ [new])"
    "\<forall>a. a \<notin> set (head # new # xs) \<longrightarrow> lnext h' a = lnext h a \<and> lprev h' a = lprev h a"
    using ring_add[of h head xs "[]" new] r new by auto
  moreover have "ring h' g ys" if "ring h g ys" "set (g # ys) \<inter> set (new # head # xs) = {}" for g ys
  proof (rule ring_frame[OF that(1)])
    fix a assume "a \<in> set (g # ys)"
    with that(2) have "a \<notin> set (head # new # xs)" by auto
    with h'(3) show "lnext h' a = lnext h a \<and> lprev h' a = lprev h a" by blast
  qed
  ultimately show ?thesis
    using ring_neighbours(2)[OF r] by (auto simp: list_add_back_def)
qed

lemma list_add_front_ring:
  assumes r: "ring h head xs" and new: "new \<notin> set (head # xs)" "new \<noteq> 0"
  shows "\<exists>h'. list_add_front head new h = Inr h' \<and> ring h' head (new # xs)"
  using ring_add[of h head "[]" xs new] ring_neighbours(1)[OF r] r new
  by (auto simp: list_add_front_def)

lemma list_delete_frame:
  assumes "ring h head (xs @ t # ys)" "ring h g zs" "set (g # zs) \<inter> set (head # xs @ t # ys) = {}"
  shows "ring (list_delete t h) g zs"
proof (rule ring_frame[OF assms(2)])
  fix a assume "a \<in> set (g # zs)"
  with assms(3) have "a \<notin> set (head # xs @ ys)" by auto
  with ring_delete(2)[OF assms(1)]
  show "lnext (list_delete t h) a = lnext h a \<and> lprev (list_delete t h) a = lprev h a" by blast
qed

interpretation ll: node_list ring list_init list_add_back list_add_front list_delete list_for_each
proof unfold_locales
  show "distinct (head # xs)" if "ring h head xs" for h head xs
    using that by (simp add: ring_def)
qed (blast intro: ring_init list_add_back_ring list_add_front_ring ring_delete(1)
       list_delete_frame list_for_each_ring)+

section \<open>Properties\<close>

definition two_nodes :: lheap where
  "two_nodes = \<lparr>lnext = (\<lambda>_. 0)(1 := 2, 2 := 3, 3 := 1), lprev = (\<lambda>_. 0)(1 := 3, 2 := 1, 3 := 2)\<rparr>"

lemma two_nodes_ring: "ring two_nodes 1 [2, 3]"
  by (simp add: ring_def two_nodes_def)

text \<open>
  C25: \<open>list_add_back\<close> appends the node to the circular list and \<open>list_delete\<close> removes any
  one node of it, at the level of the pointers: a \<open>list_for_each\<close> afterwards visits exactly
  the expected nodes in order, and every disjoint list of the heap is visited as before.
\<close>

theorem list_append_and_unlink:
  assumes "ring h head xs" "new \<notin> set (head # xs)" "new \<noteq> 0"
  shows "\<exists>h'. list_add_back head new h = Inr h' \<and>
    list_for_each (Suc (length xs)) h' head = Some (xs @ [new]) \<and>
    (\<forall>t \<in> set (xs @ [new]).
       list_for_each (Suc (length xs)) (list_delete t h') head = Some (remove1 t (xs @ [new]))) \<and>
    (\<forall>g ys. ring h g ys \<longrightarrow> set (g # ys) \<inter> set (new # head # xs) = {} \<longrightarrow>
       list_for_each (length ys) h' g = Some ys)"
proof -
  obtain h' where h': "list_add_back head new h = Inr h'" "ring h' head (xs @ [new])"
    "\<forall>g ys. ring h g ys \<longrightarrow> set (g # ys) \<inter> set (new # head # xs) = {} \<longrightarrow> ring h' g ys"
    using ll.back_law[OF assms] by blast
  have "list_for_each (Suc (length xs)) (list_delete t h') head = Some (remove1 t (xs @ [new]))"
    if "t \<in> set (xs @ [new])" for t
    by (rule ll.each_law[OF ll.unlink_remove1[OF h'(2) that]]) (use that in \<open>simp add: length_remove1\<close>)
  with h' show ?thesis by (intro exI[of _ h']) (auto simp: ll.each_law)
qed

theorem list_append_and_unlink_witness:
  "\<exists>h'. list_add_back 1 7 two_nodes = Inr h' \<and> list_for_each 3 h' 1 = Some [2, 3, 7] \<and>
     list_for_each 3 (list_delete 3 h') 1 = Some [2, 7]"
  using list_append_and_unlink[OF two_nodes_ring, of 7]
  by (fastforce simp: numeral_3_eq_3)

text \<open>
  the deletion loop \<open>list_for_each_safe\<close> terminates after one round: it visits every node
  of the list once, in order, although each iteration unlinks the node it stands on, and
  leaves the list empty.
\<close>

theorem list_for_each_safe_unlinks_all:
  assumes "ring h head xs"
  shows "\<exists>h'. list_for_each_safe (length xs) list_delete head h = Some (xs, h') \<and>
    list_empty head h'"
  using safe_walk_delete[OF assms order_refl] list_empty_ring
  by (auto simp: list_for_each_safe_def)

theorem list_for_each_safe_unlinks_all_witness:
  "\<exists>h'. list_for_each_safe 2 list_delete 1 two_nodes = Some ([2, 3], h') \<and> list_empty 1 h'"
  using list_for_each_safe_unlinks_all[OF two_nodes_ring] by (simp add: numeral_2_eq_2)

end
