(* ===== verification/Tracee.thy ===== *)
theory Tracee
  imports Vdbg_Prelude
begin

text \<open>
  The debugged process as the debugger sees it through \<open>ptrace\<close>, \<open>waitpid\<close> and \<open>kill\<close>:
  its pid, whether it is stopped, running or reaped, its memory as bytes and its
  \<open>struct user_regs_struct\<close>. The requests that transfer data (\<open>PTRACE_PEEKDATA\<close>,
  \<open>PTRACE_POKEDATA\<close>, \<open>PTRACE_GETREGS\<close>, \<open>PTRACE_SETREGS\<close>, \<open>PTRACE_GETSIGINFO\<close>) are the
  system calls as documented in ptrace(2): they need a stopped tracee, transfer one
  64-bit little-endian word, and fail on an unmapped address. What the program itself does
  when it runs is not in the repository: it is the parameter \<open>program_env\<close>.
\<close>

section \<open>State\<close>

datatype wait_status =
    WExited int
  | WSignaled int
  | WStopped int int

text \<open>
  \<open>Stopped signo code\<close> carries the \<open>si_signo\<close> and \<open>si_code\<close> of the stop, \<open>Running st\<close> the
  status that the next \<open>waitpid\<close> will report.
\<close>

datatype run_state = Stopped int int | Running wait_status | Dead

record tracee =
  t_pid :: int
  t_run :: run_state
  t_mem :: "u64 \<Rightarrow> u8 option"
  t_regs :: "u64 list"
  t_inner :: nat

text \<open>
  What the debugged program does: the process that \<open>fork\<close> and \<open>execv\<close> create for a path
  and its arguments, what becomes of a stopped process when it is resumed with a signal
  or for one instruction, and its \<open>/proc/<pid>/maps\<close>. \<open>t_inner\<close> stands for everything in
  the process and the kernel that \<open>ptrace\<close> does not show.
\<close>

record program_env =
  env_spawn :: "string \<Rightarrow> string list \<Rightarrow> tracee"
  env_cont :: "int \<Rightarrow> tracee \<Rightarrow> tracee"
  env_step :: "tracee \<Rightarrow> tracee"
  env_maps :: "tracee \<Rightarrow> string list option"

definition is_stopped :: "tracee \<Rightarrow> int \<Rightarrow> bool" where
  "is_stopped t pid \<longleftrightarrow> t_pid t = pid \<and> (case t_run t of Stopped _ _ \<Rightarrow> True | _ \<Rightarrow> False)"

section \<open>Words in memory\<close>

definition get_byte :: "nat \<Rightarrow> u64 \<Rightarrow> u8" where
  "get_byte i w = ucast (drop_bit (8 * i) w)"

fun le_word :: "u8 list \<Rightarrow> u64" where
  "le_word [] = 0"
| "le_word (b # bs) = ucast b OR push_bit 8 (le_word bs)"

definition mapped8 :: "(u64 \<Rightarrow> u8 option) \<Rightarrow> u64 \<Rightarrow> bool" where
  "mapped8 m a \<longleftrightarrow> (\<forall>i \<in> {..<8}. m (a + of_nat i) \<noteq> None)"

definition load64 :: "(u64 \<Rightarrow> u8 option) \<Rightarrow> u64 \<Rightarrow> u64" where
  "load64 m a = le_word (map (\<lambda>i. the (m (a + of_nat i))) [0..<8])"

definition store64 :: "(u64 \<Rightarrow> u8 option) \<Rightarrow> u64 \<Rightarrow> u64 \<Rightarrow> (u64 \<Rightarrow> u8 option)" where
  "store64 m a w = (\<lambda>x. if unat (x - a) < 8 then Some (get_byte (unat (x - a)) w) else m x)"

section \<open>The requests\<close>

text \<open>\<open>PTRACE_PEEKDATA\<close> returns \<open>-1\<close> when it fails.\<close>

definition ptrace_peekdata :: "tracee \<Rightarrow> int \<Rightarrow> u64 \<Rightarrow> u64" where
  "ptrace_peekdata t pid a =
     (if is_stopped t pid \<and> mapped8 (t_mem t) a then load64 (t_mem t) a else - 1)"

definition ptrace_pokedata :: "tracee \<Rightarrow> int \<Rightarrow> u64 \<Rightarrow> u64 \<Rightarrow> tracee" where
  "ptrace_pokedata t pid a w =
     (if is_stopped t pid \<and> mapped8 (t_mem t) a then t\<lparr>t_mem := store64 (t_mem t) a w\<rparr> else t)"

text \<open>\<open>kill(pid, 0) == 0\<close>: the process exists, if only as a zombie.\<close>

definition kill0 :: "tracee \<Rightarrow> int \<Rightarrow> bool" where
  "kill0 t pid \<longleftrightarrow> t_pid t = pid \<and> t_run t \<noteq> Dead"

definition ptrace_cont :: "program_env \<Rightarrow> tracee \<Rightarrow> int \<Rightarrow> int \<Rightarrow> tracee" where
  "ptrace_cont E t pid sig = (if is_stopped t pid then env_cont E sig t else t)"

definition ptrace_singlestep :: "program_env \<Rightarrow> tracee \<Rightarrow> int \<Rightarrow> tracee" where
  "ptrace_singlestep E t pid = (if is_stopped t pid then env_step E t else t)"

text \<open>\<open>PTRACE_KILL\<close> sends \<open>SIGKILL\<close> (9) to a stopped tracee.\<close>

definition ptrace_kill :: "tracee \<Rightarrow> int \<Rightarrow> tracee" where
  "ptrace_kill t pid = (if is_stopped t pid then t\<lparr>t_run := Running (WSignaled 9)\<rparr> else t)"

text \<open>
  \<open>waitpid(pid, &status, 0)\<close>: \<open>None\<close> is \<open>-1\<close> with \<open>ECHILD\<close>. Reporting an exit reaps the
  process. Waiting for a stopped process that has nothing to report never returns.
\<close>

definition waitpid :: "tracee \<Rightarrow> int \<Rightarrow> (wait_status option \<times> tracee) res" where
  "waitpid t pid =
     (if t_pid t \<noteq> pid then Inr (None, t)
      else case t_run t of
             Dead \<Rightarrow> Inr (None, t)
           | Stopped _ _ \<Rightarrow> Inl Blocks
           | Running (WExited c) \<Rightarrow> Inr (Some (WExited c), t\<lparr>t_run := Dead\<rparr>)
           | Running (WSignaled s) \<Rightarrow> Inr (Some (WSignaled s), t\<lparr>t_run := Dead\<rparr>)
           | Running (WStopped s c) \<Rightarrow> Inr (Some (WStopped s c), t\<lparr>t_run := Stopped s c\<rparr>))"

section \<open>Replacing the low byte of a word\<close>

lemma bit_get_byte: "bit (get_byte i w) n \<longleftrightarrow> n < 8 \<and> bit w (8 * i + n)"
  by (auto simp: get_byte_def bit_ucast_iff bit_drop_bit_eq)

lemma get_byte_le_word:
  "i < length bs \<Longrightarrow> length bs \<le> 8 \<Longrightarrow> get_byte i (le_word bs) = bs ! i"
proof (induction bs arbitrary: i)
  case (Cons b bs)
  show ?case
  proof (cases i)
    case 0
    show ?thesis
      by (rule bit_eqI)
        (auto simp: 0 bit_get_byte bit_or_iff bit_ucast_iff bit_push_bit_iff dest: bit_imp_le_length)
  next
    case (Suc j)
    then have "get_byte i (le_word (b # bs)) = get_byte j (le_word bs)"
      using Cons.prems
      by (intro bit_eqI)
        (auto simp: bit_get_byte bit_or_iff bit_ucast_iff bit_push_bit_iff
          dest: bit_imp_le_length)
    with Suc Cons show ?thesis by simp
  qed
qed simp

lemma low_mask: "(255 :: u64) = mask 8"
  by (simp add: mask_eq_exp_minus_1)

text \<open>\<open>(w & ~0xff) | v\<close> for a byte \<open>v\<close>.\<close>

definition replace_low :: "u64 \<Rightarrow> u8 \<Rightarrow> u64" where
  "replace_low w v = (w AND NOT 255) OR ucast v"

lemma get_byte_replace:
  assumes "i < 8"
  shows "get_byte i (replace_low w v) = (if i = 0 then v else get_byte i w)"
proof (rule bit_eqI)
  fix n
  show "bit (get_byte i (replace_low w v)) n = bit (if i = 0 then v else get_byte i w) n"
    unfolding replace_low_def low_mask using assms
    by (auto simp: bit_get_byte bit_or_iff bit_and_iff bit_not_iff bit_ucast_iff bit_mask_iff
        simp del: mask_numeral dest: bit_imp_le_length)
qed

lemma get_byte_load64:
  assumes "i < 8" shows "get_byte i (load64 m a) = the (m (a + of_nat i))"
  using assms by (simp add: load64_def get_byte_le_word)

text \<open>
  The read-modify-write that patches one byte: reading the word at \<open>a\<close>, replacing its low
  byte and writing it back changes the byte at \<open>a\<close> and nothing else.
\<close>

lemma store_low_byte:
  assumes "mapped8 m a"
  shows "store64 m a (replace_low (load64 m a) v) = m(a \<mapsto> v)"
proof
  fix x
  let ?i = "unat (x - a)"
  show "store64 m a (replace_low (load64 m a) v) x = (m(a \<mapsto> v)) x"
  proof (cases "?i < 8")
    case True
    have x: "x = a + of_nat ?i" by simp
    have "?i = 0 \<longleftrightarrow> x = a" by (simp add: unat_eq_zero)
    moreover have "m x \<noteq> None" using assms True x unfolding mapped8_def by (metis lessThan_iff)
    ultimately show ?thesis
      using True by (auto simp: store64_def get_byte_replace get_byte_load64)
  next
    case False
    then have "x \<noteq> a" by auto
    with False show ?thesis by (simp add: store64_def)
  qed
qed

lemma low_byte_load64:
  assumes "mapped8 m a"
  shows "Some (ucast (load64 m a AND 255) :: u8) = m a"
proof -
  have "m a \<noteq> None" using assms[unfolded mapped8_def, rule_format, of 0] by simp
  moreover have "(ucast (load64 m a AND 255) :: u8) = get_byte 0 (load64 m a)"
    unfolding low_mask
    by (rule bit_eqI)
      (auto simp: bit_get_byte bit_ucast_iff bit_and_iff bit_mask_iff simp del: mask_numeral)
  ultimately show ?thesis by (auto simp: get_byte_load64)
qed

lemma mapped8_upd [simp]: "mapped8 m a \<Longrightarrow> mapped8 (m(b \<mapsto> v)) a"
  by (auto simp: mapped8_def)

lemma is_stopped_mem_upd [simp]: "is_stopped (t\<lparr>t_mem := m\<rparr>) pid = is_stopped t pid"
  by (simp add: is_stopped_def)

lemma kill0_mem_upd [simp]: "kill0 (t\<lparr>t_mem := m\<rparr>) pid = kill0 t pid"
  by (simp add: kill0_def)

lemma is_stopped_kill0 [simp]: "is_stopped t pid \<Longrightarrow> kill0 t pid"
  by (auto simp: is_stopped_def kill0_def split: run_state.splits)

lemma waitpid_frame:
  "waitpid t pid = Inr (st, t') \<Longrightarrow> t_mem t' = t_mem t \<and> t_pid t' = t_pid t \<and> t_regs t' = t_regs t"
  by (auto simp: waitpid_def split: if_splits run_state.splits wait_status.splits)

end
