(* ===== verification/Registers.thy ===== *)
theory Registers
  imports Tracee
begin

text \<open>
  The register access of \<open>src/registers.c\<close> and \<open>include/registers.h\<close>. An enumerator of
  \<open>reg\<close> is the byte offset of its field in \<open>struct user_regs_struct\<close>, whose 27 fields of
  8 bytes come in the order of \<open>sys/user.h\<close>; \<open>REG_INVALID\<close> is the value \<open>(reg)-1\<close> that the
  lookup by name returns for an unknown name.
\<close>

section \<open>The registers\<close>

datatype reg =
    R15
  | R14
  | R13
  | R12
  | RBP
  | RBX
  | R11
  | R10
  | R9
  | R8
  | RAX
  | RCX
  | RDX
  | RSI
  | RDI
  | ORIG_RAX
  | RIP
  | CS
  | EFLAGS
  | RSP
  | SS
  | FS_BASE
  | GS_BASE
  | DS
  | ES
  | FS
  | GS
  | REG_INVALID

fun reg_value :: "reg \<Rightarrow> nat" where
  "reg_value R15 = 0"
| "reg_value R14 = 8"
| "reg_value R13 = 16"
| "reg_value R12 = 24"
| "reg_value RBP = 32"
| "reg_value RBX = 40"
| "reg_value R11 = 48"
| "reg_value R10 = 56"
| "reg_value R9 = 64"
| "reg_value R8 = 72"
| "reg_value RAX = 80"
| "reg_value RCX = 88"
| "reg_value RDX = 96"
| "reg_value RSI = 104"
| "reg_value RDI = 112"
| "reg_value ORIG_RAX = 120"
| "reg_value RIP = 128"
| "reg_value CS = 136"
| "reg_value EFLAGS = 144"
| "reg_value RSP = 152"
| "reg_value SS = 160"
| "reg_value FS_BASE = 168"
| "reg_value GS_BASE = 176"
| "reg_value DS = 184"
| "reg_value ES = 192"
| "reg_value FS = 200"
| "reg_value GS = 208"
| "reg_value REG_INVALID = 4294967295"

definition sizeof_user_regs :: nat where
  "sizeof_user_regs = 216"

record reg_descriptor =
  rd_reg :: reg
  rd_dwarf :: int
  rd_name :: string

definition register_descriptors :: "reg_descriptor list" where
  "register_descriptors = map (\<lambda>(r, d, n). \<lparr>rd_reg = r, rd_dwarf = d, rd_name = n\<rparr>)
    [(R15, 15, ''r15''),
     (R14, 14, ''r14''),
     (R13, 13, ''r13''),
     (R12, 12, ''r12''),
     (RBP, 6, ''rbp''),
     (RBX, 3, ''rbx''),
     (R11, 11, ''r11''),
     (R10, 10, ''r10''),
     (R9, 9, ''r9''),
     (R8, 8, ''r8''),
     (RAX, 0, ''rax''),
     (RCX, 2, ''rcx''),
     (RDX, 1, ''rdx''),
     (RSI, 4, ''rsi''),
     (RDI, 5, ''rdi''),
     (ORIG_RAX, - 1, ''orig_rax''),
     (RIP, - 1, ''rip''),
     (CS, 51, ''cs''),
     (EFLAGS, 49, ''eflags''),
     (RSP, 7, ''rsp''),
     (SS, 52, ''ss''),
     (FS_BASE, 58, ''fs_base''),
     (GS_BASE, 59, ''gs_base''),
     (DS, 53, ''ds''),
     (ES, 50, ''es''),
     (FS, 54, ''fs''),
     (GS, 55, ''gs'')]"

section \<open>Access\<close>

text \<open>
  \<open>get_register_value\<close> reads a word at the offset of the register from a local structure
  that \<open>PTRACE_GETREGS\<close> fills. When that request fails the structure was never written,
  and an offset past its end is a read outside the object.
\<close>

definition get_register_value :: "reg \<Rightarrow> tracee \<Rightarrow> int \<Rightarrow> u64 res" where
  "get_register_value r t pid =
     (if sizeof_user_regs < reg_value r + 8 then Inl OutOfBounds
      else if \<not> is_stopped t pid then Inl UninitRead
      else Inr (t_regs t ! (reg_value r div 8)))"

text \<open>
  \<open>set_register_value\<close> fills the same structure, overwrites one word and sends it back:
  without a stopped tracee both requests fail and nothing changes.
\<close>

definition set_register_value :: "reg \<Rightarrow> tracee \<Rightarrow> int \<Rightarrow> u64 \<Rightarrow> tracee res" where
  "set_register_value r t pid v =
     (if sizeof_user_regs < reg_value r + 8 then Inl OutOfBounds
      else if \<not> is_stopped t pid then Inr t
      else Inr (t\<lparr>t_regs := (t_regs t)[reg_value r div 8 := v]\<rparr>))"

text \<open>The linear searches through the table; the first entry that matches wins.\<close>

definition reg_of_dwarf :: "int \<Rightarrow> reg" where
  "reg_of_dwarf regnum =
     (case find (\<lambda>d. rd_dwarf d = regnum) register_descriptors of
        None \<Rightarrow> REG_INVALID | Some d \<Rightarrow> rd_reg d)"

definition get_register_value_from_dwarf_register :: "int \<Rightarrow> tracee \<Rightarrow> int \<Rightarrow> u64 res" where
  "get_register_value_from_dwarf_register regnum t pid =
     (let r = reg_of_dwarf regnum
      in if r = REG_INVALID then Inl (Exits 1) else get_register_value r t pid)"

definition get_register_name :: "reg \<Rightarrow> string" where
  "get_register_name r =
     (case find (\<lambda>d. rd_reg d = r) register_descriptors of None \<Rightarrow> [] | Some d \<Rightarrow> rd_name d)"

definition get_register_from_name :: "string \<Rightarrow> reg" where
  "get_register_from_name str =
     (case find (\<lambda>d. rd_name d = str) register_descriptors of
        None \<Rightarrow> REG_INVALID | Some d \<Rightarrow> rd_reg d)"

definition get_pc :: "tracee \<Rightarrow> int \<Rightarrow> u64 res" where
  "get_pc t pid = get_register_value RIP t pid"

definition set_pc :: "tracee \<Rightarrow> int \<Rightarrow> u64 \<Rightarrow> tracee res" where
  "set_pc t pid v = set_register_value RIP t pid v"

text \<open>The rows that \<open>dump_registers\<close> prints: colour, name and value of each register.\<close>

datatype colour = HBLK | HCYN | BHYEL | BHGRN | BHMAG

definition dump_colour :: "string \<Rightarrow> u64 \<Rightarrow> colour" where
  "dump_colour name val =
     (if name = ''rip'' then BHYEL
      else if name = ''rsp'' \<or> name = ''rbp'' then BHGRN
      else if name = ''rflags'' then BHMAG
      else if val = 0 then HBLK else HCYN)"

definition dump_registers :: "tracee \<Rightarrow> int \<Rightarrow> (colour \<times> string \<times> u64) list res" where
  "dump_registers t pid =
     res_fold (\<lambda>d rows.
         res_bind (get_register_value (rd_reg d) t pid) (\<lambda>val.
           Inr (rows @ [(dump_colour (rd_name d) val, rd_name d, val)])))
       register_descriptors []"

text \<open>\<open>read_memory\<close> and \<open>write_memory\<close> do not look at the outcome of the request.\<close>

definition read_memory :: "tracee \<Rightarrow> int \<Rightarrow> u64 \<Rightarrow> u64" where
  "read_memory t pid a = ptrace_peekdata t pid a"

definition write_memory :: "tracee \<Rightarrow> int \<Rightarrow> u64 \<Rightarrow> u64 \<Rightarrow> tracee" where
  "write_memory t pid a v = ptrace_pokedata t pid a v"

section \<open>Lemmas\<close>

lemma reg_value_valid:
  "r \<noteq> REG_INVALID \<Longrightarrow> reg_value r + 8 \<le> sizeof_user_regs \<and> 8 dvd reg_value r"
  by (cases r) (simp_all add: sizeof_user_regs_def)

lemma reg_of_value_div:
  "r \<noteq> REG_INVALID \<Longrightarrow> map rd_reg register_descriptors ! (reg_value r div 8) = r"
  by (cases r) (simp_all add: register_descriptors_def)

lemma reg_index:
  "r \<noteq> REG_INVALID \<Longrightarrow> reg_value r div 8 < 27"
  using reg_value_valid[of r] by (auto simp: sizeof_user_regs_def)

lemma reg_index_inj:
  "r \<noteq> REG_INVALID \<Longrightarrow> r' \<noteq> REG_INVALID \<Longrightarrow> reg_value r div 8 = reg_value r' div 8 \<Longrightarrow> r = r'"
  by (metis reg_of_value_div)

text \<open>Every enumerator has a table entry, and names identify registers.\<close>

lemma register_name_roundtrip:
  "r \<noteq> REG_INVALID \<Longrightarrow> get_register_from_name (get_register_name r) = r"
  by (cases r) (simp_all add: get_register_from_name_def get_register_name_def register_descriptors_def)

lemma get_pc_stopped:
  "is_stopped t pid \<Longrightarrow> get_pc t pid = Inr (t_regs t ! 16)"
  by (simp add: get_pc_def get_register_value_def sizeof_user_regs_def)

lemma set_pc_stopped:
  "is_stopped t pid \<Longrightarrow> set_pc t pid v = Inr (t\<lparr>t_regs := (t_regs t)[16 := v]\<rparr>)"
  by (simp add: set_pc_def set_register_value_def sizeof_user_regs_def)

lemma get_pc_not_stopped: "\<not> is_stopped t pid \<Longrightarrow> get_pc t pid = Inl UninitRead"
  by (simp add: get_pc_def get_register_value_def sizeof_user_regs_def)

lemma is_stopped_regs_upd [simp]: "is_stopped (t\<lparr>t_regs := rs\<rparr>) pid = is_stopped t pid"
  by (simp add: is_stopped_def)

section \<open>Properties\<close>

definition stopped_example :: tracee where
  "stopped_example = \<lparr>t_pid = 7, t_run = Stopped 5 1, t_mem = (\<lambda>_. None),
     t_regs = replicate 27 0, t_inner = 0\<rparr>"



text \<open>
  the failure value \<open>(reg)-1\<close> of the lookup by name is an offset outside the register
  structure: reading or writing "a register" of an unknown name, which nothing on the way
  from the command line rules out, is an access out of bounds whatever the tracee.
\<close>

theorem unknown_register_out_of_bounds:
  assumes "name \<notin> rd_name ` set register_descriptors"
  shows "get_register_value (get_register_from_name name) t pid = Inl OutOfBounds \<and>
    set_register_value (get_register_from_name name) t pid v = Inl OutOfBounds"
proof -
  have "find (\<lambda>d. rd_name d = name) register_descriptors = None"
    using assms by (auto simp: find_None_iff)
  then have "get_register_from_name name = REG_INVALID"
    by (simp add: get_register_from_name_def)
  then show ?thesis
    by (simp add: get_register_value_def set_register_value_def sizeof_user_regs_def)
qed

theorem unknown_register_out_of_bounds_witness:
  "get_register_value (get_register_from_name ''rflags'') stopped_example 7 = Inl OutOfBounds"
proof -
  have "''rflags'' \<notin> rd_name ` set register_descriptors" by (simp add: register_descriptors_def)
  then show ?thesis by (rule unknown_register_out_of_bounds[THEN conjunct1])
qed

end
