(* ===== verification/C_Strings.thy ===== *)
theory C_Strings
  imports Vdbg_Prelude
begin

text \<open>
  Strings and the functions of the C library that the program calls on them, then the
  string helpers of \<open>src/util.c\<close>: \<open>split\<close>, \<open>is_prefix\<close> and \<open>is_number\<close>. A C string is the list of its characters
  without the terminating NUL, so none of its characters is NUL; reading past the end is
  reading that NUL, which is why comparisons stop there.
\<close>

section \<open>The C library\<close>

text \<open>
  \<open>strncmp(a, b, n) == 0\<close>: the first \<open>n\<close> characters agree, up to the end of both.
\<close>

definition strncmp_eq :: "string \<Rightarrow> string \<Rightarrow> nat \<Rightarrow> bool" where
  "strncmp_eq a b n \<longleftrightarrow> take n a = take n b"

text \<open>\<open>strstr(hay, needle) != NULL\<close>.\<close>

fun strstr :: "string \<Rightarrow> string \<Rightarrow> bool" where
  "strstr [] needle \<longleftrightarrow> needle = []"
| "strstr (c # cs) needle \<longleftrightarrow>
     take (length needle) (c # cs) = needle \<or> strstr cs needle"

text \<open>\<open>strchr(s, c)\<close>: what comes before and what comes after the first occurrence.\<close>

fun strchr :: "string \<Rightarrow> char \<Rightarrow> (string \<times> string) option" where
  "strchr [] c = None"
| "strchr (x # xs) c =
     (if x = c then Some ([], xs)
      else map_option (\<lambda>(before, after). (x # before, after)) (strchr xs c))"

definition isdigit :: "char \<Rightarrow> bool" where
  "isdigit c \<longleftrightarrow> c \<in> set ''0123456789''"

definition isspace :: "char \<Rightarrow> bool" where
  "isspace c \<longleftrightarrow> c = CHR '' '' \<or> (9 \<le> (of_char c :: nat) \<and> (of_char c :: nat) \<le> 13)"

definition digit_value :: "char \<Rightarrow> nat option" where
  "digit_value c =
     (let n = of_char c :: nat
      in if 48 \<le> n \<and> n \<le> 57 then Some (n - 48)
         else if 97 \<le> n \<and> n \<le> 122 then Some (n - 87)
         else if 65 \<le> n \<and> n \<le> 90 then Some (n - 55)
         else None)"

definition is_digit_of :: "nat \<Rightarrow> char \<Rightarrow> bool" where
  "is_digit_of base c = (case digit_value c of None \<Rightarrow> False | Some d \<Rightarrow> d < base)"

definition digits_value :: "nat \<Rightarrow> string \<Rightarrow> nat" where
  "digits_value base ds = foldl (\<lambda>n c. n * base + the (digit_value c)) 0 ds"

text \<open>
  The common part of \<open>strtoul\<close> and \<open>strtol\<close>: white space, a sign, for base 16 an optional
  \<open>0x\<close> in front of a digit, and the longest run of digits. The result is the sign, the
  value and the rest of the string; without a digit the value is 0.
\<close>

definition skip_0x :: "nat \<Rightarrow> string \<Rightarrow> string" where
  "skip_0x base s =
     (case s of
        z # x # d # rest \<Rightarrow>
          if base = 16 \<and> z = CHR ''0'' \<and> x \<in> {CHR ''x'', CHR ''X''} \<and> is_digit_of 16 d
          then d # rest else s
      | _ \<Rightarrow> s)"

definition scan_number :: "nat \<Rightarrow> string \<Rightarrow> (bool \<times> nat \<times> string) option" where
  "scan_number base s =
     (let s1 = dropWhile isspace s;
          neg = (s1 \<noteq> [] \<and> hd s1 = CHR ''-'');
          s2 = (if s1 \<noteq> [] \<and> hd s1 \<in> {CHR ''-'', CHR ''+''} then tl s1 else s1);
          s3 = skip_0x base s2;
          ds = takeWhile (is_digit_of base) s3
      in if ds = [] then None
         else Some (neg, digits_value base ds, dropWhile (is_digit_of base) s3))"

text \<open>\<open>strtoul(s, NULL, base)\<close> on a 64-bit \<open>unsigned long\<close>, saturating at \<open>ULONG_MAX\<close>.\<close>

definition strtoul :: "nat \<Rightarrow> string \<Rightarrow> u64" where
  "strtoul base s =
     (case scan_number base s of
        None \<Rightarrow> 0
      | Some (neg, n, _) \<Rightarrow>
          if 2 ^ 64 \<le> n then - 1 else if neg then - of_nat n else of_nat n)"

text \<open>\<open>atoi(s)\<close>: \<open>strtol\<close> in base 10, saturating, then truncated to a 32-bit \<open>int\<close>.\<close>

definition atoi :: "string \<Rightarrow> int" where
  "atoi s =
     (case scan_number 10 s of
        None \<Rightarrow> 0
      | Some (neg, n, _) \<Rightarrow>
          let l = (if neg then max (- (2 ^ 63)) (- int n) else min (2 ^ 63 - 1) (int n))
          in sint (word_of_int l :: u32))"

text \<open>The tokens that repeated calls of \<open>strtok\<close> with a one-character set return.\<close>

function strtok_all :: "char \<Rightarrow> string \<Rightarrow> string list" where
  "strtok_all d s =
     (let s1 = dropWhile (\<lambda>c. c = d) s
      in if s1 = [] then []
         else takeWhile (\<lambda>c. c \<noteq> d) s1 # strtok_all d (dropWhile (\<lambda>c. c \<noteq> d) s1))"
  by pat_completeness auto
termination
proof (relation "measure (\<lambda>(d, s). length s)")
  fix d :: char and s s1
  assume s1: "s1 = dropWhile (\<lambda>c. c = d) s" "s1 \<noteq> []"
  then have "hd s1 \<noteq> d" by (metis (mono_tags) hd_dropWhile)
  with s1(2) have "length (dropWhile (\<lambda>c. c \<noteq> d) s1) < length s1"
    by (cases s1) (auto intro: le_less_trans[OF length_dropWhile_le])
  also have "\<dots> \<le> length s" by (simp add: s1(1) length_dropWhile_le)
  finally show "((d, dropWhile (\<lambda>c. c \<noteq> d) s1), (d, s)) \<in> measure (\<lambda>(d, s). length s)" by simp
qed simp

declare strtok_all.simps [simp del]

text \<open>\<open>printf\<close> of an unsigned number: \<open>%lu\<close> and, with its prefix, \<open>%#lx\<close>.\<close>

definition digit_char :: "nat \<Rightarrow> char" where
  "digit_char d = ''0123456789abcdef'' ! d"

function digits_of :: "nat \<Rightarrow> nat \<Rightarrow> string" where
  "digits_of base n =
     (if n < base \<or> base < 2 then [digit_char n]
      else digits_of base (n div base) @ [digit_char (n mod base)])"
  by pat_completeness auto
termination by (relation "measure snd") (auto simp: div_less_dividend)

declare digits_of.simps [simp del]

definition printf_lu :: "u64 \<Rightarrow> string" where
  "printf_lu w = digits_of 10 (unat w)"

definition printf_alt_lx :: "u64 \<Rightarrow> string" where
  "printf_alt_lx w = (if w = 0 then ''0'' else ''0x'' @ digits_of 16 (unat w))"

text \<open>\<open>%lx\<close> without the prefix, and \<open>%02x\<close> of a byte.\<close>

definition printf_lx :: "u64 \<Rightarrow> string" where
  "printf_lx w = digits_of 16 (unat w)"

definition printf_02x :: "u8 \<Rightarrow> string" where
  "printf_02x b = [digit_char (unat b div 16), digit_char (unat b mod 16)]"

text \<open>\<open>%d\<close> of an \<open>int\<close>.\<close>

definition printf_d :: "int \<Rightarrow> string" where
  "printf_d i = (if i < 0 then CHR ''-'' # digits_of 10 (nat (- i)) else digits_of 10 (nat i))"

section \<open>\<open>src/util.c\<close>\<close>

text \<open>
  The loop of \<open>split\<close>: the array of \<open>cap\<close> pointers doubles when it is full and another
  token has come; after the last token \<open>tokens[count] = NULL\<close> is stored. Allocation is
  taken to succeed.
\<close>

fun split_loop :: "nat \<Rightarrow> string list \<Rightarrow> string list \<Rightarrow> string list res" where
  "split_loop cap tokens [] = (if length tokens < cap then Inr tokens else Inl OutOfBounds)"
| "split_loop cap tokens (t # ts) =
     split_loop (if length tokens = cap then cap * 2 else cap) (tokens @ [t]) ts"

definition split :: "string \<Rightarrow> char \<Rightarrow> string list res" where
  "split str delim = split_loop 32 [] (strtok_all delim str)"

definition is_prefix :: "string option \<Rightarrow> string option \<Rightarrow> bool" where
  "is_prefix input command =
     (case (input, command) of
        (Some i, Some c) \<Rightarrow> strncmp_eq c i (length i)
      | _ \<Rightarrow> False)"

fun is_number :: "string \<Rightarrow> bool" where
  "is_number [] \<longleftrightarrow> True"
| "is_number (c # cs) \<longleftrightarrow> (if \<not> isdigit c then False else is_number cs)"

section \<open>Lemmas\<close>

lemma strncmp_eq_prefix: "strncmp_eq a b (length b) \<longleftrightarrow> (\<exists>r. a = b @ r)"
  by (auto simp: strncmp_eq_def) (metis append_take_drop_id)

lemma is_prefix_iff: "is_prefix (Some i) (Some c) \<longleftrightarrow> (\<exists>r. c = i @ r)"
  by (simp add: is_prefix_def strncmp_eq_prefix)

lemma is_number_iff: "is_number s \<longleftrightarrow> (\<forall>c \<in> set s. isdigit c)"
  by (induction s) auto

lemma strchr_found: "c \<notin> set s \<Longrightarrow> strchr (s @ c # r) c = Some (s, r)"
  by (induction s) auto

lemma strchr_none: "c \<notin> set s \<Longrightarrow> strchr s c = None"
  by (induction s) auto

lemma strstr_iff: "strstr hay needle \<longleftrightarrow> (\<exists>us vs. hay = us @ needle @ vs)"
proof (induction hay)
  case (Cons c cs)
  have "take (length needle) (c # cs) = needle \<longleftrightarrow> (\<exists>vs. c # cs = needle @ vs)"
    by (metis append_eq_conv_conj append_take_drop_id)
  with Cons show ?case
    by (auto simp: Cons_eq_append_conv)
qed auto

lemma strtok_all_tokens:
  "t \<in> set (strtok_all d s) \<Longrightarrow> t \<noteq> [] \<and> d \<notin> set t"
proof (induction d s rule: strtok_all.induct)
  case (1 d s)
  define s1 where "s1 = dropWhile (\<lambda>c. c = d) s"
  show ?case
  proof (cases "s1 = []")
    case True
    with "1.prems" show ?thesis by (subst (asm) strtok_all.simps) (simp add: s1_def)
  next
    case False
    then have "hd s1 \<noteq> d" unfolding s1_def by (metis (mono_tags) hd_dropWhile)
    with False have "takeWhile (\<lambda>c. c \<noteq> d) s1 \<noteq> []" by (cases s1) auto
    moreover have "d \<notin> set (takeWhile (\<lambda>c. c \<noteq> d) s1)" by (auto dest: set_takeWhileD)
    moreover have "t = takeWhile (\<lambda>c. c \<noteq> d) s1 \<or> t \<in> set (strtok_all d (dropWhile (\<lambda>c. c \<noteq> d) s1))"
      using "1.prems" False
      by (subst (asm) strtok_all.simps) (simp add: Let_def flip: s1_def)
    ultimately show ?thesis using "1.IH"[OF s1_def False] by (elim disjE) simp_all
  qed
qed

text \<open>
  The array of \<open>split\<close> is full exactly when the number of tokens is a power of two times
  32, and then the terminating store misses it.
\<close>

lemma split_loop_cap:
  assumes "length tokens \<le> cap" "0 < cap"
  shows "split_loop cap tokens ts =
    (if \<exists>k. length tokens + length ts = cap * 2 ^ k then Inl OutOfBounds else Inr (tokens @ ts))"
  using assms
proof (induction ts arbitrary: cap tokens)
  case Nil
  have "(\<exists>k. length tokens = cap * 2 ^ k) \<longleftrightarrow> length tokens = cap"
  proof
    assume "\<exists>k. length tokens = cap * 2 ^ k"
    then obtain k where "length tokens = cap * 2 ^ k" by blast
    with Nil have "cap * 2 ^ k \<le> cap * 1" by simp
    with Nil(2) have "(2 :: nat) ^ k \<le> 1" by (simp only: mult_le_cancel1)
    then have "(2 :: nat) ^ k = 1" by (metis one_le_numeral one_le_power order_antisym)
    then show "length tokens = cap" using \<open>length tokens = cap * 2 ^ k\<close> by simp
  qed (auto intro: exI[of _ 0])
  with Nil show ?case by auto
next
  case (Cons t ts)
  show ?case
  proof (cases "length tokens = cap")
    case True
    have "(\<exists>k. cap + Suc (length ts) = cap * 2 ^ k) \<longleftrightarrow>
        (\<exists>k. cap + Suc (length ts) = cap * 2 * 2 ^ k)"
    proof
      assume "\<exists>k. cap + Suc (length ts) = cap * 2 ^ k"
      then obtain k where k: "cap + Suc (length ts) = cap * 2 ^ k" by blast
      then have "k \<noteq> 0" by (intro notI) simp
      then obtain j where "k = Suc j" by (cases k) auto
      with k show "\<exists>k. cap + Suc (length ts) = cap * 2 * 2 ^ k" by (intro exI[of _ j]) simp
    next
      assume "\<exists>k. cap + Suc (length ts) = cap * 2 * 2 ^ k"
      then obtain k where "cap + Suc (length ts) = cap * 2 * 2 ^ k" by blast
      then show "\<exists>k. cap + Suc (length ts) = cap * 2 ^ k" by (intro exI[of _ "Suc k"]) simp
    qed
    with True Cons show ?thesis by simp
  next
    case False
    with Cons show ?thesis by simp
  qed
qed

lemma split_cases:
  "split s d =
    (if \<exists>k. length (strtok_all d s) = 32 * 2 ^ k then Inl OutOfBounds else Inr (strtok_all d s))"
  by (simp add: split_def split_loop_cap)

lemma strtok_all_skip: "strtok_all d (d # s) = strtok_all d s"
  by (subst (1 2) strtok_all.simps) simp

lemma strtok_all_token:
  assumes "t \<noteq> []" "d \<notin> set t"
  shows "strtok_all d (t @ d # s) = t # strtok_all d s"
proof -
  have "dropWhile (\<lambda>c. c = d) (t @ d # s) = t @ d # s"
    using assms by (cases t) auto
  moreover have "takeWhile (\<lambda>c. c \<noteq> d) (t @ d # s) = t" "dropWhile (\<lambda>c. c \<noteq> d) (t @ d # s) = d # s"
    using assms by (auto simp: takeWhile_append dropWhile_append takeWhile_eq_all_conv)
  ultimately show ?thesis
    by (subst strtok_all.simps) (simp add: strtok_all_skip)
qed

lemma strtok_all_nil [simp]: "strtok_all d [] = []"
  by (simp add: strtok_all.simps)

lemma strtok_all_join:
  "\<forall>t \<in> set ts. t \<noteq> [] \<and> d \<notin> set t \<Longrightarrow> strtok_all d (concat (map (\<lambda>t. t @ [d]) ts)) = ts"
  by (induction ts) (simp_all add: strtok_all_token)

subsection \<open>Printed numbers are read back\<close>

lemma digit_char_cases:
  assumes "d < 16"
  shows "digit_value (digit_char d) = Some d \<and> \<not> isspace (digit_char d) \<and>
    digit_char d \<notin> {CHR ''-'', CHR ''+'', CHR ''x'', CHR ''X'', CHR '':''} \<and> (isdigit (digit_char d) \<longleftrightarrow> d < 10)"
proof -
  have "\<forall>d \<in> set [0..<16]. digit_value (digit_char d) = Some d \<and> \<not> isspace (digit_char d) \<and>
      digit_char d \<notin> {CHR ''-'', CHR ''+'', CHR ''x'', CHR ''X'', CHR '':''} \<and> (isdigit (digit_char d) \<longleftrightarrow> d < 10)"
    by code_simp
  then show ?thesis using assms by simp
qed

lemma digits_of_chars:
  assumes "2 \<le> base" "c \<in> set (digits_of base n)"
  shows "\<exists>d < base. c = digit_char d"
  using assms
proof (induction base n rule: digits_of.induct)
  case (1 base n)
  have m: "n mod base < base" using "1.prems"(1) by simp
  show ?case
  proof (cases "c = digit_char (n mod base)")
    case False
    then show ?thesis
      using "1.prems" "1.IH" digits_of.simps[of base n] by (auto split: if_splits)
  qed (use m in blast)
qed

lemma digits_of_nonempty [simp]: "digits_of base n \<noteq> []"
  by (subst digits_of.simps) simp

lemma digits_value_snoc: "digits_value base (ds @ [c]) = digits_value base ds * base + the (digit_value c)"
  by (simp add: digits_value_def)

lemma digits_value_digits_of:
  "2 \<le> base \<Longrightarrow> base \<le> 16 \<Longrightarrow> digits_value base (digits_of base n) = n"
proof (induction base n rule: digits_of.induct)
  case (1 base n)
  show ?case
  proof (cases "n < base")
    case True
    then show ?thesis using 1 digit_char_cases[of n]
      by (subst digits_of.simps) (simp add: digits_value_def)
  next
    case False
    have "n mod base < 16" using mod_less_divisor[of base n] "1.prems" by linarith
    then show ?thesis using False 1 digit_char_cases[of "n mod base"]
      by (subst digits_of.simps) (simp add: digits_value_snoc)
  qed
qed

text \<open>Scanning a printed number that ends at the end of the string or at a non-digit.\<close>

lemma scan_digits_of:
  assumes "2 \<le> base" "base \<le> 16" "rest = [] \<or> \<not> is_digit_of base (hd rest)"
    and "base = 16 \<longrightarrow> rest = [] \<or> hd rest \<notin> {CHR ''x'', CHR ''X''}"
  shows "scan_number base (digits_of base n @ rest) = Some (False, n, rest)"
proof -
  let ?ds = "digits_of base n"
  have c: "is_digit_of base c \<and> \<not> isspace c \<and> c \<notin> {CHR ''-'', CHR ''+'', CHR ''x'', CHR ''X''}"
    if "c \<in> set ?ds" for c
    using digits_of_chars[OF assms(1) that] digit_char_cases assms(2)
    by (auto simp: is_digit_of_def)
  obtain d ds where ds: "?ds = d # ds" by (cases ?ds) (use digits_of_nonempty in auto)
  have d: "\<not> isspace d" "d \<noteq> CHR ''-''" "d \<noteq> CHR ''+''" using c[of d] ds by auto
  have skip: "skip_0x base (?ds @ rest) = ?ds @ rest"
  proof (cases ds)
    case Nil
    then show ?thesis using assms(4) ds
      by (auto simp: skip_0x_def split: list.splits)
  next
    case (Cons e es)
    then have "e \<notin> {CHR ''x'', CHR ''X''}" using c[of e] ds by auto
    then show ?thesis using ds Cons by (auto simp: skip_0x_def split: list.splits)
  qed
  have "takeWhile (is_digit_of base) (?ds @ rest) = ?ds" "dropWhile (is_digit_of base) (?ds @ rest) = rest"
    using c assms(3) by (auto simp: takeWhile_append dropWhile_append takeWhile_eq_all_conv takeWhile_eq_Nil_iff
        dropWhile_eq_Nil_conv dropWhile_eq_self_iff)
  then show ?thesis
    using skip d ds digits_value_digits_of[OF assms(1,2), of n]
    by (simp add: scan_number_def Let_def)
qed

lemma strtoul_printf_lu: "strtoul 10 (printf_lu w) = w"
proof -
  have "unat w < 2 ^ 64" using unsigned_less[of w] by simp
  then show ?thesis
    using scan_digits_of[of 10 "[]" "unat w"] by (simp add: strtoul_def printf_lu_def)
qed

lemma strtoul_printf_alt_lx: "strtoul 16 (printf_alt_lx w) = w"
proof (cases "w = 0")
  case True
  have "digits_of 16 0 = ''0''" by (simp add: digits_of.simps digit_char_def)
  then have "strtoul 16 ''0'' = 0" using scan_digits_of[of 16 "[]" 0] by (simp add: strtoul_def)
  with True show ?thesis by (simp add: printf_alt_lx_def)
next
  case False
  have lt: "unat w < 2 ^ 64" using unsigned_less[of w] by simp
  have "scan_number 16 (''0x'' @ digits_of 16 (unat w)) = scan_number 16 (digits_of 16 (unat w))"
  proof -
    obtain d ds where ds: "digits_of 16 (unat w) = d # ds"
      by (cases "digits_of 16 (unat w)") (use digits_of_nonempty in auto)
    have d: "is_digit_of 16 d \<and> \<not> isspace d \<and> d \<notin> {CHR ''-'', CHR ''+''}"
      using digits_of_chars[of 16 d "unat w"] digit_char_cases ds by (auto simp: is_digit_of_def)
    have "skip_0x 16 (d # ds) = d # ds"
    proof (cases ds)
      case (Cons e es)
      then have "e \<notin> {CHR ''x'', CHR ''X''}"
        using digits_of_chars[of 16 e "unat w"] digit_char_cases ds by fastforce
      then show ?thesis using Cons by (auto simp: skip_0x_def split: list.splits)
    qed (simp add: skip_0x_def)
    moreover have "\<not> isspace CHR ''0''" by code_simp
    ultimately show ?thesis
      using d ds by (simp add: scan_number_def Let_def) (simp add: skip_0x_def)
  qed
  then show ?thesis
    using False lt scan_digits_of[of 16 "[]" "unat w"] by (simp add: strtoul_def printf_alt_lx_def)
qed

lemma is_number_printf_lu: "is_number (printf_lu w)"
  unfolding is_number_iff printf_lu_def
proof
  fix c assume "c \<in> set (digits_of 10 (unat w))"
  then obtain d where "d < 10" "c = digit_char d" using digits_of_chars[of 10 c] by auto
  then show "isdigit c" using digit_char_cases[of d] by simp
qed

section \<open>Properties\<close>

text \<open>
  C34: \<open>split\<close> recovers the words of a command line, however many there are, with one
  exception: when their number is 32, 64, 128 and so on, the array it has grown is exactly
  full and the terminating \<open>tokens[count] = NULL\<close> is stored one slot past its end.
\<close>

theorem split_recovers_words:
  assumes "\<forall>t \<in> set ts. t \<noteq> [] \<and> d \<notin> set t"
  shows "split (concat (map (\<lambda>t. t @ [d]) ts)) d =
    (if \<exists>k. length ts = 32 * 2 ^ k then Inl OutOfBounds else Inr ts)"
  using assms by (simp add: split_cases strtok_all_join)

theorem split_recovers_words_witness:
  "split ''break main '' CHR '' '' = Inr [''break'', ''main''] \<and>
   split (concat (map (\<lambda>t. t @ '' '') (replicate 32 ''a''))) CHR '' '' = Inl OutOfBounds"
proof
  have "\<nexists>k. (2 :: nat) = 32 * 2 ^ k"
  proof
    assume "\<exists>k. (2 :: nat) = 32 * 2 ^ k"
    then obtain k where k: "(2 :: nat) = 32 * 2 ^ k" by blast
    have "(1 :: nat) \<le> 2 ^ k" by simp
    with k show False by linarith
  qed
  then show "split ''break main '' CHR '' '' = Inr [''break'', ''main'']"
    using split_recovers_words[of "[''break'', ''main'']" "CHR '' ''"] by (simp add: numeral_2_eq_2)
  have "\<exists>k. length (replicate 32 ''a'') = 32 * 2 ^ k" by (intro exI[of _ 0]) simp
  moreover have "\<forall>t \<in> set (replicate 32 ''a''). t \<noteq> [] \<and> CHR '' '' \<notin> set t"
    by (simp only: set_replicate_conv_if) simp
  ultimately show "split (concat (map (\<lambda>t. t @ '' '') (replicate 32 ''a''))) CHR '' '' = Inl OutOfBounds"
    using split_recovers_words[of "replicate 32 ''a''" "CHR '' ''"] by (simp only: if_True)
qed

end
