(* ===== verification/Breakpoint.thy ===== *)
theory Breakpoint
  imports Registers C_Strings
begin

text \<open>
  Breakpoints and breakpoint locations: \<open>src/breakpoint.c\<close> and \<open>include/breakpoint.h\<close>. A
  breakpoint is what the user set; a location is a patched address of the running tracee
  and carries the list of the breakpoints that share it. Both are allocated objects that
  point to each other, so they live in stores indexed by their address. The circular
  lists are represented by the sequence of nodes their head stands for, which theory
  Intrusive_List justifies; the list of a temporary location is never initialised
  by the code, so it has none.
\<close>

section \<open>Data\<close>

datatype bp_data = BP_ADDR | BP_SYMBOL string | BP_LINENO string int

record breakpoint =
  b_id :: u64
  b_data :: bp_data
  b_enable :: bool
  b_instr_addr :: u64
  b_location :: "nat option"

record bp_location =
  l_pid :: int
  l_patched :: bool
  l_is_temp :: bool
  l_saved_data :: u8
  l_running_addr :: u64
  l_bp_list :: "nat list option"

abbreviation bp_is_enabled :: "breakpoint \<Rightarrow> bool" where
  "bp_is_enabled \<equiv> b_enable"

abbreviation loc_is_patched :: "bp_location \<Rightarrow> bool" where
  "loc_is_patched \<equiv> l_patched"

abbreviation loc_is_temp :: "bp_location \<Rightarrow> bool" where
  "loc_is_temp \<equiv> l_is_temp"

abbreviation loc_get_running_addr :: "bp_location \<Rightarrow> u64" where
  "loc_get_running_addr \<equiv> l_running_addr"

text \<open>
  The part of the program state these functions work on: the debugged process, the global
  id counter, the two stores and the next address that \<open>malloc\<close> returns.
\<close>

record bp_world =
  w_tracee :: tracee
  w_id_counter :: u64
  w_bps :: "nat \<Rightarrow> breakpoint option"
  w_locs :: "nat \<Rightarrow> bp_location option"
  w_next :: nat

section \<open>Breakpoints\<close>

definition bp_init :: "bp_data \<Rightarrow> u64 \<Rightarrow> 'a bp_world_scheme \<Rightarrow> nat \<times> 'a bp_world_scheme" where
  "bp_init data instr_addr w =
     (let p = w_next w;
          b = \<lparr>b_id = w_id_counter w, b_data = data, b_enable = True,
               b_instr_addr = instr_addr, b_location = None\<rparr>
      in (p, w\<lparr>w_id_counter := w_id_counter w + 1, w_bps := (w_bps w)(p \<mapsto> b), w_next := Suc p\<rparr>))"

definition bp_get_id :: "nat \<Rightarrow> 'a bp_world_scheme \<Rightarrow> u64 res" where
  "bp_get_id p w = res_bind (deref (w_bps w) p) (\<lambda>b. Inr (b_id b))"

definition bp_get_instr_addr :: "nat \<Rightarrow> 'a bp_world_scheme \<Rightarrow> u64 res" where
  "bp_get_instr_addr p w = res_bind (deref (w_bps w) p) (\<lambda>b. Inr (b_instr_addr b))"

definition bp_get_symbol :: "breakpoint \<Rightarrow> string option" where
  "bp_get_symbol b = (case b_data b of BP_SYMBOL s \<Rightarrow> Some s | _ \<Rightarrow> None)"

definition bp_get_flpair :: "breakpoint \<Rightarrow> (string \<times> int) option" where
  "bp_get_flpair b = (case b_data b of BP_LINENO f n \<Rightarrow> Some (f, n) | _ \<Rightarrow> None)"

definition set_bp :: "nat \<Rightarrow> breakpoint \<Rightarrow> 'a bp_world_scheme \<Rightarrow> 'a bp_world_scheme" where
  "set_bp p b w = w\<lparr>w_bps := (w_bps w)(p \<mapsto> b)\<rparr>"

definition set_loc :: "nat \<Rightarrow> bp_location \<Rightarrow> 'a bp_world_scheme \<Rightarrow> 'a bp_world_scheme" where
  "set_loc l L w = w\<lparr>w_locs := (w_locs w)(l \<mapsto> L)\<rparr>"

section \<open>Patching a location\<close>

definition loc_enable :: "nat \<Rightarrow> 'a bp_world_scheme \<Rightarrow> 'a bp_world_scheme res" where
  "loc_enable l w =
     res_bind (deref (w_locs w) l) (\<lambda>L.
       if loc_is_patched L then Inr w
       else
         let data = ptrace_peekdata (w_tracee w) (l_pid L) (l_running_addr L);
             data_with_int3 = replace_low data 0xCC;
             t = ptrace_pokedata (w_tracee w) (l_pid L) (l_running_addr L) data_with_int3
         in Inr (set_loc l (L\<lparr>l_saved_data := ucast (data AND 255), l_patched := True\<rparr>)
                  (w\<lparr>w_tracee := t\<rparr>)))"

definition loc_disable :: "nat \<Rightarrow> 'a bp_world_scheme \<Rightarrow> 'a bp_world_scheme res" where
  "loc_disable l w =
     res_bind (deref (w_locs w) l) (\<lambda>L.
       if \<not> loc_is_patched L then Inr w
       else if \<not> kill0 (w_tracee w) (l_pid L) then Inr (set_loc l (L\<lparr>l_patched := False\<rparr>) w)
       else
         let data = ptrace_peekdata (w_tracee w) (l_pid L) (l_running_addr L);
             restored_data = replace_low data (l_saved_data L);
             t = ptrace_pokedata (w_tracee w) (l_pid L) (l_running_addr L) restored_data
         in Inr (set_loc l (L\<lparr>l_patched := False\<rparr>) (w\<lparr>w_tracee := t\<rparr>)))"

text \<open>The list head of a location; reading that of a temporary one is a read of garbage.\<close>

definition loc_list :: "bp_location \<Rightarrow> nat list res" where
  "loc_list L = (case l_bp_list L of None \<Rightarrow> Inl UninitRead | Some ps \<Rightarrow> Inr ps)"

text \<open>The loop of \<open>bp_enable\<close> and \<open>bp_disable\<close>: \<open>f\<close> holds of every breakpoint of the list.\<close>

definition all_bps :: "(breakpoint \<Rightarrow> bool) \<Rightarrow> nat list \<Rightarrow> 'a bp_world_scheme \<Rightarrow> bool res" where
  "all_bps f ps w =
     res_fold (\<lambda>p acc. res_bind (deref (w_bps w) p) (\<lambda>b. Inr (if \<not> f b then False else acc))) ps True"

definition bp_enable :: "nat \<Rightarrow> 'a bp_world_scheme \<Rightarrow> 'a bp_world_scheme res" where
  "bp_enable p w =
     res_bind (deref (w_bps w) p) (\<lambda>b.
       let w1 = set_bp p (b\<lparr>b_enable := True\<rparr>) w
       in case b_location b of
            None \<Rightarrow> Inr w1
          | Some l \<Rightarrow>
              res_bind (deref (w_locs w1) l) (\<lambda>L.
              res_bind (loc_list L) (\<lambda>ps.
              res_bind (all_bps b_enable ps w1) (\<lambda>to_patch.
                if to_patch then loc_enable l w1 else Inr w1))))"

definition bp_disable :: "nat \<Rightarrow> 'a bp_world_scheme \<Rightarrow> 'a bp_world_scheme res" where
  "bp_disable p w =
     res_bind (deref (w_bps w) p) (\<lambda>b.
       let w1 = set_bp p (b\<lparr>b_enable := False\<rparr>) w
       in case b_location b of
            None \<Rightarrow> Inr w1
          | Some l \<Rightarrow>
              res_bind (deref (w_locs w1) l) (\<lambda>L.
              res_bind (loc_list L) (\<lambda>ps.
              res_bind (all_bps (\<lambda>b. \<not> b_enable b) ps w1) (\<lambda>to_remove_patch.
                if to_remove_patch then loc_disable l w1 else Inr w1))))"

definition bp_free :: "nat \<Rightarrow> 'a bp_world_scheme \<Rightarrow> 'a bp_world_scheme res" where
  "bp_free p w =
     res_bind (deref (w_bps w) p) (\<lambda>b.
     res_bind
       (case b_location b of
          None \<Rightarrow> Inr w
        | Some l \<Rightarrow>
            res_bind (deref (w_locs w) l) (\<lambda>L.
            res_bind (loc_list L) (\<lambda>ps.
              let ps' = remove1 p ps;
                  w1 = set_loc l (L\<lparr>l_bp_list := Some ps'\<rparr>) w
              in if ps' = [] then loc_disable l w1 else Inr w1)))
       (\<lambda>w2. Inr (w2\<lparr>w_bps := (w_bps w2)(p := None)\<rparr>)))"

section \<open>Locations\<close>

definition loc_init ::
    "int \<Rightarrow> u64 \<Rightarrow> nat option \<Rightarrow> bool \<Rightarrow> 'a bp_world_scheme \<Rightarrow> (nat \<times> 'a bp_world_scheme) res" where
  "loc_init pid running_addr bp is_temp w =
     res_bind (c_assert (pid \<noteq> 0 \<and> running_addr \<noteq> 0) w) (\<lambda>w.
     res_bind (c_assert (if is_temp then bp = None else bp \<noteq> None) w) (\<lambda>w.
       let l = w_next w;
           L = \<lparr>l_pid = pid, l_patched = False, l_is_temp = is_temp, l_saved_data = 0,
                l_running_addr = running_addr, l_bp_list = None\<rparr>
       in case bp of
            None \<Rightarrow>
              res_bind (loc_enable l (set_loc l L (w\<lparr>w_next := Suc l\<rparr>))) (\<lambda>w'. Inr (l, w'))
          | Some p \<Rightarrow>
              res_bind (deref (w_bps w) p) (\<lambda>b.
                let w1 = set_bp p (b\<lparr>b_location := Some l\<rparr>)
                           (set_loc l (L\<lparr>l_bp_list := Some [p]\<rparr>) (w\<lparr>w_next := Suc l\<rparr>))
                in res_bind (if b_enable b then loc_enable l w1 else Inr w1) (\<lambda>w'. Inr (l, w')))))"

definition loc_append_breakpoint_to_list :: "nat \<Rightarrow> nat \<Rightarrow> 'a bp_world_scheme \<Rightarrow> 'a bp_world_scheme res" where
  "loc_append_breakpoint_to_list l p w =
     res_bind (deref (w_bps w) p) (\<lambda>b.
     res_bind (deref (w_locs w) l) (\<lambda>L.
       let w1 = set_bp p (b\<lparr>b_location := Some l\<rparr>) w
       in res_bind (loc_list L) (\<lambda>ps.
            if p \<in> set ps then Inr w1
            else
              let w2 = set_loc l (L\<lparr>l_bp_list := Some (ps @ [p])\<rparr>) w1
              in if b_enable b \<and> \<not> l_patched L then loc_enable l w2
                 else if \<not> b_enable b \<and> l_patched L then loc_disable l w2
                 else Inr w2)))"

definition loc_set_pid :: "nat \<Rightarrow> int \<Rightarrow> 'a bp_world_scheme \<Rightarrow> 'a bp_world_scheme res" where
  "loc_set_pid l pid w = res_bind (deref (w_locs w) l) (\<lambda>L. Inr (set_loc l (L\<lparr>l_pid := pid\<rparr>) w))"

definition clear_location :: "nat \<Rightarrow> 'a bp_world_scheme \<Rightarrow> 'a bp_world_scheme res" where
  "clear_location p w = res_bind (deref (w_bps w) p) (\<lambda>b. Inr (set_bp p (b\<lparr>b_location := None\<rparr>) w))"

definition loc_free :: "nat \<Rightarrow> 'a bp_world_scheme \<Rightarrow> 'a bp_world_scheme res" where
  "loc_free l w =
     res_bind (deref (w_locs w) l) (\<lambda>L.
     res_bind
       (if l_is_temp L then Inr w
        else res_bind (loc_list L) (\<lambda>ps. res_fold clear_location ps w))
       (\<lambda>w1. res_bind (loc_disable l w1) (\<lambda>w2. Inr (w2\<lparr>w_locs := (w_locs w2)(l := None)\<rparr>))))"

section \<open>The list of all breakpoints\<close>

definition add_breakpoint_as_pending :: "nat list \<Rightarrow> nat \<Rightarrow> nat list" where
  "add_breakpoint_as_pending pending p = pending @ [p]"

definition delete_breakpoint_from_pending :: "nat list \<Rightarrow> nat \<Rightarrow> nat list" where
  "delete_breakpoint_from_pending pending p = remove1 p pending"

datatype bp_query = Q_ADDR u64 | Q_SYMBOL string | Q_LINENO string int

text \<open>
  The test of \<open>find_breakpoint_from_pending\<close> on one breakpoint; the data pointer of an
  address query is the address itself, so the address 0 is the null pointer.
\<close>

definition bp_matches :: "bp_query \<Rightarrow> breakpoint \<Rightarrow> bool" where
  "bp_matches q b =
     (case (q, b_data b) of
        (Q_ADDR a, BP_ADDR) \<Rightarrow> a = b_instr_addr b
      | (Q_SYMBOL s, BP_SYMBOL symbol) \<Rightarrow> strncmp_eq s symbol (length symbol)
      | (Q_LINENO f n, BP_LINENO file lineno) \<Rightarrow> n = lineno \<and> strncmp_eq f file (length file)
      | _ \<Rightarrow> False)"

fun find_in_pending :: "bp_query \<Rightarrow> nat list \<Rightarrow> 'a bp_world_scheme \<Rightarrow> nat option res" where
  "find_in_pending q [] w = Inr None"
| "find_in_pending q (p # ps) w =
     res_bind (deref (w_bps w) p) (\<lambda>b.
       if bp_matches q b then Inr (Some p) else find_in_pending q ps w)"

definition find_breakpoint_from_pending ::
    "nat list \<Rightarrow> bp_query \<Rightarrow> 'a bp_world_scheme \<Rightarrow> nat option res" where
  "find_breakpoint_from_pending pending q w =
     (if q = Q_ADDR 0 then Inr None else find_in_pending q pending w)"

section \<open>What is printed\<close>

text \<open>
  The message of \<open>print_bp_hit_message_at_loc\<close>: the id and address of the first breakpoint
  of the list, and the first symbol and the first line among them.
\<close>

record hit_message =
  hit_id :: u64
  hit_symbol :: "string option"
  hit_line :: "(string \<times> int) option"
  hit_addr :: u64

fun first_map :: "('b \<Rightarrow> 'c option) \<Rightarrow> 'b list \<Rightarrow> 'c option" where
  "first_map f [] = None"
| "first_map f (x # xs) = (case f x of Some y \<Rightarrow> Some y | None \<Rightarrow> first_map f xs)"

fun deref_all :: "('p \<Rightarrow> 'o option) \<Rightarrow> 'p list \<Rightarrow> 'o list res" where
  "deref_all h [] = Inr []"
| "deref_all h (p # ps) =
     res_bind (deref h p) (\<lambda>x. res_bind (deref_all h ps) (\<lambda>xs. Inr (x # xs)))"

definition print_bp_hit_message_at_loc ::
    "nat option \<Rightarrow> 'a bp_world_scheme \<Rightarrow> hit_message option res" where
  "print_bp_hit_message_at_loc loc w =
     (case loc of
        None \<Rightarrow> Inl AssertFailed
      | Some l \<Rightarrow>
          res_bind (deref (w_locs w) l) (\<lambda>L.
            if l_is_temp L then Inr None
            else res_bind (loc_list L) (\<lambda>ps.
                 res_bind (deref_all (w_bps w) ps) (\<lambda>bs.
                   case bs of
                     [] \<Rightarrow> Inl Aborted
                   | got_bp # _ \<Rightarrow>
                       Inr (Some \<lparr>hit_id = b_id got_bp,
                                  hit_symbol = first_map bp_get_symbol bs,
                                  hit_line = first_map bp_get_flpair bs,
                                  hit_addr = b_instr_addr got_bp\<rparr>)))))"

text \<open>The rows of \<open>print_breakpoint_list\<close>: id, enabled, address and description.\<close>

definition print_breakpoint_list ::
    "nat list \<Rightarrow> 'a bp_world_scheme \<Rightarrow> (u64 \<times> bool \<times> u64 \<times> bp_data) list res" where
  "print_breakpoint_list pending w =
     res_bind (deref_all (w_bps w) pending) (\<lambda>bs.
       Inr (map (\<lambda>b. (b_id b, b_enable b, b_instr_addr b, b_data b)) bs))"

end
