(* ===== verification/Breakpoint_Patch.thy ===== *)
theory Breakpoint_Patch
  imports Breakpoint
begin

text \<open>
  What patching does to the debugged program. The specification is an image \<open>orig\<close>: the
  memory the program would have without the debugger. \<open>shows_image orig w\<close> says that the
  real memory is that image with \<open>0xcc\<close> laid over the addresses of the patched locations,
  and that every patched location has saved the byte it hides. All operations of theory
  Breakpoint keep it while the tracee is stopped.
\<close>

section \<open>The image\<close>

definition armed :: "'a bp_world_scheme \<Rightarrow> u64 \<Rightarrow> bool" where
  "armed w a \<longleftrightarrow> (\<exists>l L. w_locs w l = Some L \<and> l_patched L \<and> l_running_addr L = a)"

text \<open>
  The tracee is stopped, belongs to every location, has all their addresses mapped, and no
  two locations have the same address.
\<close>

definition sites_ok :: "'a bp_world_scheme \<Rightarrow> bool" where
  "sites_ok w \<longleftrightarrow>
     is_stopped (w_tracee w) (t_pid (w_tracee w)) \<and>
     (\<forall>l L. w_locs w l = Some L \<longrightarrow>
        l_pid L = t_pid (w_tracee w) \<and> mapped8 (t_mem (w_tracee w)) (l_running_addr L)) \<and>
     (\<forall>l L k K. w_locs w l = Some L \<longrightarrow> w_locs w k = Some K \<longrightarrow>
        l_running_addr L = l_running_addr K \<longrightarrow> l = k)"

definition shows_image :: "(u64 \<Rightarrow> u8 option) \<Rightarrow> 'a bp_world_scheme \<Rightarrow> bool" where
  "shows_image orig w \<longleftrightarrow>
     (\<forall>a. t_mem (w_tracee w) a = (if armed w a then Some 0xCC else orig a)) \<and>
     (\<forall>l L. w_locs w l = Some L \<longrightarrow> l_patched L \<longrightarrow> orig (l_running_addr L) = Some (l_saved_data L))"

section \<open>The shape of a patching step\<close>

text \<open>Every call of \<open>loc_enable\<close> and \<open>loc_disable\<close> is one of these updates.\<close>

definition repatch ::
    "nat \<Rightarrow> bool \<Rightarrow> u8 \<Rightarrow> (u64 \<Rightarrow> u8 option) \<Rightarrow> 'a bp_world_scheme \<Rightarrow> 'a bp_world_scheme" where
  "repatch l v sd m w = w\<lparr>w_tracee := (w_tracee w)\<lparr>t_mem := m\<rparr>,
     w_locs := (w_locs w)(l := map_option (\<lambda>L. L\<lparr>l_saved_data := sd, l_patched := v\<rparr>) (w_locs w l))\<rparr>"

lemma repatch_frame [simp]:
  "w_bps (repatch l v sd m w) = w_bps w"
  "w_next (repatch l v sd m w) = w_next w"
  "w_id_counter (repatch l v sd m w) = w_id_counter w"
  "bp_world.more (repatch l v sd m w) = bp_world.more w"
  "t_pid (w_tracee (repatch l v sd m w)) = t_pid (w_tracee w)"
  "t_run (w_tracee (repatch l v sd m w)) = t_run (w_tracee w)"
  "t_regs (w_tracee (repatch l v sd m w)) = t_regs (w_tracee w)"
  "t_mem (w_tracee (repatch l v sd m w)) = m"
  by (simp_all add: repatch_def)

lemma repatch_locs [simp]:
  "w_locs (repatch l v sd m w) k =
     (if k = l then map_option (\<lambda>L. L\<lparr>l_saved_data := sd, l_patched := v\<rparr>) (w_locs w l)
      else w_locs w k)"
  by (simp add: repatch_def)

lemma repatch_same:
  "w_locs w l = Some L \<Longrightarrow> l_patched L = v \<Longrightarrow>
     repatch l v (l_saved_data L) (t_mem (w_tracee w)) w = w"
  by (simp add: repatch_def fun_upd_idem)

lemma ptrace_pokedata_mem:
  "\<exists>m. ptrace_pokedata t pid a x = t\<lparr>t_mem := m\<rparr>"
  by (auto simp: ptrace_pokedata_def intro: exI[of _ "t_mem t"])

lemma loc_enable_repatch:
  assumes "w_locs w l = Some L"
  shows "\<exists>sd m. loc_enable l w = Inr (repatch l True sd m w)"
proof (cases "l_patched L")
  case True
  then have "loc_enable l w = Inr (repatch l True (l_saved_data L) (t_mem (w_tracee w)) w)"
    using assms by (simp add: loc_enable_def repatch_same)
  then show ?thesis by blast
next
  case False
  define data where "data = ptrace_peekdata (w_tracee w) (l_pid L) (l_running_addr L)"
  obtain m where m: "ptrace_pokedata (w_tracee w) (l_pid L) (l_running_addr L)
      (replace_low data 204) = (w_tracee w)\<lparr>t_mem := m\<rparr>"
    using ptrace_pokedata_mem by blast
  have "loc_enable l w = Inr (repatch l True (ucast (data AND 255)) m w)"
    using assms False m by (simp add: loc_enable_def Let_def repatch_def set_loc_def flip: data_def)
  then show ?thesis by blast
qed

lemma loc_disable_repatch:
  assumes "w_locs w l = Some L"
  shows "\<exists>sd m. loc_disable l w = Inr (repatch l False sd m w)"
proof -
  consider "\<not> l_patched L" | "l_patched L" "\<not> kill0 (w_tracee w) (l_pid L)"
    | "l_patched L" "kill0 (w_tracee w) (l_pid L)" by blast
  then show ?thesis
  proof cases
    case 1
    then have "loc_disable l w = Inr (repatch l False (l_saved_data L) (t_mem (w_tracee w)) w)"
      using assms by (simp add: loc_disable_def repatch_same)
    then show ?thesis by blast
  next
    case 2
    then have "loc_disable l w = Inr (repatch l False (l_saved_data L) (t_mem (w_tracee w)) w)"
      using assms by (simp add: loc_disable_def repatch_def set_loc_def)
    then show ?thesis by blast
  next
    case 3
    define data where "data = ptrace_peekdata (w_tracee w) (l_pid L) (l_running_addr L)"
    obtain m where m: "ptrace_pokedata (w_tracee w) (l_pid L) (l_running_addr L)
        (replace_low data (l_saved_data L)) = (w_tracee w)\<lparr>t_mem := m\<rparr>"
      using ptrace_pokedata_mem by blast
    have "loc_disable l w = Inr (repatch l False (l_saved_data L) m w)"
      using assms 3 m by (simp add: loc_disable_def Let_def repatch_def set_loc_def flip: data_def)
    then show ?thesis by blast
  qed
qed

lemma is_stopped_repatch [simp]:
  "is_stopped (w_tracee (repatch l v sd m w)) pid = is_stopped (w_tracee w) pid"
  by (simp add: is_stopped_def)

section \<open>Enabling and disabling one location\<close>

text \<open>With a stopped tracee and mapped sites the two functions write exactly one byte.\<close>

lemma loc_enable_effect:
  assumes st: "is_stopped (w_tracee w) (l_pid L)" "mapped8 (t_mem (w_tracee w)) (l_running_addr L)"
    and "w_locs w l = Some L" "\<not> l_patched L"
  shows "\<exists>sd. Some sd = t_mem (w_tracee w) (l_running_addr L) \<and>
    loc_enable l w = Inr (repatch l True sd ((t_mem (w_tracee w))(l_running_addr L \<mapsto> 0xCC)) w)"
proof -
  let ?a = "l_running_addr L" and ?t = "w_tracee w"
  from st have "ptrace_peekdata ?t (l_pid L) ?a = load64 (t_mem ?t) ?a"
    by (simp add: ptrace_peekdata_def)
  moreover have "ptrace_pokedata ?t (l_pid L) ?a (replace_low (load64 (t_mem ?t) ?a) 204)
      = ?t\<lparr>t_mem := (t_mem ?t)(?a \<mapsto> 204)\<rparr>"
    using st by (simp add: ptrace_pokedata_def store_low_byte)
  ultimately have "loc_enable l w = Inr (repatch l True (ucast (load64 (t_mem ?t) ?a AND 255))
      ((t_mem ?t)(?a \<mapsto> 0xCC)) w)"
    using assms(3,4) by (simp add: loc_enable_def Let_def repatch_def set_loc_def)
  with low_byte_load64[OF st(2)] show ?thesis by blast
qed

lemma loc_disable_effect:
  assumes st: "is_stopped (w_tracee w) (l_pid L)" "mapped8 (t_mem (w_tracee w)) (l_running_addr L)"
    and "w_locs w l = Some L" "l_patched L"
  shows "loc_disable l w = Inr (repatch l False (l_saved_data L)
      ((t_mem (w_tracee w))(l_running_addr L \<mapsto> l_saved_data L)) w)"
proof -
  let ?a = "l_running_addr L" and ?t = "w_tracee w"
  from st have "ptrace_peekdata ?t (l_pid L) ?a = load64 (t_mem ?t) ?a"
    by (simp add: ptrace_peekdata_def)
  moreover have "ptrace_pokedata ?t (l_pid L) ?a
      (replace_low (load64 (t_mem ?t) ?a) (l_saved_data L))
      = ?t\<lparr>t_mem := (t_mem ?t)(?a \<mapsto> l_saved_data L)\<rparr>"
    using st by (simp add: ptrace_pokedata_def store_low_byte)
  ultimately show ?thesis
    using assms by (simp add: loc_disable_def Let_def repatch_def set_loc_def)
qed

lemma sites_okD:
  assumes "sites_ok w" "w_locs w l = Some L"
  shows "is_stopped (w_tracee w) (l_pid L)" "mapped8 (t_mem (w_tracee w)) (l_running_addr L)"
  using assms by (auto simp: sites_ok_def)

lemma sites_ok_repatch:
  assumes "sites_ok w" "\<And>a. mapped8 (t_mem (w_tracee w)) a \<Longrightarrow> mapped8 m a"
  shows "sites_ok (repatch l v sd m w)"
  using assms unfolding sites_ok_def
  by (auto split: if_splits)

lemma armed_repatch:
  assumes "sites_ok w" "w_locs w l = Some L"
  shows "armed (repatch l v sd m w) a \<longleftrightarrow> (if a = l_running_addr L then v else armed w a)"
proof -
  have iff: "armed (repatch l v sd m w) a \<longleftrightarrow>
      (\<exists>k K. w_locs w k = Some K \<and> (if k = l then v else l_patched K) \<and> l_running_addr K = a)"
    unfolding armed_def by (auto split: if_splits) (metis option.inject)+
  have same: "k = l" if "w_locs w k = Some K" "l_running_addr K = l_running_addr L" for k K
    using that assms unfolding sites_ok_def by blast
  show ?thesis
  proof (cases "a = l_running_addr L")
    case True
    have "armed (repatch l v sd m w) a \<Longrightarrow> v" unfolding iff using True same by metis
    moreover have "v \<Longrightarrow> armed (repatch l v sd m w) a" unfolding iff using True assms(2) by metis
    ultimately have "armed (repatch l v sd m w) a \<longleftrightarrow> v" by blast
    with True show ?thesis by (simp only: if_True refl)
  next
    case False
    have other: "k \<noteq> l" if "w_locs w k = Some K" "l_running_addr K = a" for k K
      using that False assms(2) by auto
    have "armed (repatch l v sd m w) a \<longleftrightarrow> armed w a"
      unfolding iff unfolding armed_def using other by metis
    then show ?thesis using False by (simp only: if_False)
  qed
qed

lemma loc_enable_image:
  assumes "sites_ok w" "shows_image orig w" "w_locs w l = Some L"
  shows "\<exists>sd m. loc_enable l w = Inr (repatch l True sd m w) \<and>
    sites_ok (repatch l True sd m w) \<and> shows_image orig (repatch l True sd m w)"
proof (cases "l_patched L")
  case True
  then have "loc_enable l w = Inr w" using assms by (simp add: loc_enable_def)
  with repatch_same[OF assms(3)] True assms show ?thesis by metis
next
  case False
  obtain sd where sd: "Some sd = t_mem (w_tracee w) (l_running_addr L)"
    "loc_enable l w = Inr (repatch l True sd ((t_mem (w_tracee w))(l_running_addr L \<mapsto> 0xCC)) w)"
    using loc_enable_effect[OF sites_okD[OF assms(1,3)] assms(3) False] by blast
  let ?w' = "repatch l True sd ((t_mem (w_tracee w))(l_running_addr L \<mapsto> 0xCC)) w"
  have "\<not> armed w (l_running_addr L)"
    using assms False unfolding armed_def sites_ok_def by (metis option.inject)
  then have "orig (l_running_addr L) = Some sd"
    using sd(1) assms(2) unfolding shows_image_def by metis
  then have "shows_image orig ?w'"
    using assms(2,3) unfolding shows_image_def armed_repatch[OF assms(1,3)]
    by auto
  moreover have "sites_ok ?w'" by (rule sites_ok_repatch[OF assms(1)]) simp
  ultimately show ?thesis using sd(2) by blast
qed

lemma loc_disable_image:
  assumes "sites_ok w" "shows_image orig w" "w_locs w l = Some L"
  shows "\<exists>sd m. loc_disable l w = Inr (repatch l False sd m w) \<and>
    sites_ok (repatch l False sd m w) \<and> shows_image orig (repatch l False sd m w)"
proof (cases "l_patched L")
  case False
  then have "loc_disable l w = Inr w" using assms by (simp add: loc_disable_def)
  with repatch_same[OF assms(3)] False assms show ?thesis by metis
next
  case True
  let ?w' = "repatch l False (l_saved_data L)
      ((t_mem (w_tracee w))(l_running_addr L \<mapsto> l_saved_data L)) w"
  have "orig (l_running_addr L) = Some (l_saved_data L)"
    using assms(2,3) True unfolding shows_image_def by blast
  then have "shows_image orig ?w'"
    using assms(2,3) unfolding shows_image_def armed_repatch[OF assms(1,3)]
    by auto
  moreover have "sites_ok ?w'" by (rule sites_ok_repatch[OF assms(1)]) simp
  ultimately show ?thesis using loc_disable_effect[OF sites_okD[OF assms(1,3)] assms(3) True] by blast
qed

section \<open>The interface of a code patcher\<close>

text \<open>
  What the layers above use of patching: switching a valid site on or off always succeeds,
  keeps the contract \<open>ok\<close>, changes the switch of that site only, and does nothing when the
  switch is already there.
\<close>

fun apply_switches :: "('l \<Rightarrow> bool) \<Rightarrow> ('l \<times> bool) list \<Rightarrow> 'l \<Rightarrow> bool" where
  "apply_switches f [] = f"
| "apply_switches f ((l, v) # ts) = apply_switches (f(l := v)) ts"

locale code_patcher =
  fixes ok :: "'s \<Rightarrow> bool"
    and valid :: "'s \<Rightarrow> 'l \<Rightarrow> bool"
    and is_on :: "'s \<Rightarrow> 'l \<Rightarrow> bool"
    and switch :: "bool \<Rightarrow> 'l \<Rightarrow> 's \<Rightarrow> 's res"
  assumes switch_law: "ok s \<Longrightarrow> valid s l \<Longrightarrow>
      \<exists>s'. switch v l s = Inr s' \<and> ok s' \<and> valid s' = valid s \<and> is_on s' = (is_on s)(l := v)"
    and switch_idle: "valid s l \<Longrightarrow> is_on s l = v \<Longrightarrow> switch v l s = Inr s"
begin

lemma switch_run:
  "ok s \<Longrightarrow> \<forall>t \<in> set ts. valid s (fst t) \<Longrightarrow>
    \<exists>s'. res_fold (\<lambda>t. switch (snd t) (fst t)) ts s = Inr s' \<and> ok s' \<and> valid s' = valid s \<and>
      is_on s' = apply_switches (is_on s) ts"
proof (induction ts arbitrary: s)
  case (Cons t ts)
  obtain s1 where s1: "switch (snd t) (fst t) s = Inr s1" "ok s1" "valid s1 = valid s"
      "is_on s1 = (is_on s)(fst t := snd t)"
    using switch_law[of s "fst t" "snd t"] Cons.prems by auto
  moreover obtain s' where "res_fold (\<lambda>t. switch (snd t) (fst t)) ts s1 = Inr s'" "ok s'"
      "valid s' = valid s1" "is_on s' = apply_switches (is_on s1) ts"
    using Cons.IH[OF s1(2)] Cons.prems s1(3) by auto
  ultimately show ?case by (intro exI[of _ s']) (cases t, simp)
qed simp

lemma switch_twice:
  assumes "ok s" "valid s l"
  shows "res_bind (switch v l s) (switch v l) = switch v l s"
proof -
  obtain s' where s': "switch v l s = Inr s'" "valid s' = valid s" "is_on s' = (is_on s)(l := v)"
    using switch_law[OF assms, of v] by blast
  then have "switch v l s' = Inr s'" using assms by (intro switch_idle) simp_all
  with s' show ?thesis by simp
qed

end

definition patch_ok :: "(u64 \<Rightarrow> u8 option) \<Rightarrow> 'a bp_world_scheme \<Rightarrow> bool" where
  "patch_ok orig w \<longleftrightarrow> sites_ok w \<and> shows_image orig w"

definition patch_valid :: "'a bp_world_scheme \<Rightarrow> nat \<Rightarrow> bool" where
  "patch_valid w l \<longleftrightarrow> w_locs w l \<noteq> None"

definition patch_on :: "'a bp_world_scheme \<Rightarrow> nat \<Rightarrow> bool" where
  "patch_on w l \<longleftrightarrow> (\<exists>L. w_locs w l = Some L \<and> l_patched L)"

definition loc_switch :: "bool \<Rightarrow> nat \<Rightarrow> 'a bp_world_scheme \<Rightarrow> 'a bp_world_scheme res" where
  "loc_switch v = (if v then loc_enable else loc_disable)"

lemma loc_switch_image:
  assumes "patch_ok orig w" "w_locs w l = Some L"
  shows "\<exists>sd m. loc_switch v l w = Inr (repatch l v sd m w) \<and> patch_ok orig (repatch l v sd m w)"
  using assms loc_enable_image[of w orig l L] loc_disable_image[of w orig l L]
  by (cases v) (auto simp: loc_switch_def patch_ok_def)

lemma loc_switch_idle:
  "w_locs w l = Some L \<Longrightarrow> l_patched L = v \<Longrightarrow> loc_switch v l w = Inr w"
  by (auto simp: loc_switch_def loc_enable_def loc_disable_def)

interpretation patcher: code_patcher "patch_ok orig" patch_valid patch_on loc_switch
  for orig
proof unfold_locales
  fix w :: "'a bp_world_scheme" and l v
  assume ok: "patch_ok orig w" and "patch_valid w l"
  then obtain L where L: "w_locs w l = Some L" by (auto simp: patch_valid_def)
  obtain sd m where r: "loc_switch v l w = Inr (repatch l v sd m w)" "patch_ok orig (repatch l v sd m w)"
    using loc_switch_image[OF ok L] by blast
  moreover have "patch_valid (repatch l v sd m w) = patch_valid w"
    by (auto simp: patch_valid_def fun_eq_iff)
  moreover have "patch_on (repatch l v sd m w) = (patch_on w)(l := v)"
    using L by (auto simp: patch_on_def fun_eq_iff)
  ultimately show "\<exists>w'. loc_switch v l w = Inr w' \<and> patch_ok orig w' \<and> patch_valid w' = patch_valid w
      \<and> patch_on w' = (patch_on w)(l := v)" by blast
next
  show "loc_switch v l w = Inr w" if "patch_valid w l" "patch_on w l = v" for w :: "'a bp_world_scheme" and l v
    using that loc_switch_idle[of w l] by (auto simp: patch_valid_def patch_on_def)
qed

lemma armed_iff_on: "armed w a \<longleftrightarrow> (\<exists>l L. w_locs w l = Some L \<and> patch_on w l \<and> l_running_addr L = a)"
  unfolding armed_def patch_on_def by (metis option.inject)

lemma image_unarmed: "shows_image orig w \<Longrightarrow> (\<And>l. \<not> patch_on w l) \<Longrightarrow> t_mem (w_tracee w) = orig"
  by (auto simp: shows_image_def armed_iff_on fun_eq_iff)

end
