(* ===== verification/Breakpoint_Inv.thy ===== *)
theory Breakpoint_Inv
  imports Breakpoint_Patch
begin

text \<open>
  The invariant of the two stores of theory Breakpoint and its preservation by every
  operation of \<open>src/breakpoint.c\<close>, together with what each operation does: which fields it
  writes, when it patches, and that it never faults on a well-formed heap.
\<close>

section \<open>The invariant\<close>

text \<open>
  Breakpoints and locations point to each other, temporary locations have no list, no
  patched location has an empty one, and addresses from \<open>w_next\<close> on are free.
\<close>

definition heap_ok :: "'a bp_world_scheme \<Rightarrow> bool" where
  "heap_ok w \<longleftrightarrow>
     (\<forall>l L. w_locs w l = Some L \<longrightarrow>
        (if l_is_temp L then l_bp_list L = None
         else \<exists>ps. l_bp_list L = Some ps \<and> distinct ps \<and>
           (\<forall>p \<in> set ps. \<exists>b. w_bps w p = Some b \<and> b_location b = Some l))) \<and>
     (\<forall>p b l. w_bps w p = Some b \<longrightarrow> b_location b = Some l \<longrightarrow>
        (\<exists>L ps. w_locs w l = Some L \<and> l_bp_list L = Some ps \<and> p \<in> set ps)) \<and>
     (\<forall>l L. w_locs w l = Some L \<longrightarrow> l_patched L \<longrightarrow> l_bp_list L \<noteq> Some []) \<and>
     (\<forall>p. w_next w \<le> p \<longrightarrow> w_bps w p = None \<and> w_locs w p = None)"

lemma heap_okI [inv_intros]:
  assumes "\<And>l L. w_locs w l = Some L \<Longrightarrow> l_is_temp L \<Longrightarrow> l_bp_list L = None"
    and "\<And>l L. w_locs w l = Some L \<Longrightarrow> \<not> l_is_temp L \<Longrightarrow>
      \<exists>ps. l_bp_list L = Some ps \<and> distinct ps \<and>
        (\<forall>p \<in> set ps. \<exists>b. w_bps w p = Some b \<and> b_location b = Some l)"
    and "\<And>p b l. w_bps w p = Some b \<Longrightarrow> b_location b = Some l \<Longrightarrow>
      \<exists>L ps. w_locs w l = Some L \<and> l_bp_list L = Some ps \<and> p \<in> set ps"
    and "\<And>l L. w_locs w l = Some L \<Longrightarrow> l_patched L \<Longrightarrow> l_bp_list L \<noteq> Some []"
    and "\<And>p. w_next w \<le> p \<Longrightarrow> w_bps w p = None \<and> w_locs w p = None"
  shows "heap_ok w"
  using assms unfolding heap_ok_def by auto

lemma heap_temp: "heap_ok w \<Longrightarrow> w_locs w l = Some L \<Longrightarrow> l_is_temp L \<Longrightarrow> l_bp_list L = None"
  by (auto simp: heap_ok_def split: if_splits)

lemma heap_list:
  assumes "heap_ok w" "w_locs w l = Some L" "\<not> l_is_temp L"
  obtains ps where "l_bp_list L = Some ps" "distinct ps"
    "\<And>p. p \<in> set ps \<Longrightarrow> \<exists>b. w_bps w p = Some b \<and> b_location b = Some l"
  using assms unfolding heap_ok_def by (metis (no_types))

lemma heap_location:
  assumes "heap_ok w" "w_bps w p = Some b" "b_location b = Some l"
  obtains L ps where "w_locs w l = Some L" "\<not> l_is_temp L" "l_bp_list L = Some ps"
    "distinct ps" "p \<in> set ps"
    "\<And>q. q \<in> set ps \<Longrightarrow> \<exists>b. w_bps w q = Some b \<and> b_location b = Some l"
proof -
  obtain L ps where L: "w_locs w l = Some L" "l_bp_list L = Some ps" "p \<in> set ps"
    using assms unfolding heap_ok_def by (metis (no_types))
  then have "\<not> l_is_temp L" using assms(1) heap_temp by fastforce
  with L assms(1) show ?thesis using that by (metis heap_list option.inject)
qed

lemma heap_patched:
  "heap_ok w \<Longrightarrow> w_locs w l = Some L \<Longrightarrow> l_patched L \<Longrightarrow> l_bp_list L \<noteq> Some []"
  by (simp add: heap_ok_def)

lemma heap_fresh:
  "heap_ok w \<Longrightarrow> w_next w \<le> p \<Longrightarrow> w_bps w p = None \<and> w_locs w p = None"
  by (simp add: heap_ok_def)

lemma heap_ok_cong:
  "w_bps w' = w_bps w \<Longrightarrow> w_locs w' = w_locs w \<Longrightarrow> w_next w' = w_next w \<Longrightarrow> heap_ok w' = heap_ok w"
  by (simp add: heap_ok_def)

text \<open>The whole invariant of a running debugger's breakpoint heap.\<close>

definition world_ok :: "(u64 \<Rightarrow> u8 option) \<Rightarrow> 'a bp_world_scheme \<Rightarrow> bool" where
  "world_ok orig w \<longleftrightarrow> heap_ok w \<and> patch_ok orig w"

section \<open>Updates that keep it\<close>

lemma heap_ok_repatch:
  assumes "heap_ok w" "\<And>L. w_locs w l = Some L \<Longrightarrow> v \<Longrightarrow> l_bp_list L \<noteq> Some []"
  shows "heap_ok (repatch l v sd m w)"
proof (rule heap_okI)
  let ?w = "repatch l v sd m w"
  fix k K assume K: "w_locs ?w k = Some K"
  then obtain K' where K': "w_locs w k = Some K'" "l_is_temp K = l_is_temp K'"
    "l_bp_list K = l_bp_list K'" "l_patched K = (if k = l then v else l_patched K')"
    by (auto split: if_splits)
  show "l_bp_list K = None" if "l_is_temp K"
    using that K' heap_temp[OF assms(1)] by simp
  show "\<exists>ps. l_bp_list K = Some ps \<and> distinct ps \<and>
      (\<forall>p \<in> set ps. \<exists>b. w_bps ?w p = Some b \<and> b_location b = Some k)" if "\<not> l_is_temp K"
    using that K' heap_list[OF assms(1) K'(1)] by (metis repatch_frame(1))
  show "l_bp_list K \<noteq> Some []" if "l_patched K"
    using that K' heap_patched[OF assms(1) K'(1)] assms(2)[of K'] by (auto split: if_splits)
next
  let ?w = "repatch l v sd m w"
  fix p b k assume "w_bps ?w p = Some b" "b_location b = Some k"
  then have "w_bps w p = Some b" "b_location b = Some k" by simp_all
  then obtain L ps where "w_locs w k = Some L" "l_bp_list L = Some ps" "p \<in> set ps"
    using heap_location[OF assms(1)] by metis
  then show "\<exists>L ps. w_locs ?w k = Some L \<and> l_bp_list L = Some ps \<and> p \<in> set ps" by auto
next
  fix p assume "w_next (repatch l v sd m w) \<le> p"
  then show "w_bps (repatch l v sd m w) p = None \<and> w_locs (repatch l v sd m w) p = None"
    using heap_fresh[OF assms(1)] by auto
qed

lemma set_bp_frame [simp]:
  "w_bps (set_bp p b w) = (w_bps w)(p \<mapsto> b)" "w_locs (set_bp p b w) = w_locs w"
  "w_tracee (set_bp p b w) = w_tracee w" "w_next (set_bp p b w) = w_next w"
  "w_id_counter (set_bp p b w) = w_id_counter w"
  "bp_world.more (set_bp p b w) = bp_world.more w"
  by (simp_all add: set_bp_def)

lemma set_loc_frame [simp]:
  "w_locs (set_loc l L w) = (w_locs w)(l \<mapsto> L)" "w_bps (set_loc l L w) = w_bps w"
  "w_tracee (set_loc l L w) = w_tracee w" "w_next (set_loc l L w) = w_next w"
  "w_id_counter (set_loc l L w) = w_id_counter w"
  "bp_world.more (set_loc l L w) = bp_world.more w"
  by (simp_all add: set_loc_def)

text \<open>The patch contract looks at the tracee and the locations only.\<close>

lemma patch_ok_cong:
  "w_tracee w' = w_tracee w \<Longrightarrow> w_locs w' = w_locs w \<Longrightarrow> patch_ok orig w' = patch_ok orig w"
  by (simp add: patch_ok_def sites_ok_def shows_image_def armed_def)

text \<open>It also ignores the lists of breakpoints.\<close>

lemma patch_ok_list_upd:
  assumes "patch_ok orig w" "w_locs w l = Some L"
  shows "patch_ok orig (set_loc l (L\<lparr>l_bp_list := x\<rparr>) w)"
proof -
  let ?w = "set_loc l (L\<lparr>l_bp_list := x\<rparr>) w"
  have "armed ?w a = armed w a" for a
    using assms(2) unfolding armed_def by (auto split: if_splits) (metis option.inject)+
  then show ?thesis
    using assms unfolding patch_ok_def sites_ok_def shows_image_def by (auto split: if_splits)
qed

lemma heap_ok_set_flag:
  assumes "heap_ok w" "w_bps w p = Some b" "b_location b' = b_location b"
  shows "heap_ok (set_bp p b' w)"
proof (rule heap_okI)
  fix l L assume "w_locs (set_bp p b' w) l = Some L" and nt: "\<not> l_is_temp L"
  then have "w_locs w l = Some L" by simp
  then obtain ps where ps: "l_bp_list L = Some ps" "distinct ps"
    "\<And>q. q \<in> set ps \<Longrightarrow> \<exists>b. w_bps w q = Some b \<and> b_location b = Some l"
    using heap_list[OF assms(1) _ nt] by metis
  have "\<exists>c. w_bps (set_bp p b' w) q = Some c \<and> b_location c = Some l" if "q \<in> set ps" for q
    using ps(3)[OF that] assms(2,3) by (cases "q = p") auto
  with ps show "\<exists>ps. l_bp_list L = Some ps \<and> distinct ps \<and>
      (\<forall>q \<in> set ps. \<exists>c. w_bps (set_bp p b' w) q = Some c \<and> b_location c = Some l)" by blast
next
  fix q c l assume "w_bps (set_bp p b' w) q = Some c" "b_location c = Some l"
  then have "\<exists>c. w_bps w q = Some c \<and> b_location c = Some l"
    using assms(2,3) by (auto split: if_splits)
  then show "\<exists>L ps. w_locs (set_bp p b' w) l = Some L \<and> l_bp_list L = Some ps \<and> q \<in> set ps"
    using heap_location[OF assms(1)] by (metis set_bp_frame(2))
next
  fix q assume "w_next (set_bp p b' w) \<le> q"
  then show "w_bps (set_bp p b' w) q = None \<and> w_locs (set_bp p b' w) q = None"
    using heap_fresh[OF assms(1), of q] assms(2) by auto
qed (use heap_temp[OF assms(1)] heap_patched[OF assms(1)] in auto)

lemma world_ok_set_flag:
  "world_ok orig w \<Longrightarrow> w_bps w p = Some b \<Longrightarrow> b_location b' = b_location b \<Longrightarrow>
     world_ok orig (set_bp p b' w)"
  unfolding world_ok_def by (metis heap_ok_set_flag patch_ok_cong set_bp_frame(2,3))

lemma world_ok_repatch:
  "world_ok orig w \<Longrightarrow> patch_ok orig (repatch l v sd m w) \<Longrightarrow>
    (\<And>L. w_locs w l = Some L \<Longrightarrow> v \<Longrightarrow> l_bp_list L \<noteq> Some []) \<Longrightarrow>
    world_ok orig (repatch l v sd m w)"
  by (auto simp: world_ok_def intro: heap_ok_repatch)

lemma all_bps_eval:
  assumes "\<And>p. p \<in> set ps \<Longrightarrow> w_bps w p \<noteq> None"
  shows "all_bps f ps w = Inr (\<forall>p \<in> set ps. f (the (w_bps w p)))"
proof -
  have "res_fold (\<lambda>p acc. res_bind (deref (w_bps w) p) (\<lambda>b. Inr (if \<not> f b then False else acc))) ps acc
      = Inr (acc \<and> (\<forall>p \<in> set ps. f (the (w_bps w p))))" for acc
    using assms
  proof (induction ps arbitrary: acc)
    case (Cons p ps)
    then obtain b where "w_bps w p = Some b" by fastforce
    with Cons show ?case by simp
  qed simp
  then show ?thesis by (simp add: all_bps_def)
qed

section \<open>What an operation may change\<close>

text \<open>
  The part of a location that patching leaves alone, and the frame of the operations that
  only toggle flags and patches.
\<close>

definition loc_core :: "bp_location \<Rightarrow> int \<times> bool \<times> u64 \<times> nat list option" where
  "loc_core L = (l_pid L, l_is_temp L, l_running_addr L, l_bp_list L)"

definition rest_same :: "'a bp_world_scheme \<Rightarrow> 'a bp_world_scheme \<Rightarrow> bool" where
  "rest_same w w' \<longleftrightarrow> w_id_counter w' = w_id_counter w \<and> bp_world.more w' = bp_world.more w \<and>
     t_pid (w_tracee w') = t_pid (w_tracee w) \<and> t_run (w_tracee w') = t_run (w_tracee w) \<and>
     t_regs (w_tracee w') = t_regs (w_tracee w)"

definition same_sites :: "'a bp_world_scheme \<Rightarrow> 'a bp_world_scheme \<Rightarrow> bool" where
  "same_sites w w' \<longleftrightarrow> rest_same w w' \<and> w_next w' = w_next w \<and>
     (\<forall>l. map_option loc_core (w_locs w' l) = map_option loc_core (w_locs w l))"

lemma rest_same_refl [simp]: "rest_same w w"
  by (simp add: rest_same_def)

lemma rest_same_trans: "rest_same u v \<Longrightarrow> rest_same v w \<Longrightarrow> rest_same u w"
  by (simp add: rest_same_def)

lemma same_sites_refl [simp]: "same_sites w w"
  by (simp add: same_sites_def)

lemma same_sites_trans: "same_sites u v \<Longrightarrow> same_sites v w \<Longrightarrow> same_sites u w"
  by (auto simp: same_sites_def intro: rest_same_trans)

lemma same_sites_repatch [simp]: "same_sites w (repatch l v sd m w)"
  by (cases "w_locs w l") (auto simp: same_sites_def rest_same_def loc_core_def)

lemma same_sites_set_bp [simp]: "same_sites w (set_bp p b w)"
  by (simp add: same_sites_def rest_same_def)

lemma same_sitesD:
  assumes "same_sites w w'" "w_locs w l = Some L"
  obtains L' where "w_locs w' l = Some L'" "loc_core L' = loc_core L"
proof -
  have "map_option loc_core (w_locs w' l) = Some (loc_core L)"
    using assms by (simp add: same_sites_def)
  then show ?thesis using that by (auto simp: map_option_eq_Some)
qed

text \<open>The breakpoints of a location, read off their own pointers.\<close>

definition bps_at :: "'a bp_world_scheme \<Rightarrow> nat \<Rightarrow> nat set" where
  "bps_at w l = {p. \<exists>b. w_bps w p = Some b \<and> b_location b = Some l}"

definition enabled :: "'a bp_world_scheme \<Rightarrow> nat \<Rightarrow> bool" where
  "enabled w p \<longleftrightarrow> (\<exists>b. w_bps w p = Some b \<and> b_enable b)"

lemma list_bps_at:
  assumes "heap_ok w" "w_locs w l = Some L" "l_bp_list L = Some ps"
  shows "set ps = bps_at w l"
proof -
  have nt: "\<not> l_is_temp L" using assms heap_temp by fastforce
  show ?thesis
  proof (intro set_eqI iffI)
    fix p assume "p \<in> set ps"
    moreover obtain ps' where "l_bp_list L = Some ps'"
      "\<And>p. p \<in> set ps' \<Longrightarrow> \<exists>b. w_bps w p = Some b \<and> b_location b = Some l"
      using heap_list[OF assms(1,2) nt] by metis
    ultimately show "p \<in> bps_at w l" using assms(3) by (simp add: bps_at_def)
  next
    fix p assume "p \<in> bps_at w l"
    then obtain b where b: "w_bps w p = Some b" "b_location b = Some l" by (auto simp: bps_at_def)
    obtain L' ps' where "w_locs w l = Some L'" "l_bp_list L' = Some ps'" "p \<in> set ps'"
      using heap_location[OF assms(1) b] by metis
    with assms(2,3) show "p \<in> set ps" by simp
  qed
qed

lemma patch_on_repatch [simp]:
  "patch_on (repatch l v sd m w) k \<longleftrightarrow> (if k = l \<and> w_locs w l \<noteq> None then v else patch_on w k)"
  by (auto simp: patch_on_def)

lemma patch_on_set_bp [simp]: "patch_on (set_bp p b w) k = patch_on w k"
  by (simp add: patch_on_def)

section \<open>Enabling and disabling a breakpoint\<close>

lemma bp_enable_ok:
  assumes ok: "world_ok orig w" and b: "w_bps w p = Some b"
  shows "\<exists>w'. bp_enable p w = Inr w' \<and> world_ok orig w' \<and> same_sites w w' \<and>
    w_bps w' = (w_bps w)(p \<mapsto> b\<lparr>b_enable := True\<rparr>) \<and>
    (\<forall>l. patch_on w' l \<longleftrightarrow> patch_on w l \<or>
       b_location b = Some l \<and> (\<forall>q \<in> bps_at w l. q = p \<or> enabled w q))"
proof -
  define w1 where "w1 = set_bp p (b\<lparr>b_enable := True\<rparr>) w"
  have ok1: "world_ok orig w1" unfolding w1_def by (rule world_ok_set_flag[OF ok b]) simp
  show ?thesis
  proof (cases "b_location b")
    case None
    then have "bp_enable p w = Inr w1" using b by (simp add: bp_enable_def w1_def)
    with ok1 None show ?thesis by (intro exI[of _ w1]) (simp add: w1_def)
  next
    case (Some l)
    obtain L ps where L: "w_locs w l = Some L" "l_bp_list L = Some ps" "p \<in> set ps"
      "\<And>q. q \<in> set ps \<Longrightarrow> \<exists>b. w_bps w q = Some b \<and> b_location b = Some l"
      using heap_location[of w p b l] ok b Some by (metis world_ok_def)
    have ps: "set ps = bps_at w l" using list_bps_at[of w l L ps] ok L by (simp add: world_ok_def)
    let ?all = "\<forall>q \<in> bps_at w l. q = p \<or> enabled w q"
    have eval: "all_bps b_enable ps w1 = Inr (\<forall>q \<in> set ps. b_enable (the (w_bps w1 q)))"
      by (rule all_bps_eval) (use L(4) in \<open>force simp: w1_def\<close>)
    have all: "(\<forall>q \<in> set ps. b_enable (the (w_bps w1 q))) \<longleftrightarrow> ?all"
    proof -
      have "b_enable (the (w_bps w1 q)) \<longleftrightarrow> q = p \<or> enabled w q" if "q \<in> set ps" for q
        using L(4)[OF that] by (auto simp: w1_def enabled_def)
      then show ?thesis by (simp add: ps)
    qed
    have locs1: "w_locs w1 l = Some L" using L by (simp add: w1_def)
    have "bp_enable p w = res_bind (all_bps b_enable ps w1)
        (\<lambda>to_patch. if to_patch then loc_enable l w1 else Inr w1)"
      using b Some L(2) locs1 by (simp add: bp_enable_def Let_def loc_list_def cong: if_cong flip: w1_def)
    then have run: "bp_enable p w = (if ?all then loc_enable l w1 else Inr w1)"
      by (simp only: eval all res_bind_Inr)
    obtain sd m where en: "loc_enable l w1 = Inr (repatch l True sd m w1)"
      "patch_ok orig (repatch l True sd m w1)"
      using loc_enable_image[of w1 orig l L] ok1 locs1 by (auto simp: world_ok_def patch_ok_def)
    have ok2: "world_ok orig (repatch l True sd m w1)"
      by (rule world_ok_repatch[OF ok1 en(2)]) (use locs1 L in auto)
    have ss: "same_sites w (repatch l True sd m w1)"
      by (rule same_sites_trans[of _ w1]) (simp_all add: w1_def)
    show ?thesis
    proof (cases ?all)
      case True
      then show ?thesis
        using run en ok2 ss L(1) Some
        by (intro exI[of _ "repatch l True sd m w1"]) (auto simp: w1_def)
    next
      case False
      then show ?thesis
        using run ok1 Some by (intro exI[of _ w1]) (auto simp: w1_def)
    qed
  qed
qed

lemma bp_disable_ok:
  assumes ok: "world_ok orig w" and b: "w_bps w p = Some b"
  shows "\<exists>w'. bp_disable p w = Inr w' \<and> world_ok orig w' \<and> same_sites w w' \<and>
    w_bps w' = (w_bps w)(p \<mapsto> b\<lparr>b_enable := False\<rparr>) \<and>
    (\<forall>l. patch_on w' l \<longleftrightarrow> patch_on w l \<and>
       \<not> (b_location b = Some l \<and> (\<forall>q \<in> bps_at w l. q = p \<or> \<not> enabled w q)))"
proof -
  define w1 where "w1 = set_bp p (b\<lparr>b_enable := False\<rparr>) w"
  have ok1: "world_ok orig w1" unfolding w1_def by (rule world_ok_set_flag[OF ok b]) simp
  show ?thesis
  proof (cases "b_location b")
    case None
    then have "bp_disable p w = Inr w1" using b by (simp add: bp_disable_def w1_def)
    with ok1 None show ?thesis by (intro exI[of _ w1]) (simp add: w1_def)
  next
    case (Some l)
    obtain L ps where L: "w_locs w l = Some L" "l_bp_list L = Some ps" "p \<in> set ps"
      "\<And>q. q \<in> set ps \<Longrightarrow> \<exists>b. w_bps w q = Some b \<and> b_location b = Some l"
      using heap_location[of w p b l] ok b Some by (metis world_ok_def)
    have ps: "set ps = bps_at w l" using list_bps_at[of w l L ps] ok L by (simp add: world_ok_def)
    let ?all = "\<forall>q \<in> bps_at w l. q = p \<or> \<not> enabled w q"
    have eval: "all_bps (\<lambda>b. \<not> b_enable b) ps w1 = Inr (\<forall>q \<in> set ps. \<not> b_enable (the (w_bps w1 q)))"
      by (rule all_bps_eval) (use L(4) in \<open>force simp: w1_def\<close>)
    have all: "(\<forall>q \<in> set ps. \<not> b_enable (the (w_bps w1 q))) \<longleftrightarrow> ?all"
    proof -
      have "\<not> b_enable (the (w_bps w1 q)) \<longleftrightarrow> q = p \<or> \<not> enabled w q" if "q \<in> set ps" for q
        using L(4)[OF that] by (auto simp: w1_def enabled_def)
      then show ?thesis by (simp add: ps)
    qed
    have locs1: "w_locs w1 l = Some L" using L by (simp add: w1_def)
    have "bp_disable p w = res_bind (all_bps (\<lambda>b. \<not> b_enable b) ps w1)
        (\<lambda>to_remove_patch. if to_remove_patch then loc_disable l w1 else Inr w1)"
      using b Some L(2) locs1 by (simp add: bp_disable_def Let_def loc_list_def cong: if_cong flip: w1_def)
    then have run: "bp_disable p w = (if ?all then loc_disable l w1 else Inr w1)"
      by (simp only: eval all res_bind_Inr)
    obtain sd m where en: "loc_disable l w1 = Inr (repatch l False sd m w1)"
      "patch_ok orig (repatch l False sd m w1)"
      using loc_disable_image[of w1 orig l L] ok1 locs1 by (auto simp: world_ok_def patch_ok_def)
    have ok2: "world_ok orig (repatch l False sd m w1)"
      by (rule world_ok_repatch[OF ok1 en(2)]) (use locs1 L in auto)
    have ss: "same_sites w (repatch l False sd m w1)"
      by (rule same_sites_trans[of _ w1]) (simp_all add: w1_def)
    show ?thesis
    proof (cases ?all)
      case True
      then show ?thesis
        using run en ok2 ss L(1) Some
        by (intro exI[of _ "repatch l False sd m w1"]) (auto simp: w1_def)
    next
      case False
      then show ?thesis
        using run ok1 Some by (intro exI[of _ w1]) (auto simp: w1_def)
    qed
  qed
qed

section \<open>Attaching a breakpoint to a location\<close>

lemma patch_ok_new_loc:
  assumes ok: "patch_ok orig w" and new: "w_locs w l = None"
    and L: "\<not> l_patched L" "l_pid L = t_pid (w_tracee w)"
      "mapped8 (t_mem (w_tracee w)) (l_running_addr L)"
      "\<And>k K. w_locs w k = Some K \<Longrightarrow> l_running_addr K \<noteq> l_running_addr L"
    and w': "w_tracee w' = w_tracee w" "w_locs w' = (w_locs w)(l \<mapsto> L)"
  shows "patch_ok orig w'"
proof -
  have arm: "armed w' a = armed w a" for a
  proof -
    have "w_locs w' k = Some K \<and> l_patched K \<longleftrightarrow> w_locs w k = Some K \<and> l_patched K" for k K
      using L(1) new w'(2) by (cases "k = l") auto
    then show ?thesis unfolding armed_def by metis
  qed
  have "l_running_addr L \<noteq> l_running_addr K" if "w_locs w k = Some K" for k K
    using L(4)[OF that] by simp
  then show ?thesis
    using ok L unfolding patch_ok_def sites_ok_def shows_image_def arm w'
    by (auto split: if_splits)
qed

text \<open>A breakpoint without a location joins the list of one.\<close>

lemma heap_ok_attach:
  assumes ok: "heap_ok w" and b: "w_bps w p = Some b" "b_location b = None"
    and L: "w_locs w l = Some L \<and> l_bp_list L = Some ps \<or> w_locs w l = None \<and> ps = [] \<and> l = w_next w"
    and K: "\<not> l_is_temp K" "l_bp_list K = Some (ps @ [p])"
    and w': "w_bps w' = (w_bps w)(p \<mapsto> b\<lparr>b_location := Some l\<rparr>)"
      "w_locs w' = (w_locs w)(l \<mapsto> K)" "w_next w \<le> w_next w'" "l < w_next w'"
  shows "heap_ok w'"
proof -
  have ps: "distinct ps \<and> (\<forall>q \<in> set ps. \<exists>c. w_bps w q = Some c \<and> b_location c = Some l)"
  proof (cases "w_locs w l")
    case (Some L)
    moreover then have "l_bp_list L = Some ps" using assms(4) by simp
    ultimately show ?thesis
      using heap_list[OF ok Some] heap_temp[OF ok Some] by (metis option.distinct(1) option.inject)
  qed (use L in simp)
  then have notin: "p \<notin> set ps" using b by auto
  have other: "q \<noteq> p" if "w_bps w q = Some c" "b_location c = Some k" for q c k
    using that b by auto
  have pnext: "p < w_next w" by (rule ccontr) (use heap_fresh[OF ok, of p] b in simp)
  show ?thesis
  proof (rule heap_okI)
    fix k M assume M: "w_locs w' k = Some M"
    show "l_bp_list M = None" if "l_is_temp M"
      using that M w'(2) K heap_temp[OF ok] by (auto split: if_splits)
    show "l_bp_list M \<noteq> Some []" if "l_patched M"
      using that M w'(2) K heap_patched[OF ok] by (auto split: if_splits)
    assume nt: "\<not> l_is_temp M"
    show "\<exists>qs. l_bp_list M = Some qs \<and> distinct qs \<and>
        (\<forall>q \<in> set qs. \<exists>c. w_bps w' q = Some c \<and> b_location c = Some k)"
    proof (cases "k = l")
      case True
      then show ?thesis using M K ps notin other w' by auto
    next
      case False
      then have "w_locs w k = Some M" using M w' by simp
      then obtain qs where "l_bp_list M = Some qs" "distinct qs"
        "\<And>q. q \<in> set qs \<Longrightarrow> \<exists>c. w_bps w q = Some c \<and> b_location c = Some k"
        using heap_list[OF ok _ nt] by metis
      then show ?thesis using other w' by fastforce
    qed
  next
    fix q c k assume c: "w_bps w' q = Some c" "b_location c = Some k"
    show "\<exists>M qs. w_locs w' k = Some M \<and> l_bp_list M = Some qs \<and> q \<in> set qs"
    proof (cases "q = p")
      case True
      then show ?thesis using c w' K by auto
    next
      case False
      then have "w_bps w q = Some c" using c w' by simp
      then obtain M qs where "w_locs w k = Some M" "l_bp_list M = Some qs" "q \<in> set qs"
        using heap_location[OF ok _ c(2)] by metis
      then show ?thesis using w' K L by (cases "k = l") auto
    qed
  next
    fix q assume "w_next w' \<le> q"
    then show "w_bps w' q = None \<and> w_locs w' q = None"
      using heap_fresh[OF ok, of q] pnext w' by auto
  qed
qed

lemma loc_append_ok:
  assumes ok: "world_ok orig w" and b: "w_bps w p = Some b" "b_location b = None"
    and L: "w_locs w l = Some L" "\<not> l_is_temp L"
  shows "\<exists>w'. loc_append_breakpoint_to_list l p w = Inr w' \<and> world_ok orig w' \<and> rest_same w w' \<and>
    w_next w' = w_next w \<and> w_bps w' = (w_bps w)(p \<mapsto> b\<lparr>b_location := Some l\<rparr>) \<and>
    (\<forall>k. map_option l_running_addr (w_locs w' k) = map_option l_running_addr (w_locs w k)) \<and>
    (\<forall>k. map_option l_is_temp (w_locs w' k) = map_option l_is_temp (w_locs w k)) \<and>
    (\<forall>k. patch_on w' k \<longleftrightarrow> (if k = l then b_enable b else patch_on w k))"
proof -
  obtain ps where ps: "l_bp_list L = Some ps" "\<And>q. q \<in> set ps \<Longrightarrow> \<exists>c. w_bps w q = Some c \<and> b_location c = Some l"
    using heap_list[of w l L] ok L by (metis world_ok_def)
  then have notin: "p \<notin> set ps" using b by fastforce
  define K where "K = L\<lparr>l_bp_list := Some (ps @ [p])\<rparr>"
  define w2 where "w2 = set_loc l K (set_bp p (b\<lparr>b_location := Some l\<rparr>) w)"
  have l: "l < w_next w" using heap_fresh[of w l] ok L by (metis leI option.distinct(1) world_ok_def)
  have "heap_ok w2"
    by (rule heap_ok_attach[of w p b l L ps K])
      (use ok b L ps l in \<open>auto simp: w2_def K_def world_ok_def\<close>)
  moreover have "patch_ok orig w2"
  proof -
    have "patch_ok orig (set_bp p (b\<lparr>b_location := Some l\<rparr>) w)"
      using ok patch_ok_cong[of "set_bp p (b\<lparr>b_location := Some l\<rparr>) w" w orig]
      by (simp add: world_ok_def)
    then show ?thesis unfolding w2_def K_def by (rule patch_ok_list_upd) (simp add: L)
  qed
  ultimately have ok2: "world_ok orig w2" by (simp add: world_ok_def)
  have K2: "w_locs w2 l = Some K" by (simp add: w2_def)
  obtain sd m where sw: "loc_switch (b_enable b) l w2 = Inr (repatch l (b_enable b) sd m w2)"
    "patch_ok orig (repatch l (b_enable b) sd m w2)"
    using loc_switch_image[of orig w2 l K "b_enable b"] ok2 K2 by (auto simp: world_ok_def)
  let ?w' = "repatch l (b_enable b) sd m w2"
  have "loc_append_breakpoint_to_list l p w = loc_switch (b_enable b) l w2"
    using b L ps notin loc_switch_idle[OF K2, of "b_enable b"]
    by (auto simp: loc_append_breakpoint_to_list_def Let_def loc_list_def loc_switch_def K_def
        w2_def)
  with sw have "loc_append_breakpoint_to_list l p w = Inr ?w'" by simp
  moreover have "world_ok orig ?w'"
    by (rule world_ok_repatch[OF ok2 sw(2)]) (simp add: K2 K_def)
  moreover have "patch_on w2 k = patch_on w k" if "k \<noteq> l" for k
    using that by (simp add: w2_def patch_on_def)
  ultimately show ?thesis
    using L by (intro exI[of _ ?w']) (auto simp: w2_def K_def rest_same_def)
qed

lemma loc_init_ok:
  assumes ok: "world_ok orig w" and b: "w_bps w p = Some b" "b_location b = None"
    and pid: "pid = t_pid (w_tracee w)" "pid \<noteq> 0" and a: "a \<noteq> 0" "mapped8 (t_mem (w_tracee w)) a"
    and new: "\<forall>k K. w_locs w k = Some K \<longrightarrow> l_running_addr K \<noteq> a"
  shows "\<exists>w'. loc_init pid a (Some p) False w = Inr (w_next w, w') \<and> world_ok orig w' \<and> rest_same w w' \<and>
    w_next w' = Suc (w_next w) \<and> w_bps w' = (w_bps w)(p \<mapsto> b\<lparr>b_location := Some (w_next w)\<rparr>) \<and>
    (\<forall>k. map_option l_running_addr (w_locs w' k) =
      (if k = w_next w then Some a else map_option l_running_addr (w_locs w k))) \<and>
    (\<forall>k. map_option l_is_temp (w_locs w' k) =
      (if k = w_next w then Some False else map_option l_is_temp (w_locs w k))) \<and>
    (\<forall>k. patch_on w' k \<longleftrightarrow> (if k = w_next w then b_enable b else patch_on w k))"
proof -
  let ?l = "w_next w"
  define K where "K = \<lparr>l_pid = pid, l_patched = False, l_is_temp = False, l_saved_data = 0,
      l_running_addr = a, l_bp_list = Some [p]\<rparr>"
  define w1 where "w1 = set_bp p (b\<lparr>b_location := Some ?l\<rparr>) (set_loc ?l K (w\<lparr>w_next := Suc ?l\<rparr>))"
  have free: "w_locs w ?l = None" using heap_fresh[of w ?l] ok by (simp add: world_ok_def)
  have "heap_ok w1"
    by (rule heap_ok_attach[of w p b ?l undefined "[]" K])
      (use ok b free in \<open>auto simp: w1_def K_def world_ok_def\<close>)
  moreover have "patch_ok orig w1"
    by (rule patch_ok_new_loc[of orig w ?l K])
      (use ok free pid a new in \<open>auto simp: w1_def K_def world_ok_def\<close>)
  ultimately have ok1: "world_ok orig w1" by (simp add: world_ok_def)
  have K1: "w_locs w1 ?l = Some K" by (simp add: w1_def)
  obtain sd m where sw: "loc_switch (b_enable b) ?l w1 = Inr (repatch ?l (b_enable b) sd m w1)"
    "patch_ok orig (repatch ?l (b_enable b) sd m w1)"
    using loc_switch_image[of orig w1 ?l K "b_enable b"] ok1 K1 by (auto simp: world_ok_def)
  let ?w' = "repatch ?l (b_enable b) sd m w1"
  have same: "(if b_enable b then loc_enable ?l w1 else Inr w1) = loc_switch (b_enable b) ?l w1"
    using loc_switch_idle[OF K1, of "b_enable b"] by (auto simp: loc_switch_def K_def)
  have "loc_init pid a (Some p) False w
      = res_bind (if b_enable b then loc_enable ?l w1 else Inr w1) (\<lambda>w'. Inr (?l, w'))"
    using b pid a by (simp add: loc_init_def Let_def w1_def K_def cong: if_cong)
  then have "loc_init pid a (Some p) False w = Inr (?l, ?w')" by (simp only: same sw res_bind_Inr)
  moreover have "world_ok orig ?w'"
    by (rule world_ok_repatch[OF ok1 sw(2)]) (simp add: K1 K_def)
  moreover have "patch_on w1 k = patch_on w k" if "k \<noteq> ?l" for k
    using that by (simp add: w1_def patch_on_def)
  ultimately show ?thesis
    by (intro exI[of _ ?w']) (auto simp: w1_def K_def rest_same_def)
qed

section \<open>Freeing a breakpoint\<close>

definition loc_place :: "bp_location \<Rightarrow> int \<times> bool \<times> u64" where
  "loc_place L = (l_pid L, l_is_temp L, l_running_addr L)"

text \<open>The locations stay where they are, whatever happens to their lists and patches.\<close>

definition same_places :: "'a bp_world_scheme \<Rightarrow> 'a bp_world_scheme \<Rightarrow> bool" where
  "same_places w w' \<longleftrightarrow> rest_same w w' \<and> w_next w' = w_next w \<and>
     (\<forall>l. map_option loc_place (w_locs w' l) = map_option loc_place (w_locs w l))"

lemma same_places_trans: "same_places u v \<Longrightarrow> same_places v w \<Longrightarrow> same_places u w"
  by (auto simp: same_places_def intro: rest_same_trans)

lemma same_sites_places: "same_sites w w' \<Longrightarrow> same_places w w'"
proof -
  have core: "loc_place L = (\<lambda>(a, b, c, d). (a, b, c)) (loc_core L)" for L
    by (simp add: loc_place_def loc_core_def)
  have "map_option loc_place x = map_option (\<lambda>(a, b, c, d). (a, b, c)) (map_option loc_core x)" for x
    by (cases x) (simp_all add: core)
  then show "same_sites w w' \<Longrightarrow> same_places w w'"
    unfolding same_places_def same_sites_def by metis
qed

lemma heap_ok_detach_bp:
  assumes ok: "heap_ok w" and b: "w_bps w p = Some b"
    and loc: "b_location b = Some l" "w_locs w l = Some L" "l_bp_list L = Some ps"
      "ps = [p] \<Longrightarrow> \<not> l_patched K"
    and K: "l_is_temp K = l_is_temp L" "l_bp_list K = Some (remove1 p ps)"
  shows "heap_ok (w\<lparr>w_bps := (w_bps w)(p := None), w_locs := (w_locs w)(l \<mapsto> K)\<rparr>)"
    (is "heap_ok ?w")
proof (rule heap_okI)
  have ps: "distinct ps" "\<And>q. q \<in> set ps \<Longrightarrow> \<exists>c. w_bps w q = Some c \<and> b_location c = Some l" "p \<in> set ps"
    using heap_location[OF ok b loc(1)] loc(2,3) by (metis option.inject)+
  have nt: "\<not> l_is_temp L" using heap_temp[OF ok loc(2)] loc(3) by auto
  {
    fix k M assume M: "w_locs ?w k = Some M"
    show "l_bp_list M = None" if "l_is_temp M"
      using that M K nt heap_temp[OF ok] by (auto split: if_splits)
    have "remove1 p ps = [] \<Longrightarrow> ps = [p]"
      using ps(3) by (cases ps) (auto split: if_splits)
    then show "l_bp_list M \<noteq> Some []" if "l_patched M"
      using that M K heap_patched[OF ok] loc(4) by (auto split: if_splits)
    assume ntM: "\<not> l_is_temp M"
    show "\<exists>qs. l_bp_list M = Some qs \<and> distinct qs \<and>
        (\<forall>q \<in> set qs. \<exists>c. w_bps ?w q = Some c \<and> b_location c = Some k)"
    proof (cases "k = l")
      case True
      then show ?thesis using M K ps by (auto simp: distinct_remove1)
    next
      case False
      then have "w_locs w k = Some M" using M by simp
      then obtain qs where qs: "l_bp_list M = Some qs" "distinct qs"
        "\<And>q. q \<in> set qs \<Longrightarrow> \<exists>c. w_bps w q = Some c \<and> b_location c = Some k"
        using heap_list[OF ok _ ntM] by metis
      have "\<exists>c. w_bps ?w q = Some c \<and> b_location c = Some k" if "q \<in> set qs" for q
        using qs(3)[OF that] b loc(1) False by auto
      with qs show ?thesis by blast
    qed
  }
  fix q c k assume c: "w_bps ?w q = Some c" "b_location c = Some k"
  then have q: "q \<noteq> p" "w_bps w q = Some c" by (auto split: if_splits)
  obtain M qs where M: "w_locs w k = Some M" "l_bp_list M = Some qs" "q \<in> set qs"
    using heap_location[OF ok q(2) c(2)] by metis
  show "\<exists>M qs. w_locs ?w k = Some M \<and> l_bp_list M = Some qs \<and> q \<in> set qs"
  proof (cases "k = l")
    case True
    then show ?thesis using M K loc q(1) by (auto simp: in_set_remove1)
  qed (use M in simp)
next
  fix q assume "w_next ?w \<le> q"
  then show "w_bps ?w q = None \<and> w_locs ?w q = None"
    using heap_fresh[OF ok, of q] loc(2) by auto
qed

lemma heap_ok_free_bp:
  assumes ok: "heap_ok w" and b: "w_bps w p = Some b" "b_location b = None"
  shows "heap_ok (w\<lparr>w_bps := (w_bps w)(p := None)\<rparr>)" (is "heap_ok ?w")
proof (rule heap_okI)
  fix l L assume L: "w_locs ?w l = Some L" "\<not> l_is_temp L"
  then obtain ps where ps: "l_bp_list L = Some ps" "distinct ps"
    "\<And>q. q \<in> set ps \<Longrightarrow> \<exists>c. w_bps w q = Some c \<and> b_location c = Some l"
    using heap_list[OF ok, of l L] by auto
  have "\<exists>c. w_bps ?w q = Some c \<and> b_location c = Some l" if "q \<in> set ps" for q
    using ps(3)[OF that] b by auto
  with ps show "\<exists>ps. l_bp_list L = Some ps \<and> distinct ps \<and>
      (\<forall>q \<in> set ps. \<exists>c. w_bps ?w q = Some c \<and> b_location c = Some l)" by blast
next
  fix q c l assume c: "w_bps ?w q = Some c" "b_location c = Some l"
  then have "w_bps w q = Some c" by (auto split: if_splits)
  then show "\<exists>L ps. w_locs ?w l = Some L \<and> l_bp_list L = Some ps \<and> q \<in> set ps"
    using heap_location[OF ok _ c(2)] by (metis bp_world.ext_inject bp_world.surjective bp_world.update_convs(3))
qed (use heap_temp[OF ok] heap_patched[OF ok] heap_fresh[OF ok] in auto)

lemma remove1_last:
  assumes "p \<in> set ps" "distinct ps"
  shows "remove1 p ps = [] \<longleftrightarrow> set ps = {p}"
proof -
  have "remove1 p ps = [] \<longleftrightarrow> set ps - {p} = {}"
    unfolding set_remove1_eq[OF assms(2), symmetric] by simp
  then show ?thesis using assms(1) by auto
qed

text \<open>Taking the patch away on a condition leaves a world with that patch or without it.\<close>

lemma disable_if_image:
  assumes p: "patch_ok orig w" and K: "w_locs w l = Some K" and v: "v \<longleftrightarrow> l_patched K \<and> \<not> c"
  shows "\<exists>sd m. (if c then loc_disable l w else Inr w) = Inr (repatch l v sd m w) \<and> patch_ok orig (repatch l v sd m w)"
proof (cases c)
  case True
  then show ?thesis using v loc_switch_image[OF p K, of False] by (auto simp: loc_switch_def)
next
  case False
  then have "repatch l v (l_saved_data K) (t_mem (w_tracee w)) w = w" using v repatch_same[OF K] by simp
  then show ?thesis using False p by (metis)
qed

lemma bp_free_ok:
  assumes ok: "world_ok orig w" and b: "w_bps w p = Some b"
  shows "\<exists>w'. bp_free p w = Inr w' \<and> world_ok orig w' \<and> same_places w w' \<and>
    w_bps w' = (w_bps w)(p := None) \<and>
    (\<forall>k. patch_on w' k \<longleftrightarrow> patch_on w k \<and> \<not> (b_location b = Some k \<and> bps_at w k = {p}))"
proof (cases "b_location b")
  case None
  let ?w = "w\<lparr>w_bps := (w_bps w)(p := None)\<rparr>"
  have "patch_ok orig ?w" using ok patch_ok_cong[of ?w w orig] by (simp add: world_ok_def)
  moreover have "heap_ok ?w" by (rule heap_ok_free_bp[OF _ b None]) (use ok in \<open>simp add: world_ok_def\<close>)
  moreover have "bp_free p w = Inr ?w" using b None by (simp add: bp_free_def)
  ultimately show ?thesis using None
    by (intro exI[of _ ?w]) (simp add: world_ok_def same_places_def rest_same_def patch_on_def)
next
  case (Some l)
  have hok: "heap_ok w" using ok by (simp add: world_ok_def)
  obtain L ps where L: "w_locs w l = Some L" "l_bp_list L = Some ps" "p \<in> set ps" "distinct ps"
    using heap_location[OF hok b Some] by metis
  have set_ps: "set ps = bps_at w l" using list_bps_at[OF hok L(1,2)] .
  define K where "K = L\<lparr>l_bp_list := Some (remove1 p ps)\<rparr>"
  define w1 where "w1 = set_loc l K w"
  have K1: "w_locs w1 l = Some K" by (simp add: w1_def)
  have p1: "patch_ok orig w1"
    unfolding w1_def K_def by (rule patch_ok_list_upd) (use ok L in \<open>auto simp: world_ok_def\<close>)
  have last: "remove1 p ps = [] \<longleftrightarrow> bps_at w l = {p}"
    using remove1_last[OF L(3,4)] set_ps by simp
  have run: "bp_free p w = res_bind (if remove1 p ps = [] then loc_disable l w1 else Inr w1)
      (\<lambda>w2. Inr (w2\<lparr>w_bps := (w_bps w2)(p := None)\<rparr>))"
    using b Some L by (simp add: bp_free_def Let_def loc_list_def K_def w1_def cong: if_cong)
  define v where "v = (patch_on w l \<and> bps_at w l \<noteq> {p})"
  have "v \<longleftrightarrow> l_patched K \<and> remove1 p ps \<noteq> []" using L by (simp add: v_def last patch_on_def K_def)
  then obtain sd m where sw:
    "(if remove1 p ps = [] then loc_disable l w1 else Inr w1) = Inr (repatch l v sd m w1)"
    "patch_ok orig (repatch l v sd m w1)"
    using disable_if_image[OF p1 K1, of v "remove1 p ps = []"] by blast
  let ?w2 = "repatch l v sd m w1"
  let ?w' = "?w2\<lparr>w_bps := (w_bps ?w2)(p := None)\<rparr>"
  let ?M = "K\<lparr>l_saved_data := sd, l_patched := v\<rparr>"
  have "heap_ok ?w' = heap_ok (w\<lparr>w_bps := (w_bps w)(p := None), w_locs := (w_locs w)(l \<mapsto> ?M)\<rparr>)"
    by (rule heap_ok_cong) (simp_all add: repatch_def w1_def set_loc_def fun_eq_iff)
  moreover have "heap_ok (w\<lparr>w_bps := (w_bps w)(p := None), w_locs := (w_locs w)(l \<mapsto> ?M)\<rparr>)"
  proof (rule heap_ok_detach_bp[OF hok b Some L(1,2)])
    assume "ps = [p]"
    then show "\<not> l_patched ?M" using set_ps by (simp add: v_def)
  qed (simp_all add: K_def)
  ultimately have "heap_ok ?w'" by simp
  moreover have "patch_ok orig ?w'" using sw(2) patch_ok_cong[of ?w' ?w2 orig] by simp
  moreover have "bp_free p w = Inr ?w'" using run sw(1) by simp
  moreover have "same_places w ?w'"
    using L(1) by (auto simp: same_places_def rest_same_def w1_def K_def loc_place_def)
  moreover have "patch_on ?w' k \<longleftrightarrow> patch_on w k \<and> \<not> (b_location b = Some k \<and> bps_at w k = {p})" for k
    using Some L(1) by (auto simp: patch_on_def w1_def v_def)
  ultimately show ?thesis
    by (intro exI[of _ ?w']) (simp add: world_ok_def w1_def)
qed

section \<open>Freeing a location\<close>

definition clear_of :: "nat \<Rightarrow> breakpoint \<Rightarrow> breakpoint" where
  "clear_of l b = (if b_location b = Some l then b\<lparr>b_location := None\<rparr> else b)"

lemma clear_of_simps [simp]:
  "b_id (clear_of l b) = b_id b" "b_data (clear_of l b) = b_data b"
  "b_enable (clear_of l b) = b_enable b" "b_instr_addr (clear_of l b) = b_instr_addr b"
  "b_location (clear_of l b) = (if b_location b = Some l then None else b_location b)"
  by (simp_all add: clear_of_def)

text \<open>What freeing a location leaves, up to the memory of the tracee.\<close>

definition without_loc :: "nat \<Rightarrow> (u64 \<Rightarrow> u8 option) \<Rightarrow> 'a bp_world_scheme \<Rightarrow> 'a bp_world_scheme" where
  "without_loc l m w = w\<lparr>w_tracee := (w_tracee w)\<lparr>t_mem := m\<rparr>,
     w_bps := (\<lambda>p. map_option (clear_of l) (w_bps w p)), w_locs := (w_locs w)(l := None)\<rparr>"

lemma without_loc_frame [simp]:
  "w_bps (without_loc l m w) p = map_option (clear_of l) (w_bps w p)"
  "w_locs (without_loc l m w) = (w_locs w)(l := None)"
  "w_next (without_loc l m w) = w_next w"
  "w_id_counter (without_loc l m w) = w_id_counter w"
  "bp_world.more (without_loc l m w) = bp_world.more w"
  "t_pid (w_tracee (without_loc l m w)) = t_pid (w_tracee w)"
  "t_run (w_tracee (without_loc l m w)) = t_run (w_tracee w)"
  "t_regs (w_tracee (without_loc l m w)) = t_regs (w_tracee w)"
  "t_mem (w_tracee (without_loc l m w)) = m"
  by (simp_all add: without_loc_def)

lemma rest_same_without_loc [simp]: "rest_same w (without_loc l m w)"
  by (simp add: rest_same_def)

lemma heap_ok_without_loc:
  assumes ok: "heap_ok w"
  shows "heap_ok (without_loc l m w)"
proof (rule heap_okI)
  fix k L assume L: "w_locs (without_loc l m w) k = Some L" "\<not> l_is_temp L"
  then have k: "k \<noteq> l" "w_locs w k = Some L" by (auto split: if_splits)
  obtain ps where ps: "l_bp_list L = Some ps" "distinct ps"
    "\<And>p. p \<in> set ps \<Longrightarrow> \<exists>b. w_bps w p = Some b \<and> b_location b = Some k"
    using heap_list[OF ok k(2) L(2)] by metis
  have "\<exists>b. w_bps (without_loc l m w) p = Some b \<and> b_location b = Some k" if "p \<in> set ps" for p
    using ps(3)[OF that] k(1) by auto
  with ps show "\<exists>ps. l_bp_list L = Some ps \<and> distinct ps \<and>
      (\<forall>p \<in> set ps. \<exists>b. w_bps (without_loc l m w) p = Some b \<and> b_location b = Some k)" by blast
next
  fix p c k assume c: "w_bps (without_loc l m w) p = Some c" "b_location c = Some k"
  then obtain b where "w_bps w p = Some b" "b_location b = Some k" "k \<noteq> l"
    by (auto split: if_splits)
  then show "\<exists>L ps. w_locs (without_loc l m w) k = Some L \<and> l_bp_list L = Some ps \<and> p \<in> set ps"
    using heap_location[OF ok] by (metis fun_upd_other without_loc_frame(2))
qed (use heap_temp[OF ok] heap_patched[OF ok] heap_fresh[OF ok] in \<open>auto split: if_splits\<close>)

lemma res_fold_clear_location:
  "\<forall>p \<in> set ps. w_bps w p \<noteq> None \<Longrightarrow>
    res_fold clear_location ps w = Inr (w\<lparr>w_bps := \<lambda>p. if p \<in> set ps
      then map_option (\<lambda>b. b\<lparr>b_location := None\<rparr>) (w_bps w p) else w_bps w p\<rparr>)"
proof (induction ps arbitrary: w)
  case (Cons p ps)
  then obtain b where b: "w_bps w p = Some b" by auto
  let ?w1 = "set_bp p (b\<lparr>b_location := None\<rparr>) w"
  have "res_fold clear_location (p # ps) w = res_fold clear_location ps ?w1"
    using b by (simp add: clear_location_def)
  also have "\<dots> = Inr (?w1\<lparr>w_bps := \<lambda>q. if q \<in> set ps
      then map_option (\<lambda>b. b\<lparr>b_location := None\<rparr>) (w_bps ?w1 q) else w_bps ?w1 q\<rparr>)"
    by (rule Cons.IH) (use Cons.prems in auto)
  also have "\<dots> = Inr (w\<lparr>w_bps := \<lambda>q. if q \<in> set (p # ps)
      then map_option (\<lambda>b. b\<lparr>b_location := None\<rparr>) (w_bps w q) else w_bps w q\<rparr>)"
    using b by (auto simp: set_bp_def fun_eq_iff)
  finally show ?case .
qed simp

text \<open>The loop of \<open>loc_free\<close> over the list, in a consistent heap.\<close>

lemma loc_free_run:
  assumes ok: "heap_ok w" and L: "w_locs w l = Some L"
  shows "loc_free l w = res_bind (loc_disable l (w\<lparr>w_bps := \<lambda>p. map_option (clear_of l) (w_bps w p)\<rparr>))
    (\<lambda>w2. Inr (w2\<lparr>w_locs := (w_locs w2)(l := None)\<rparr>))"
proof (cases "l_is_temp L")
  case True
  have "b_location b \<noteq> Some l" if "w_bps w p = Some b" for p b
    using heap_location[OF ok that, of l] L True by (metis option.inject)
  then have "map_option (clear_of l) (w_bps w p) = w_bps w p" for p
    by (cases "w_bps w p") (auto simp: clear_of_def)
  then show ?thesis using L True by (simp add: loc_free_def)
next
  case False
  obtain ps where ps: "l_bp_list L = Some ps" using heap_list[OF ok L False] by metis
  have at: "set ps = bps_at w l" by (rule list_bps_at[OF ok L ps])
  have "res_fold clear_location ps w = Inr (w\<lparr>w_bps := \<lambda>p. map_option (clear_of l) (w_bps w p)\<rparr>)"
  proof -
    have "(if p \<in> set ps then map_option (\<lambda>b. b\<lparr>b_location := None\<rparr>) (w_bps w p) else w_bps w p)
        = map_option (clear_of l) (w_bps w p)" for p
      by (cases "w_bps w p") (auto simp: at bps_at_def clear_of_def)
    moreover have "\<forall>p \<in> set ps. w_bps w p \<noteq> None" by (auto simp: at bps_at_def)
    ultimately show ?thesis by (simp add: res_fold_clear_location)
  qed
  then show ?thesis using L False ps by (simp add: loc_free_def loc_list_def)
qed

lemma loc_free_heap:
  assumes ok: "heap_ok w" and L: "w_locs w l = Some L"
  shows "\<exists>m. loc_free l w = Inr (without_loc l m w)"
proof -
  define w1 where "w1 = w\<lparr>w_bps := \<lambda>p. map_option (clear_of l) (w_bps w p)\<rparr>"
  have "w_locs w1 l = Some L" using L by (simp add: w1_def)
  then obtain sd m where "loc_disable l w1 = Inr (repatch l False sd m w1)"
    using loc_disable_repatch by blast
  then have "loc_free l w = Inr ((repatch l False sd m w1)\<lparr>w_locs := (w_locs w1)(l := None)\<rparr>)"
    using loc_free_run[OF assms] by (simp add: repatch_def flip: w1_def)
  then show ?thesis by (intro exI[of _ m]) (simp add: repatch_def without_loc_def w1_def)
qed

lemma patch_ok_drop:
  assumes "patch_ok orig w" "w_locs w l = Some L" "\<not> l_patched L"
    "w_tracee w' = w_tracee w" "w_locs w' = (w_locs w)(l := None)"
  shows "patch_ok orig w'"
proof -
  have "armed w' a = armed w a" for a
    unfolding armed_def assms(5) using assms(2,3)
    by (metis fun_upd_apply option.distinct(1) option.inject)
  then show ?thesis
    using assms unfolding patch_ok_def sites_ok_def shows_image_def by (auto split: if_splits)
qed

lemma loc_free_ok:
  assumes ok: "world_ok orig w" and L: "w_locs w l = Some L"
  shows "\<exists>m. loc_free l w = Inr (without_loc l m w) \<and> world_ok orig (without_loc l m w)"
proof -
  define w1 where "w1 = w\<lparr>w_bps := \<lambda>p. map_option (clear_of l) (w_bps w p)\<rparr>"
  have p1: "patch_ok orig w1" using ok patch_ok_cong[of w1 w orig] by (simp add: world_ok_def w1_def)
  have L1: "w_locs w1 l = Some L" using L by (simp add: w1_def)
  obtain sd m where sw: "loc_disable l w1 = Inr (repatch l False sd m w1)"
    "patch_ok orig (repatch l False sd m w1)"
    using loc_switch_image[OF p1 L1, of False] by (auto simp: loc_switch_def)
  have hok: "heap_ok w" using ok by (simp add: world_ok_def)
  have "loc_free l w = Inr ((repatch l False sd m w1)\<lparr>w_locs := (w_locs w1)(l := None)\<rparr>)"
    using loc_free_run[OF hok L] sw by (simp add: repatch_def flip: w1_def)
  also have "(repatch l False sd m w1)\<lparr>w_locs := (w_locs w1)(l := None)\<rparr> = without_loc l m w"
    by (simp add: repatch_def without_loc_def w1_def)
  finally have run: "loc_free l w = Inr (without_loc l m w)" .
  have "patch_ok orig (without_loc l m w)"
    by (rule patch_ok_drop[OF sw(2), of l "L\<lparr>l_saved_data := sd, l_patched := False\<rparr>"])
      (use L in \<open>simp_all add: repatch_def without_loc_def w1_def\<close>)
  with run show ?thesis
    using heap_ok_without_loc[OF hok] by (intro exI[of _ m]) (simp add: world_ok_def)
qed

section \<open>Temporary locations\<close>

lemma loc_init_temp_ok:
  assumes ok: "world_ok orig w" and pid: "pid = t_pid (w_tracee w)" "pid \<noteq> 0"
    and a: "a \<noteq> 0" "mapped8 (t_mem (w_tracee w)) a"
    and new: "\<forall>k K. w_locs w k = Some K \<longrightarrow> l_running_addr K \<noteq> a"
  shows "\<exists>w'. loc_init pid a None True w = Inr (w_next w, w') \<and> world_ok orig w' \<and> rest_same w w' \<and>
    w_next w' = Suc (w_next w) \<and> w_bps w' = w_bps w \<and>
    (\<forall>k. map_option loc_place (w_locs w' k) =
      (if k = w_next w then Some (pid, True, a) else map_option loc_place (w_locs w k))) \<and>
    (\<forall>k. patch_on w' k \<longleftrightarrow> k = w_next w \<or> patch_on w k)"
proof -
  let ?l = "w_next w"
  define K where "K = \<lparr>l_pid = pid, l_patched = False, l_is_temp = True, l_saved_data = 0,
      l_running_addr = a, l_bp_list = None\<rparr>"
  define w1 where "w1 = set_loc ?l K (w\<lparr>w_next := Suc ?l\<rparr>)"
  have hok: "heap_ok w" using ok by (simp add: world_ok_def)
  have free: "w_locs w ?l = None" using heap_fresh[OF hok, of ?l] by simp
  have "heap_ok w1"
  proof (rule heap_okI)
    fix k L assume "w_locs w1 k = Some L" and nt: "\<not> l_is_temp L"
    then have "w_locs w k = Some L" by (auto simp: w1_def K_def split: if_splits)
    then show "\<exists>ps. l_bp_list L = Some ps \<and> distinct ps \<and>
        (\<forall>p \<in> set ps. \<exists>b. w_bps w1 p = Some b \<and> b_location b = Some k)"
      using heap_list[OF hok _ nt] by (metis bp_world.select_convs(3) set_loc_frame(2) bp_world.surjective bp_world.update_convs(5) w1_def)
  next
    fix p b k assume b: "w_bps w1 p = Some b" "b_location b = Some k"
    then have "w_bps w p = Some b" by (simp add: w1_def)
    then obtain M qs where "w_locs w k = Some M" "l_bp_list M = Some qs" "p \<in> set qs"
      using heap_location[OF hok _ b(2)] by metis
    then show "\<exists>L ps. w_locs w1 k = Some L \<and> l_bp_list L = Some ps \<and> p \<in> set ps"
      using free by (auto simp: w1_def)
  qed (use heap_temp[OF hok] heap_patched[OF hok] heap_fresh[OF hok] in
        \<open>auto simp: w1_def K_def split: if_splits\<close>)
  moreover have "patch_ok orig w1"
    by (rule patch_ok_new_loc[of orig w ?l K])
      (use ok free pid a new in \<open>auto simp: w1_def K_def world_ok_def\<close>)
  ultimately have ok1: "world_ok orig w1" by (simp add: world_ok_def)
  have K1: "w_locs w1 ?l = Some K" by (simp add: w1_def)
  obtain sd m where sw: "loc_enable ?l w1 = Inr (repatch ?l True sd m w1)"
    "patch_ok orig (repatch ?l True sd m w1)"
    using loc_switch_image[of orig w1 ?l K True] ok1 K1 by (auto simp: world_ok_def loc_switch_def)
  let ?w' = "repatch ?l True sd m w1"
  have "loc_init pid a None True w = res_bind (loc_enable ?l w1) (\<lambda>w'. Inr (?l, w'))"
    using pid a by (simp add: loc_init_def Let_def w1_def K_def)
  then have "loc_init pid a None True w = Inr (?l, ?w')" by (simp add: sw)
  moreover have "world_ok orig ?w'"
    by (rule world_ok_repatch[OF ok1 sw(2)]) (simp add: K1 K_def)
  moreover have "patch_on w1 k = patch_on w k" if "k \<noteq> ?l" for k
    using that by (simp add: w1_def patch_on_def)
  ultimately show ?thesis
    by (intro exI[of _ ?w']) (auto simp: w1_def K_def rest_same_def loc_place_def)
qed

end
