(* ===== verification/Breakpoint_Props.thy ===== *)
theory Breakpoint_Props
  imports Breakpoint_Inv
begin

text \<open>
  The properties of the breakpoint component, on one small debugged process that the
  witnesses share: a stopped process with two breakpoints at one location, the first of
  them enabled.
\<close>

section \<open>A process with two breakpoints\<close>

definition demo_mem :: "u64 \<Rightarrow> u8 option" where
  "demo_mem = (\<lambda>_. Some 0x90)"

definition demo_tracee :: tracee where
  "demo_tracee = \<lparr>t_pid = 7, t_run = Stopped 5 128, t_mem = demo_mem,
     t_regs = replicate 27 0, t_inner = 0\<rparr>"

definition demo_bp :: "u64 \<Rightarrow> string \<Rightarrow> bool \<Rightarrow> breakpoint" where
  "demo_bp i s e = \<lparr>b_id = i, b_data = BP_SYMBOL s, b_enable = e, b_instr_addr = 0x1000,
     b_location = Some 3\<rparr>"

definition demo_loc :: bp_location where
  "demo_loc = \<lparr>l_pid = 7, l_patched = False, l_is_temp = False, l_saved_data = 0,
     l_running_addr = 0x1000, l_bp_list = Some [1, 2]\<rparr>"

definition demo_world :: bp_world where
  "demo_world = \<lparr>w_tracee = demo_tracee, w_id_counter = 2,
     w_bps = [1 \<mapsto> demo_bp 0 ''foo'' True, 2 \<mapsto> demo_bp 1 ''main'' False],
     w_locs = [3 \<mapsto> demo_loc], w_next = 4\<rparr>"

lemma demo_sel [simp]:
  "w_tracee demo_world = demo_tracee" "w_next demo_world = 4"
  "w_bps demo_world = [1 \<mapsto> demo_bp 0 ''foo'' True, 2 \<mapsto> demo_bp 1 ''main'' False]"
  "w_locs demo_world = [3 \<mapsto> demo_loc]"
  by (simp_all add: demo_world_def)

lemma demo_loc_sel [simp]:
  "l_pid demo_loc = 7" "\<not> l_patched demo_loc" "\<not> l_is_temp demo_loc"
  "l_running_addr demo_loc = 0x1000" "l_bp_list demo_loc = Some [1, 2]"
  by (simp_all add: demo_loc_def)

lemma demo_bp_sel [simp]:
  "b_location (demo_bp i s e) = Some 3" "b_enable (demo_bp i s e) = e"
  "b_id (demo_bp i s e) = i" "b_data (demo_bp i s e) = BP_SYMBOL s"
  by (simp_all add: demo_bp_def)

lemma demo_ok: "world_ok demo_mem demo_world"
  unfolding world_ok_def
proof
  show "heap_ok demo_world"
    by (rule heap_okI) (auto split: if_splits)
  have "\<not> armed demo_world a" for a by (auto simp: armed_def split: if_splits)
  then show "patch_ok demo_mem demo_world"
    by (auto simp: patch_ok_def sites_ok_def shows_image_def demo_tracee_def is_stopped_def
        mapped8_def demo_mem_def split: if_splits)
qed

lemma demo_bps_at [simp]: "bps_at demo_world 3 = {1, 2}"
  by (auto simp: bps_at_def split: if_splits)

lemma demo_on [simp]: "\<not> patch_on demo_world l"
  by (auto simp: patch_on_def split: if_splits)

section \<open>Properties\<close>

text \<open>
  C21: any sequence of \<open>loc_enable\<close> and \<open>loc_disable\<close> on existing locations succeeds and the
  memory of the program depends only on the last switch of each location: it shows
  \<open>0xcc\<close> exactly at the addresses switched on last, and the program's own bytes
  everywhere else, however often and in whatever order locations are switched.
\<close>

theorem patching_is_exact:
  assumes "patch_ok orig w" "\<forall>t \<in> set ts. w_locs w (fst t) \<noteq> None"
  shows "\<exists>w'. res_fold (\<lambda>t. if snd t then loc_enable (fst t) else loc_disable (fst t)) ts w = Inr w' \<and>
    (\<forall>a. t_mem (w_tracee w') a =
      (if \<exists>l L. w_locs w l = Some L \<and> l_running_addr L = a \<and> apply_switches (patch_on w) ts l
       then Some 0xCC else orig a))"
proof -
  let ?f = "\<lambda>t. loc_switch (snd t) (fst t)"
  have f: "(\<lambda>t. if snd t then loc_enable (fst t) else loc_disable (fst t)) = ?f"
    by (simp add: loc_switch_def fun_eq_iff)
  have "\<forall>t \<in> set ts. patch_valid w (fst t)" using assms(2) by (simp add: patch_valid_def)
  then obtain w' where w': "res_fold ?f ts w = Inr w'" "patch_ok orig w'"
      "patch_on w' = apply_switches (patch_on w) ts"
    using patcher.switch_run[OF assms(1)] by blast
  have "same_sites w w'"
  proof (rule res_fold_keeps[OF _ _ w'(1)])
    fix t s s' assume "same_sites w s" "?f t s = Inr s'"
    moreover from this(2) obtain L where "w_locs s (fst t) = Some L"
      by (auto simp: loc_switch_def loc_enable_def loc_disable_def split: if_splits)
    moreover from this obtain sd m where "?f t s = Inr (repatch (fst t) (snd t) sd m s)"
      using loc_enable_repatch[of s "fst t" L] loc_disable_repatch[of s "fst t" L]
      by (cases "snd t") (auto simp: loc_switch_def)
    ultimately show "same_sites w s'" using same_sites_trans same_sites_repatch by (metis Inr_inject)
  qed simp
  then have addr: "map_option l_running_addr (w_locs w' l) = map_option l_running_addr (w_locs w l)" for l
  proof -
    assume s: "same_sites w w'"
    have "map_option (fst \<circ> snd \<circ> snd) (map_option loc_core (w_locs w' l))
        = map_option (fst \<circ> snd \<circ> snd) (map_option loc_core (w_locs w l))"
      using s by (simp add: same_sites_def)
    moreover have "(fst \<circ> snd \<circ> snd) \<circ> loc_core = l_running_addr"
      by (simp add: fun_eq_iff loc_core_def)
    ultimately show ?thesis by (simp add: option.map_comp)
  qed
  have "armed w' a \<longleftrightarrow> (\<exists>l L. w_locs w l = Some L \<and> l_running_addr L = a
      \<and> apply_switches (patch_on w) ts l)" for a
  proof -
    have "(\<exists>L. w_locs w' l = Some L \<and> l_running_addr L = a) \<longleftrightarrow>
        (\<exists>L. w_locs w l = Some L \<and> l_running_addr L = a)" for l
      using addr[of l] by (cases "w_locs w' l"; cases "w_locs w l") auto
    moreover have "armed w' a \<longleftrightarrow> (\<exists>l. (\<exists>L. w_locs w' l = Some L \<and> l_running_addr L = a)
        \<and> apply_switches (patch_on w) ts l)"
      by (auto simp: armed_iff_on w'(3))
    ultimately show ?thesis by auto
  qed
  moreover have "t_mem (w_tracee w') a = (if armed w' a then Some 0xCC else orig a)" for a
    using w'(2) by (simp add: patch_ok_def shows_image_def)
  ultimately show ?thesis using w'(1) unfolding f by (intro exI[of _ w']) simp
qed

theorem patching_is_exact_witness:
  "\<exists>w'. res_fold (\<lambda>t. if snd t then loc_enable (fst t) else loc_disable (fst t))
      [(3, True), (3, True), (3, False), (3, True)] demo_world = Inr w' \<and>
    t_mem (w_tracee w') 0x1000 = Some 0xCC \<and> t_mem (w_tracee w') 0x1001 = Some 0x90"
proof -
  have "patch_ok demo_mem demo_world" using demo_ok by (simp add: world_ok_def)
  have site: "(\<exists>l L. w_locs demo_world l = Some L \<and> l_running_addr L = a \<and>
      apply_switches (patch_on demo_world) [(3, True), (3, True), (3, False), (3, True)] l) \<longleftrightarrow>
      a = 0x1000" for a
    by (auto split: if_splits)
  from patching_is_exact[OF \<open>patch_ok demo_mem demo_world\<close>,
      of "[(3, True), (3, True), (3, False), (3, True)]", unfolded site]
  obtain w' where "res_fold (\<lambda>t. if snd t then loc_enable (fst t) else loc_disable (fst t))
      [(3, True), (3, True), (3, False), (3, True)] demo_world = Inr w'"
    "\<forall>a. t_mem (w_tracee w') a = (if a = 0x1000 then Some 0xCC else demo_mem a)"
    by fastforce
  then show ?thesis by (intro exI[of _ w']) (simp add: demo_mem_def)
qed

text \<open>
  enabling a breakpoint sets its flag, keeps the heap consistent and the program image
  exact, touches no other breakpoint, and patches its location precisely when every other
  breakpoint that shares the location is enabled too (a patched location stays patched).
\<close>

theorem bp_enable_patches_when_all_enabled:
  assumes "world_ok orig w" "w_bps w p = Some b"
  shows "\<exists>w'. bp_enable p w = Inr w' \<and> world_ok orig w' \<and>
    w_bps w' = (w_bps w)(p \<mapsto> b\<lparr>b_enable := True\<rparr>) \<and>
    (\<forall>l. patch_on w' l \<longleftrightarrow> patch_on w l \<or>
       b_location b = Some l \<and> (\<forall>q \<in> bps_at w l. q = p \<or> enabled w q))"
  using bp_enable_ok[OF assms] by blast

theorem bp_enable_patches_when_all_enabled_witness:
  "\<exists>w1 w2. bp_enable 1 demo_world = Inr w1 \<and> \<not> patch_on w1 3 \<and>
     bp_enable 2 demo_world = Inr w2 \<and> patch_on w2 3"
  using bp_enable_patches_when_all_enabled[OF demo_ok, of 1]
    bp_enable_patches_when_all_enabled[OF demo_ok, of 2]
  by (fastforce simp: enabled_def)

text \<open>
  C22: disabling a breakpoint clears its flag, keeps the heap consistent and the program
  image exact, and removes the patch of its location precisely when no other breakpoint
  that shares the location is still enabled.
\<close>

theorem bp_disable_unpatches_when_none_enabled:
  assumes "world_ok orig w" "w_bps w p = Some b"
  shows "\<exists>w'. bp_disable p w = Inr w' \<and> world_ok orig w' \<and>
    w_bps w' = (w_bps w)(p \<mapsto> b\<lparr>b_enable := False\<rparr>) \<and>
    (\<forall>l. patch_on w' l \<longleftrightarrow> patch_on w l \<and>
       \<not> (b_location b = Some l \<and> (\<forall>q \<in> bps_at w l. q = p \<or> \<not> enabled w q)))"
  using bp_disable_ok[OF assms] by blast

theorem bp_disable_unpatches_when_none_enabled_witness:
  "\<exists>w'. bp_disable 1 demo_world = Inr w' \<and> world_ok demo_mem w' \<and> \<not> patch_on w' 3 \<and>
     w_bps w' 1 = Some (demo_bp 0 ''foo'' False)"
  using bp_disable_unpatches_when_none_enabled[OF demo_ok, of 1]
  by (fastforce simp: demo_bp_def)

text \<open>
  freeing a breakpoint takes it out of the list of its location and releases it; the
  patch of the location disappears exactly when it was the last breakpoint there, no
  other breakpoint or patch is touched, and the program image stays exact.
\<close>

theorem bp_free_unpatches_last:
  assumes "world_ok orig w" "w_bps w p = Some b"
  shows "\<exists>w'. bp_free p w = Inr w' \<and> world_ok orig w' \<and> w_bps w' = (w_bps w)(p := None) \<and>
    (\<forall>k. patch_on w' k \<longleftrightarrow> patch_on w k \<and> \<not> (b_location b = Some k \<and> bps_at w k = {p}))"
  using bp_free_ok[OF assms] by blast

theorem bp_free_unpatches_last_witness:
  "\<exists>w'. bp_free 1 demo_world = Inr w' \<and> world_ok demo_mem w' \<and>
     w_bps w' = [2 \<mapsto> demo_bp 1 ''main'' False] \<and> \<not> patch_on w' 3"
  using bp_free_unpatches_last[OF demo_ok, of 1] by (fastforce simp: fun_eq_iff)

text \<open>
  a breakpoint without a location that joins an existing one decides alone whether the
  location is patched: after \<open>loc_append_breakpoint_to_list\<close> the location is patched
  exactly when the new breakpoint is enabled, whatever the older ones want.
\<close>

theorem last_appended_breakpoint_decides:
  assumes "world_ok orig w" "w_bps w p = Some b" "b_location b = None"
    and "w_locs w l = Some L" "\<not> l_is_temp L"
  shows "\<exists>w'. loc_append_breakpoint_to_list l p w = Inr w' \<and> world_ok orig w' \<and>
    bps_at w' l = insert p (bps_at w l) \<and>
    (\<forall>k. patch_on w' k \<longleftrightarrow> (if k = l then b_enable b else patch_on w k))"
proof -
  obtain w' where w': "loc_append_breakpoint_to_list l p w = Inr w'" "world_ok orig w'"
    "w_bps w' = (w_bps w)(p \<mapsto> b\<lparr>b_location := Some l\<rparr>)"
    "\<forall>k. patch_on w' k \<longleftrightarrow> (if k = l then b_enable b else patch_on w k)"
    using loc_append_ok[OF assms] by blast
  moreover have "bps_at w' l = insert p (bps_at w l)"
    using assms(2,3) by (auto simp: bps_at_def w'(3))
  ultimately show ?thesis by blast
qed

definition demo_loose :: bp_world where
  "demo_loose = demo_world\<lparr>w_bps := (w_bps demo_world)(5 \<mapsto> (demo_bp 4 ''bar'' False)\<lparr>b_location := None\<rparr>),
     w_next := 6\<rparr>"

lemma demo_loose_ok: "world_ok demo_mem demo_loose"
  unfolding world_ok_def
proof
  show "heap_ok demo_loose"
    by (rule heap_okI) (auto simp: demo_loose_def split: if_splits)
  show "patch_ok demo_mem demo_loose"
    using demo_ok patch_ok_cong[of demo_loose demo_world] by (simp add: world_ok_def demo_loose_def)
qed

theorem last_appended_breakpoint_decides_witness:
  "\<exists>w'. loc_append_breakpoint_to_list 3 5 demo_loose = Inr w' \<and> \<not> patch_on w' 3 \<and>
     5 \<in> bps_at w' 3"
  using last_appended_breakpoint_decides[OF demo_loose_ok, of 5 "(demo_bp 4 ''bar'' False)\<lparr>b_location := None\<rparr>" 3 demo_loc]
  by (fastforce simp: demo_loose_def)

text \<open>
  freeing a location restores the byte it hid, detaches every breakpoint that pointed to
  it and releases it; the image of the program stays exact, so no other patch is lost.
\<close>

theorem loc_free_restores_byte:
  assumes "world_ok orig w" "w_locs w l = Some L"
  shows "\<exists>w'. loc_free l w = Inr w' \<and> world_ok orig w' \<and> w_locs w' = (w_locs w)(l := None) \<and>
    t_mem (w_tracee w') (l_running_addr L) = orig (l_running_addr L) \<and> bps_at w' l = {} \<and>
    (\<forall>p. w_bps w' p = None \<longleftrightarrow> w_bps w p = None)"
proof -
  obtain m where m: "loc_free l w = Inr (without_loc l m w)" "world_ok orig (without_loc l m w)"
    using loc_free_ok[OF assms] by blast
  have "\<not> armed (without_loc l m w) (l_running_addr L)"
    using assms by (auto simp: armed_def world_ok_def patch_ok_def sites_ok_def split: if_splits)
  then have "m (l_running_addr L) = orig (l_running_addr L)"
    using m(2) by (simp add: world_ok_def patch_ok_def shows_image_def)
  moreover have "bps_at (without_loc l m w) l = {}" by (auto simp: bps_at_def split: if_splits)
  ultimately show ?thesis using m by (intro exI[of _ "without_loc l m w"]) simp
qed

theorem loc_free_restores_byte_witness:
  "\<exists>w'. loc_free 3 demo_world = Inr w' \<and> world_ok demo_mem w' \<and> w_locs w' = (\<lambda>_. None) \<and>
     t_mem (w_tracee w') 0x1000 = Some 0x90"
  using loc_free_restores_byte[OF demo_ok, of 3 demo_loc]
  by (fastforce simp: demo_mem_def fun_eq_iff)

text \<open>
  a stop at a patched location can always be reported: \<open>print_bp_hit_message_at_loc\<close>
  prints nothing at a temporary location, and otherwise names a breakpoint that is really
  set there; the aborts of the function are not reachable.
\<close>

theorem hit_message_total:
  assumes "world_ok orig w" "w_locs w l = Some L" "l_patched L"
  shows "\<exists>m. print_bp_hit_message_at_loc (Some l) w = Inr m \<and> (m = None \<longleftrightarrow> l_is_temp L) \<and>
    (m \<noteq> None \<longrightarrow> (\<exists>p \<in> bps_at w l. \<exists>b. w_bps w p = Some b \<and> hit_id (the m) = b_id b \<and>
       hit_addr (the m) = b_instr_addr b))"
proof (cases "l_is_temp L")
  case True
  then show ?thesis using assms by (simp add: print_bp_hit_message_at_loc_def)
next
  case False
  have ok: "heap_ok w" using assms by (simp add: world_ok_def)
  obtain ps where ps: "l_bp_list L = Some ps" using heap_list[OF ok assms(2) False] by metis
  have at: "set ps = bps_at w l" by (rule list_bps_at[OF ok assms(2) ps])
  have all: "deref_all (w_bps w) qs = Inr (map (the \<circ> w_bps w) qs)" if "set qs \<subseteq> bps_at w l" for qs
    using that by (induction qs) (auto simp: bps_at_def)
  obtain p qs where pq: "ps = p # qs"
    using heap_patched[OF ok assms(2,3)] ps by (cases ps) auto
  then have "p \<in> bps_at w l" using at by auto
  moreover from this obtain b where "w_bps w p = Some b" by (auto simp: bps_at_def)
  ultimately show ?thesis
    using assms False ps at all[of ps] pq
    by (auto simp: print_bp_hit_message_at_loc_def loc_list_def)
qed

theorem hit_message_total_witness:
  "\<exists>w m. loc_enable 3 demo_world = Inr w \<and> print_bp_hit_message_at_loc (Some 3) w = Inr (Some m) \<and>
     hit_id m \<in> {0, 1}"
proof -
  have p: "patch_ok demo_mem demo_world" and h: "heap_ok demo_world"
    using demo_ok by (simp_all add: world_ok_def)
  obtain sd m where en: "loc_enable 3 demo_world = Inr (repatch 3 True sd m demo_world)"
    "patch_ok demo_mem (repatch 3 True sd m demo_world)"
    using loc_switch_image[OF p, of 3 demo_loc True] by (auto simp: loc_switch_def)
  let ?w = "repatch 3 True sd m demo_world"
  have ok: "world_ok demo_mem ?w"
    by (rule world_ok_repatch[OF demo_ok en(2)]) auto
  have "bps_at ?w 3 = {1, 2}" using demo_bps_at by (simp add: bps_at_def)
  with hit_message_total[OF ok, of 3 "demo_loc\<lparr>l_saved_data := sd, l_patched := True\<rparr>"] en(1)
  show ?thesis by auto
qed

text \<open>
  looking up a breakpoint by function name compares only as many characters as the
  name stored in the breakpoint has: the result is the first breakpoint in the list whose
  name is a prefix of the name asked for, not one of exactly that name.
\<close>

theorem find_breakpoint_takes_prefix:
  assumes "\<forall>p \<in> set ps. w_bps w p \<noteq> None"
  shows "find_breakpoint_from_pending ps (Q_SYMBOL s) w =
    Inr (find (\<lambda>p. \<exists>sy. b_data (the (w_bps w p)) = BP_SYMBOL sy \<and> take (length sy) s = sy) ps)"
proof -
  have "find_in_pending (Q_SYMBOL s) ps w =
      Inr (find (\<lambda>p. \<exists>sy. b_data (the (w_bps w p)) = BP_SYMBOL sy \<and> take (length sy) s = sy) ps)"
    using assms
  proof (induction ps)
    case (Cons p ps)
    then obtain b where b: "w_bps w p = Some b" by auto
    have "bp_matches (Q_SYMBOL s) b \<longleftrightarrow> (\<exists>sy. b_data b = BP_SYMBOL sy \<and> take (length sy) s = sy)"
      by (auto simp: bp_matches_def strncmp_eq_def split: bp_data.splits)
    with Cons b show ?case
      by (cases "\<exists>sy. b_data b = BP_SYMBOL sy \<and> take (length sy) s = sy") auto
  qed simp
  then show ?thesis by (simp add: find_breakpoint_from_pending_def)
qed

theorem find_breakpoint_takes_prefix_witness:
  "find_breakpoint_from_pending [1, 2] (Q_SYMBOL ''foobar'') demo_world = Inr (Some 1)"
  using find_breakpoint_takes_prefix[of "[1, 2]" demo_world "''foobar''"] by simp

end
