(* ===== verification/Elf_Names.thy ===== *)
theory Elf_Names
  imports Vdbg_Prelude
begin

text \<open>
  The tables of \<open>src/util.c\<close> that turn codes of \<open>elf.h\<close> and \<open>siginfo.h\<close> into text. Each
  numeral is the value of the macro the source uses. An array indexed past its end is
  \<open>OutOfBounds\<close>; a missing initialiser of an array of strings is a null pointer, and all
  of these are given.
\<close>

section \<open>The tables\<close>

definition str_sigsegv_code :: "int \<Rightarrow> string" where
  "str_sigsegv_code si_code =
     (case map_of
        [(1, ''address not mapped to object''),
         (2, ''invalid permissions for mapped object''),
         (3, ''failed address bound checks''),
         (4, ''failed protection key checks''),
         (5, ''ADI not enabled for mapped object''),
         (6, ''Disrupting MCD error''),
         (7, ''Precise MCD exception''),
         (8, ''Asynchronous ARM MTE error''),
         (9, ''Synchronous ARM MTE exception''),
         (10, ''Control protection fault'')] si_code of
        Some reason \<Rightarrow> reason
      | None \<Rightarrow> ''Unknown Code for SIGSEGV'')"

text \<open>The tests of \<open>str_section_header_flag\<close>, in order: the bit and the letter.\<close>

definition section_flags :: "(nat \<times> char) list" where
  "section_flags =
     [(0, CHR ''W''), (1, CHR ''A''), (2, CHR ''X''), (4, CHR ''M''), (5, CHR ''S''),
      (6, CHR ''I''), (7, CHR ''L''), (8, CHR ''N''), (9, CHR ''G''), (10, CHR ''T''),
      (11, CHR ''C''), (30, CHR ''O''), (31, CHR ''E''), (21, CHR ''R'')]"

text \<open>The buffer has 20 bytes; the terminating NUL is the last store.\<close>

definition str_section_header_flag :: "u64 \<Rightarrow> string res" where
  "str_section_header_flag flag =
     (let s = map snd (filter (\<lambda>(i, c). flag AND push_bit i 1 \<noteq> 0) section_flags)
      in if length s < 20 then Inr s else Inl OutOfBounds)"

definition str_section_header_type :: "u32 \<Rightarrow> string" where
  "str_section_header_type type =
     (case map_of
        [(0, ''NULL''), (1, ''PROGBITS''), (2, ''SYMTAB''), (3, ''STRTAB''), (4, ''RELA''),
         (5, ''HASH''), (6, ''DYNAMIC''), (7, ''NOTE''), (8, ''NOBITS''), (9, ''REL''),
         (10, ''SHLIB''), (11, ''DYNSYM''), (14, ''INIT_ARRAY''), (15, ''FINI_ARRAY''),
         (16, ''PREINIT_ARRAY''), (17, ''GROUP''), (18, ''SYMTAB_SHNDX''), (19, ''RELR''),
         (20, ''NUM''), (0x6ffffff4, ''GNU_SFRAME''), (0x6ffffff5, ''GNU_ATTRIBUTES''),
         (0x6ffffff6, ''GNU_HASH''), (0x6ffffff7, ''GNU_LIBLIST''), (0x6ffffff8, ''CHECKSUM''),
         (0x6ffffffd, ''GNU_verdef''), (0x6ffffffe, ''GNU_verneed''),
         (0x6fffffff, ''GNU_versym'')] type of
        Some name \<Rightarrow> name
      | None \<Rightarrow> ''UNKNOWN TYPE'')"

definition array_at :: "'a list \<Rightarrow> nat \<Rightarrow> 'a res" where
  "array_at xs i = (if i < length xs then Inr (xs ! i) else Inl OutOfBounds)"

definition str_symbol_type :: "u8 \<Rightarrow> string res" where
  "str_symbol_type type =
     array_at [''NOTYPE'', ''OBJECT'', ''FUNC'', ''SECTION'', ''FILE'', ''COMMON'', ''TLS''] (unat type)"

definition str_symbol_bind :: "u8 \<Rightarrow> string res" where
  "str_symbol_bind bind = array_at [''LOCAL'', ''GLOBAL'', ''WEAK''] (unat bind)"

definition str_symbol_visibility :: "u8 \<Rightarrow> string res" where
  "str_symbol_visibility vis =
     array_at [''DEFAULT'', ''INTERNAL'', ''HIDDEN'', ''PROTECTED''] (unat vis)"

definition str_osabi_name :: "u8 \<Rightarrow> string" where
  "str_osabi_name osabi =
     (case map_of
        [(0, ''System V''), (1, ''HP-UX''), (2, ''NetBSD''), (3, ''GNU/Linux''),
         (6, ''Sun Solaris''), (7, ''IBM AIX''), (8, ''SGI Irix''), (9, ''FreeBSD.''),
         (10, ''Compaq TRU64 Unix''), (11, ''Novell Modesto''), (12, ''OpenBSD.''),
         (64, ''ARM EABI''), (97, ''ARM''), (255, ''Standalone (Embedded) Application'')] osabi of
        Some name \<Rightarrow> name
      | None \<Rightarrow> [])"

definition str_elf_filetype :: "u16 \<Rightarrow> string res" where
  "str_elf_filetype type =
     (if type < 5
      then array_at [''NONE (No file type)'', ''REL (Relocatable file)'',
             ''EXEC (Executable file)'', ''DYN (Shared object file)'', ''CORE (Core file)'']
             (unat type)
      else Inr ''Unknown type'')"

section \<open>Properties\<close>

text \<open>
  \<open>str_section_header_flag\<close> never writes past its buffer and loses nothing it knows: a
  letter is printed exactly when its flag is set, so two sections print the same flags
  only when they agree on all fourteen bits.
\<close>

theorem section_flags_faithful:
  "\<exists>s. str_section_header_flag flag = Inr s \<and> length s \<le> 14 \<and>
    (\<forall>i c. (i, c) \<in> set section_flags \<longrightarrow> (c \<in> set s \<longleftrightarrow> bit flag i))"
proof -
  let ?s = "map snd (filter (\<lambda>(i, c). flag AND push_bit i 1 \<noteq> 0) section_flags)"
  have len: "length ?s \<le> 14"
    using length_filter_le[of "\<lambda>(i, c). flag AND push_bit i 1 \<noteq> 0" section_flags]
    by (simp add: section_flags_def del: filter.simps)
  have inj: "i = j" if "(i, c) \<in> set section_flags" "(j, c) \<in> set section_flags" for i j c
    using that by (auto simp: section_flags_def)
  have test: "flag AND push_bit i 1 \<noteq> 0 \<longleftrightarrow> bit flag i" if "i < 64" for i
    using that
    unfolding bit_eq_iff[of _ 0] by (auto simp: bit_and_iff bit_exp_iff)
  have small: "i < 64" if "(i, c) \<in> set section_flags" for i c
    using that by (auto simp: section_flags_def)
  have "c \<in> set ?s \<longleftrightarrow> bit flag i" if ic: "(i, c) \<in> set section_flags" for i c
  proof
    assume "c \<in> set ?s"
    then obtain j where j: "(j, c) \<in> set section_flags" "flag AND push_bit j 1 \<noteq> 0" by auto
    then have "j = i" using inj ic by blast
    with j test[OF small[OF j(1)]] show "bit flag i" by simp
  next
    assume "bit flag i"
    with test[OF small[OF ic]] ic show "c \<in> set ?s" by force
  qed
  with len show ?thesis
    unfolding str_section_header_flag_def Let_def by (intro exI[of _ ?s]) auto
qed

theorem section_flags_faithful_witness:
  "\<exists>s. str_section_header_flag 6 = Inr s \<and> CHR ''A'' \<in> set s \<and> CHR ''W'' \<notin> set s"
proof -
  have b: "bit (6 :: u64) 1" "\<not> bit (6 :: u64) 0" by code_simp+
  have m: "(1, CHR ''A'') \<in> set section_flags" "(0, CHR ''W'') \<in> set section_flags"
    by (simp_all add: section_flags_def)
  obtain s where "str_section_header_flag 6 = Inr s"
    "\<forall>i c. (i, c) \<in> set section_flags \<longrightarrow> (c \<in> set s \<longleftrightarrow> bit (6 :: u64) i)"
    using section_flags_faithful[of 6] by blast
  with b m show ?thesis by blast
qed

text \<open>
  the three symbol tables are read in bounds only for the codes they list: the type of
  an indirect function (\<open>STT_GNU_IFUNC\<close>, 10), the binding of a unique symbol
  (\<open>STB_GNU_UNIQUE\<close>, 10) and any \<open>st_other\<close> above 3 index past the end of the array.
\<close>

theorem symbol_names_in_bounds:
  "((\<exists>s. str_symbol_type t = Inr s) \<longleftrightarrow> t < 7) \<and> ((\<exists>s. str_symbol_bind t = Inr s) \<longleftrightarrow> t < 3) \<and>
   ((\<exists>s. str_symbol_visibility t = Inr s) \<longleftrightarrow> t < 4) \<and> str_symbol_type 10 = Inl OutOfBounds"
  by (simp add: str_symbol_type_def str_symbol_bind_def str_symbol_visibility_def array_at_def
      word_less_nat_alt)

end
