(* ===== verification/Ui.thy ===== *)
theory Ui
  imports Vdbg_Prelude
begin

text \<open>
  What \<open>src/util.c\<close> prints: the window of a source file around a line and the listing of
  the current directory. A printing function is modelled by what it prints; a file is its
  contents.
\<close>

section \<open>A window of a source file\<close>

text \<open>
  A line prefix with its number (highlighted when it is the target), a character, or the
  warning that the file is newer than the executable.
\<close>

datatype source_item = Prefix u32 bool | Ch char | Outdated

text \<open>The warning in front of what \<open>print_source\<close> prints, if that is anything.\<close>

definition print_src_file_outdated_warning ::
    "bool \<Rightarrow> source_item list option \<Rightarrow> source_item list option" where
  "print_src_file_outdated_warning is_outdated items =
     (if is_outdated then Some (Outdated # (case items of None \<Rightarrow> [] | Some is \<Rightarrow> is)) else items)"

text \<open>Text with the escape sequences that colour it.\<close>

datatype style = REG_COLOR | IMM_COLOR | BRACKET_COLOR | OPERATOR_COLOR | WHT | HWHT | BWHT | YEL | GRN | BGRN | RESET

datatype styled = Esc style | Put char

definition print_line_prefix :: "u32 \<Rightarrow> u32 \<Rightarrow> source_item" where
  "print_line_prefix line_no target_line = Prefix line_no (line_no = target_line)"

definition newline :: char where
  "newline = CHR 0x0a"

fun skip_lines :: "u32 \<Rightarrow> u32 \<Rightarrow> string \<Rightarrow> u32 \<times> string" where
  "skip_lines current start [] = (current, [])"
| "skip_lines current start (c # cs) =
     (if current < start
      then skip_lines (if c = newline then current + 1 else current) start cs
      else (current, c # cs))"

fun copy_lines :: "u32 \<Rightarrow> u32 \<Rightarrow> u32 \<Rightarrow> string \<Rightarrow> source_item list" where
  "copy_lines current end_line target [] = []"
| "copy_lines current end_line target (c # cs) =
     (if current < end_line
      then if c = newline
           then Ch c # print_line_prefix (current + 1) target # copy_lines (current + 1) end_line target cs
           else Ch c # copy_lines current end_line target cs
      else [])"

definition start_line :: "u32 \<Rightarrow> u32 \<Rightarrow> u32" where
  "start_line line lines_context = (if line \<le> lines_context then 1 else line - lines_context + 1)"

definition end_line :: "u32 \<Rightarrow> u32 \<Rightarrow> u32" where
  "end_line line lines_context =
     line + lines_context + (if line < lines_context then lines_context - line else 0)"

text \<open>\<open>None\<close>: the file cannot be opened and a message says so.\<close>

definition print_source :: "string option \<Rightarrow> u32 \<Rightarrow> u32 \<Rightarrow> source_item list option res" where
  "print_source contents line lines_context =
     res_bind (c_assert (line \<noteq> 0) ()) (\<lambda>_.
     res_bind (c_assert (lines_context \<noteq> 0) ()) (\<lambda>_.
       case contents of
         None \<Rightarrow> Inr None
       | Some s \<Rightarrow>
           (case skip_lines 1 (start_line line lines_context) s of
              (current, rest) \<Rightarrow>
                Inr (Some (print_line_prefix current line #
                           copy_lines current (end_line line lines_context) line rest)))))"

section \<open>The listing of the current directory\<close>

definition display_length :: "string \<Rightarrow> nat" where
  "display_length s = sum_list (map (\<lambda>c.
     if c \<in> {CHR 0x0a, CHR 0x09, CHR 0x0d, CHR 0x08, CHR 0x5c, CHR 0x1b} then 2
     else if of_char c < (0x20 :: nat) \<or> c = CHR 0x7f then 4
     else 1) s)"

definition hex_digit :: "nat \<Rightarrow> char" where
  "hex_digit n = ''0123456789abcdef'' ! n"

definition backslash :: char where
  "backslash = CHR 0x5c"

definition print_filename :: "string \<Rightarrow> string" where
  "print_filename name = concat (map (\<lambda>c.
     if c = CHR 0x0a then [backslash, CHR ''n'']
     else if c = CHR 0x09 then [backslash, CHR ''t'']
     else if c = CHR 0x0d then [backslash, CHR ''r'']
     else if c = CHR 0x08 then [backslash, CHR ''b'']
     else if c = backslash then [backslash, backslash]
     else if of_char c < (0x20 :: nat) \<or> c = CHR 0x7f
       then [backslash, CHR ''x'', hex_digit (of_char c div 16), hex_digit (of_char c mod 16)]
     else [c]) name)"

text \<open>The inner loop over the columns of row \<open>r\<close>; each cell is a column and an entry.\<close>

fun print_row :: "nat \<Rightarrow> nat \<Rightarrow> nat \<Rightarrow> nat \<Rightarrow> nat list \<Rightarrow> (nat \<times> nat) list" where
  "print_row files_count no_of_rows column_len r [] = []"
| "print_row files_count no_of_rows column_len r (c # cs) =
     (let col_pos = c * column_len + 1; index = c * no_of_rows + r
      in if index \<ge> files_count then []
         else (col_pos, index) # print_row files_count no_of_rows column_len r cs)"

text \<open>
  The rows of the listing as cells. Without a terminal size every entry is a row. The
  arithmetic is on \<open>int\<close>; the sizes of a directory and of a terminal are far from its
  bounds.
\<close>

definition list_current_dir :: "nat option \<Rightarrow> string list \<Rightarrow> (nat \<times> nat) list list res" where
  "list_current_dir width entries =
     (if entries = [] then Inr []
      else case width of
        None \<Rightarrow> Inr (map (\<lambda>i. [(0, i)]) [0..<length entries])
      | Some w \<Rightarrow>
          (let files_count = length entries;
               max_len = Max (set (map display_length entries))
           in if max_len = 0 then Inl Aborted
              else let column_len = max_len + 2;
                       no_of_columns = max 1 (w div column_len);
                       no_of_rows = files_count div no_of_columns
                         + (if files_count mod no_of_columns \<noteq> 0 then 1 else 0)
                   in Inr (map (\<lambda>r. print_row files_count no_of_rows column_len r [0..<no_of_columns])
                        [0..<no_of_rows])))"

section \<open>Properties\<close>

lemma print_row_indices:
  assumes "r < R"
  shows "map snd (print_row n R w r [k..<C]) = filter (\<lambda>i. i < n) (map (\<lambda>c. c * R + r) [k..<C])"
proof (induction "C - k" arbitrary: k)
  case (Suc d)
  then have up: "[k..<C] = k # [Suc k..<C]" by (simp add: upt_conv_Cons)
  show ?case
  proof (cases "k * R + r < n")
    case True
    then show ?thesis using Suc(1)[of "Suc k"] Suc(2) up by (simp add: Let_def)
  next
    case False
    have "n \<le> c * R + r" if "c \<in> set [k..<C]" for c
    proof -
      have "k * R \<le> c * R" using that by (intro mult_le_mono1) simp
      with False show ?thesis by linarith
    qed
    then have "filter (\<lambda>i. i < n) (map (\<lambda>c. c * R + r) [k..<C]) = []"
      by (simp add: filter_empty_conv not_less)
    with False up show ?thesis by (simp add: Let_def)
  qed
qed simp

lemma enough_rows: "(n :: nat) \<le> C * (n div C + (if n mod C \<noteq> 0 then 1 else 0))" if "0 < C"
proof -
  define q r where "q = n div C" and "r = n mod C"
  have "n = C * q + r" "r < C" using that by (simp_all add: q_def r_def)
  then have "n \<le> C * (q + (if r \<noteq> 0 then 1 else 0))" by (simp add: distrib_left)
  then show ?thesis by (simp only: q_def r_def)
qed

lemma distinct_by_row:
  assumes "\<And>r. r < R \<Longrightarrow> distinct (f r)" and "\<And>r i. r < R \<Longrightarrow> i \<in> set (f r) \<Longrightarrow> h i = r"
  shows "m \<le> R \<Longrightarrow> distinct (concat (map f [0..<m])) \<and> (\<forall>i \<in> set (concat (map f [0..<m])). h i < m)"
proof (induction m)
  case (Suc m)
  define X where "X = concat (map f [0..<m])"
  have IH: "distinct X" "\<And>i. i \<in> set X \<Longrightarrow> h i < m"
    using Suc.IH Suc.prems unfolding X_def by (meson Suc_leD)+
  have m: "h i = m" if "i \<in> set (f m)" for i using that Suc.prems assms(2) by simp
  have "distinct (X @ f m)"
    using IH m assms(1)[of m] Suc.prems by (auto simp: distinct_append)
  moreover have "\<forall>i \<in> set (X @ f m). h i < Suc m"
    using IH(2) m by (auto simp: less_Suc_eq)
  moreover have "concat (map f [0..<Suc m]) = X @ f m" by (simp add: X_def)
  ultimately show ?case by (simp only:)
qed simp

lemma distinct_column_major:
  "distinct (concat (map (\<lambda>r. filter (\<lambda>i. i < n) (map (\<lambda>c. c * R + r) [0..<C])) [0..<R]))"
proof -
  let ?row = "\<lambda>r. filter (\<lambda>i. i < n) (map (\<lambda>c. c * R + r) [0..<C])"
  have "distinct (?row r)" if "r < R" for r
    using that by (auto simp: distinct_map inj_on_def intro!: distinct_filter)
  moreover have "i mod R = r" if "r < R" "i \<in> set (?row r)" for r i
    using that by auto
  ultimately show ?thesis using distinct_by_row[of R ?row "\<lambda>i. i mod R" R] by blast
qed

lemma column_major_covers:
  assumes "n \<le> C * R"
  shows "set (concat (map (\<lambda>r. filter (\<lambda>i. i < n) (map (\<lambda>c. c * R + r) [0..<C])) [0..<R])) = {..<n}"
proof (intro set_eqI iffI)
  fix i assume i: "i \<in> {..<n}"
  then have "0 < R" using assms by (cases R) auto
  have "i div R < C" using i assms by (simp add: less_mult_imp_div_less)
  moreover have "i = i div R * R + i mod R" by simp
  moreover have "i mod R < R" using \<open>0 < R\<close> by simp
  ultimately show "i \<in> set (concat (map (\<lambda>r. filter (\<lambda>i. i < n) (map (\<lambda>c. c * R + r) [0..<C])) [0..<R]))"
    using i by (auto intro!: bexI[of _ "i mod R"] image_eqI[of _ _ "i div R"])
qed auto

text \<open>
  listing the current directory prints every entry exactly once, whatever the width of
  the terminal, the number of entries and the lengths of their names: the column-major
  cells are a rearrangement of the entries.
\<close>

theorem listing_prints_each_entry_once:
  assumes "list_current_dir width entries = Inr rows"
  shows "distinct (map snd (concat rows)) \<and> set (map snd (concat rows)) = {..<length entries}"
proof (cases "entries = [] \<or> width = None")
  case True
  have one: "map snd (concat (map (\<lambda>i. [(0 :: nat, i)]) xs)) = xs" for xs :: "nat list"
    by (induction xs) auto
  from True assms have "rows = map (\<lambda>i. [(0, i)]) [0..<length entries]"
    by (cases "entries = []"; cases width) (simp_all add: list_current_dir_def)
  then have "map snd (concat rows) = [0..<length entries]" by (simp only: one)
  then show ?thesis by (simp only: distinct_upt set_upt) (simp add: atLeast0LessThan)
next
  case False
  then obtain w where w: "width = Some w" "entries \<noteq> []" by auto
  define n cl where "n = length entries" and "cl = Max (set (map display_length entries)) + 2"
  define C where "C = max 1 (w div cl)"
  define R where "R = n div C + (if n mod C \<noteq> 0 then 1 else 0)"
  let ?f = "\<lambda>r. filter (\<lambda>i. i < n) (map (\<lambda>c. c * R + r) [0..<C])"
  have rows: "rows = map (\<lambda>r. print_row n R cl r [0..<C]) [0..<R]"
    using assms w
    by (simp add: list_current_dir_def Let_def n_def cl_def C_def R_def split: if_splits)
  have "map snd (concat rows) = concat (map ?f [0..<R])"
    unfolding rows map_concat map_map by (rule arg_cong[where f = concat]) (simp add: print_row_indices)
  moreover have "n \<le> C * R" unfolding R_def by (rule enough_rows) (simp add: C_def)
  ultimately show ?thesis
    using distinct_column_major[of n R C] column_major_covers[of n C R] by (simp only: n_def)
qed

theorem listing_prints_each_entry_once_witness:
  "\<exists>rows. list_current_dir (Some 10) [''a'', ''bc'', ''def'', ''g'', ''h''] = Inr rows \<and>
    set (map snd (concat rows)) = {..<5} \<and> length rows = 3"
proof -
  have r: "list_current_dir (Some 10) [''a'', ''bc'', ''def'', ''g'', ''h''] =
      Inr [[(1, 0), (6, 3)], [(1, 1), (6, 4)], [(1, 2)]]" by code_simp
  have "set (map snd (concat [[(1, 0), (6, 3)], [(1, 1), (6, 4)], [(1 :: nat, 2)]])) = {..<5 :: nat}"
    using listing_prints_each_entry_once[OF r] by simp
  with r show ?thesis by (metis length_Cons list.size(3) numeral_3_eq_3)
qed

lemma skip_lines_stop: "\<not> current < start \<Longrightarrow> skip_lines current start s = (current, s)"
  by (cases s) simp_all

lemma skip_one_line:
  assumes "newline \<notin> set l" "cur < start"
  shows "skip_lines cur start (l @ newline # s) = skip_lines (cur + 1) start s"
  using assms by (induction l) auto

lemma copy_one_line:
  assumes "newline \<notin> set l" "cur < stop"
  shows "copy_lines cur stop target (l @ newline # s) =
    map Ch l @ [Ch newline, print_line_prefix (cur + 1) target] @ copy_lines (cur + 1) stop target s"
  using assms by (induction l) auto

text \<open>A text of newline-terminated lines, and how the window shows line number \<open>n\<close>.\<close>

definition text_of :: "string list \<Rightarrow> string" where
  "text_of ls = concat (map (\<lambda>l. l @ [newline]) ls)"

lemma text_of_Cons [simp]: "text_of (l # ls) = l @ newline # text_of ls"
  by (simp add: text_of_def)

definition shown_line :: "u32 \<Rightarrow> string list \<Rightarrow> nat \<Rightarrow> source_item list" where
  "shown_line target ls n = print_line_prefix (of_nat n) target # map Ch (ls ! (n - 1)) @ [Ch newline]"

lemma of_nat_less_u32: "a < 2 ^ 32 \<Longrightarrow> b < 2 ^ 32 \<Longrightarrow> ((of_nat a :: u32) < of_nat b) \<longleftrightarrow> a < b"
  by (simp add: word_less_nat_alt unat_of_nat)

lemma skip_lines_text:
  assumes "\<forall>l \<in> set ls. newline \<notin> set l" "start \<le> k + length ls" "k \<le> start" "start < 2 ^ 32"
  shows "skip_lines (of_nat k) (of_nat start) (text_of ls) = (of_nat start, text_of (drop (start - k) ls))"
  using assms
proof (induction ls arbitrary: k)
  case Nil
  then show ?case by (simp add: text_of_def skip_lines_stop)
next
  case (Cons l ls)
  show ?case
  proof (cases "k = start")
    case True
    then show ?thesis by (simp only: skip_lines_stop less_irrefl not_False_eq_True) simp
  next
    case False
    with Cons.prems have "k < start" "start - k = Suc (start - Suc k)" by auto
    moreover have "(of_nat k :: u32) < of_nat start"
      using Cons.prems \<open>k < start\<close> by (subst of_nat_less_u32) auto
    moreover have "(of_nat k :: u32) + 1 = of_nat (Suc k)" by simp
    ultimately show ?thesis using Cons.prems Cons.IH[of "Suc k"] by (simp add: skip_one_line del: of_nat_Suc)
  qed
qed

lemma copy_lines_text:
  assumes "\<forall>l \<in> set ls. newline \<notin> set l" "k \<le> stop" "stop \<le> k + length ls" "stop < 2 ^ 32" "0 < k"
  shows "print_line_prefix (of_nat k) target # copy_lines (of_nat k) (of_nat stop) target (text_of ls) =
    concat (map (\<lambda>n. print_line_prefix (of_nat n) target # map Ch (ls ! (n - k)) @ [Ch newline]) [k..<stop])
    @ [print_line_prefix (of_nat stop) target]"
  using assms
proof (induction ls arbitrary: k)
  case Nil
  then show ?case by (simp add: text_of_def)
next
  case (Cons l ls)
  show ?case
  proof (cases "k = stop")
    case True
    then show ?thesis by (cases "text_of (l # ls)") simp_all
  next
    case False
    with Cons.prems have k: "k < stop" "[k..<stop] = k # [Suc k..<stop]" by (auto simp: upt_conv_Cons)
    have lt: "(of_nat k :: u32) < of_nat stop"
      using Cons.prems k by (subst of_nat_less_u32) auto
    have suc: "(of_nat k :: u32) + 1 = of_nat (Suc k)" by simp
    have shift: "map (\<lambda>n. print_line_prefix (of_nat n) target # map Ch ((l # ls) ! (n - k)) @ [Ch newline]) [Suc k..<stop]
        = map (\<lambda>n. print_line_prefix (of_nat n) target # map Ch (ls ! (n - Suc k)) @ [Ch newline]) [Suc k..<stop]"
    proof (rule map_cong)
      fix n assume "n \<in> set [Suc k..<stop]"
      then have "(l # ls) ! (n - k) = ls ! (n - Suc k)" by (simp add: nth_Cons')
      then show "print_line_prefix (of_nat n) target # map Ch ((l # ls) ! (n - k)) @ [Ch newline] =
          print_line_prefix (of_nat n) target # map Ch (ls ! (n - Suc k)) @ [Ch newline]" by simp
    qed simp
    have "print_line_prefix (of_nat (Suc k)) target # copy_lines (of_nat (Suc k)) (of_nat stop) target (text_of ls) =
        concat (map (\<lambda>n. print_line_prefix (of_nat n) target # map Ch (ls ! (n - Suc k)) @ [Ch newline]) [Suc k..<stop])
        @ [print_line_prefix (of_nat stop) target]"
      by (rule Cons.IH) (use Cons.prems k in auto)
    then show ?thesis
      using Cons.prems lt unfolding k(2) list.map shift
      by (simp add: copy_one_line suc del: of_nat_Suc upt.simps)
  qed
qed

text \<open>
  the source window shows, of a file long enough, exactly the lines from
  \<open>line - context + 1\<close> (or 1) up to before \<open>line + context\<close>, widened below when the line is near
  the top, each complete and after its own number, with the target line highlighted; the
  number of the next line follows.
\<close>

theorem print_source_window:
  assumes "\<forall>l \<in> set ls. newline \<notin> set l" "0 < n" "0 < ctx" "n + 2 * ctx < 2 ^ 32"
    and "lo = (if n \<le> ctx then 1 else n - ctx + 1)"
    and "hi = (if n < ctx then 2 * ctx else n + ctx)" and "hi \<le> Suc (length ls)"
  shows "print_source (Some (text_of ls)) (of_nat n) (of_nat ctx) =
    Inr (Some (concat (map (shown_line (of_nat n) ls) [lo..<hi]) @ [print_line_prefix (of_nat hi) (of_nat n)]))"
proof -
  have nz: "(of_nat n :: u32) \<noteq> 0" "(of_nat ctx :: u32) \<noteq> 0"
    using assms(2-4) by (auto simp: word_of_nat_eq_0_iff dest: dvd_imp_le)
  have le: "(of_nat n :: u32) \<le> of_nat ctx \<longleftrightarrow> n \<le> ctx"
    using assms(4) by (simp add: word_le_nat_alt unat_of_nat)
  have lt: "(of_nat n :: u32) < of_nat ctx \<longleftrightarrow> n < ctx" by (rule of_nat_less_u32) (use assms(4) in auto)
  have lo: "start_line (of_nat n) (of_nat ctx) = of_nat lo"
    using assms(5) by (simp add: start_line_def le of_nat_diff)
  have hi: "end_line (of_nat n) (of_nat ctx) = of_nat hi"
    using assms(6) by (simp add: end_line_def lt of_nat_diff)
  have ord: "0 < lo" "lo \<le> hi" "hi < 2 ^ 32" "lo \<le> Suc (length ls)" using assms by auto
  have "skip_lines 1 (of_nat lo) (text_of ls) = (of_nat lo, text_of (drop (lo - 1) ls))"
    using skip_lines_text[of ls lo 1] assms(1) ord by simp
  moreover have "print_line_prefix (of_nat lo) (of_nat n) #
      copy_lines (of_nat lo) (of_nat hi) (of_nat n) (text_of (drop (lo - 1) ls)) =
      concat (map (shown_line (of_nat n) ls) [lo..<hi]) @ [print_line_prefix (of_nat hi) (of_nat n)]"
  proof -
    have same: "map (shown_line (of_nat n) ls) [lo..<hi] =
        map (\<lambda>k. print_line_prefix (of_nat k) (of_nat n) # map Ch (drop (lo - 1) ls ! (k - lo)) @ [Ch newline]) [lo..<hi]"
      using ord assms(7) by (intro map_cong) (auto simp: shown_line_def)
    show ?thesis
      unfolding same by (rule copy_lines_text) (use assms ord in \<open>auto dest: in_set_dropD\<close>)
  qed
  ultimately show ?thesis using nz by (simp add: print_source_def lo hi)
qed

theorem print_source_window_witness:
  "print_source (Some (text_of [''a'', ''b'', ''c'', ''d'', ''e''])) 3 2 =
    Inr (Some (concat (map (shown_line 3 [''a'', ''b'', ''c'', ''d'', ''e'']) [2, 3, 4])
      @ [Prefix 5 False]))"
proof -
  have "[2..<5] = [2, 3, 4 :: nat]" by code_simp
  then show ?thesis
    using print_source_window[of "[''a'', ''b'', ''c'', ''d'', ''e'']" 3 2 2 5]
    by (simp add: newline_def print_line_prefix_def)
qed

end
