(* ===== verification/Symbols.thy ===== *)
theory Symbols
  imports Tracee C_Strings Elf_Names Ui
begin

text \<open>
  The symbol component \<open>src/symbols.c\<close> and \<open>include/symbols.h\<close>: what the debugger reads
  from the ELF and DWARF data of the executable, and what it caches of it. The two
  libraries are not in the repository, so what they deliver is data: \<open>elf_file\<close> holds the
  sections libelf enumerates and the strings \<open>elf_strptr\<close> finds, \<open>dwarf_info\<close> the
  compilation units, lines and functions libdw and libdwfl report. Where the library may
  return \<open>NULL\<close> there is an option, and the code's own checks decide what follows.
\<close>

section \<open>What the libraries deliver\<close>

record elf_sym =
  st_name :: nat
  st_info :: u8
  st_other :: u8
  st_shndx :: nat
  st_value :: u64
  st_size :: u64

text \<open>The field of \<open>Elf64_Rela\<close> the code reads: \<open>ELF64_R_SYM(r_info)\<close>.\<close>

record elf_rela =
  r_sym :: nat

text \<open>
  \<open>elf_getdata\<close> of a section: the size of the buffer, and the buffer read as an array of
  symbols or of relocations.
\<close>

record elf_data =
  d_size :: nat
  d_syms :: "elf_sym list"
  d_relas :: "elf_rela list"

record elf_section =
  sh_name :: nat
  sh_type :: u32
  sh_flags :: u64
  sh_addr :: u64
  sh_offset :: u64
  sh_size :: u64
  sh_link :: u32
  sh_info :: u32
  sh_addralign :: u64
  sh_entsize :: u64
  sec_data :: "elf_data option"

record elf_header =
  e_ident :: "u8 list"
  e_type :: u16
  e_machine :: u16
  e_version :: u32
  e_entry :: u64
  e_phoff :: u64
  e_shoff :: u64
  e_ehsize :: u16
  e_phentsize :: u16
  e_phnum :: u16
  e_shentsize :: u16
  e_shnum :: u16
  e_shstrndx :: nat

record elf_file =
  ef_ehdr :: elf_header
  ef_sections :: "elf_section list"
  ef_strptr :: "nat \<Rightarrow> nat \<Rightarrow> string option"

text \<open>A \<open>DW_TAG_subprogram\<close>: \<open>dwarf_lowpc\<close> and \<open>dwarf_highpc\<close> fail on a declaration.\<close>

record func_die =
  fd_name :: "string option"
  fd_lowpc :: "u64 option"
  fd_highpc :: "u64 option"

record dw_cu =
  cu_name :: "string option"
  cu_bias :: u64
  cu_funcs :: "func_die list"

record src_line =
  sl_file :: "string option"
  sl_line :: int
  sl_comp_dir :: "string option"

text \<open>
  \<open>dw_cus\<close> is what \<open>dwfl_nextcu\<close> enumerates; the next three are \<open>dwfl_addrmodule\<close>,
  \<open>dwfl_module_getsrc\<close> and \<open>dwfl_module_addrdie\<close> for the modules reported for a process;
  \<open>dw_getsrc_file\<close> is \<open>dwfl_module_getsrc_file\<close> with the addresses of the lines found
  (\<open>None\<close> for \<open>-1\<close>), and \<open>dw_report\<close> says whether \<open>dwfl_linux_proc_report\<close> succeeds.
\<close>

record dwarf_info =
  dw_cus :: "dw_cu list"
  dw_addrmodule :: "int \<Rightarrow> u64 \<Rightarrow> bool"
  dw_getsrc :: "int \<Rightarrow> u64 \<Rightarrow> src_line option"
  dw_addrdie :: "int \<Rightarrow> u64 \<Rightarrow> dw_cu option"
  dw_getsrc_file :: "dw_cu \<Rightarrow> string \<Rightarrow> int \<Rightarrow> u64 list option"
  dw_report :: "int \<Rightarrow> bool"

text \<open>
  The file system: the bytes of a file that can be opened, what libelf and libdwfl make of
  an executable, \<open>st_mtim.tv_sec\<close> after a \<open>stat\<close> (left over from before when it fails), and whether \<open>stat\<close> of an executable succeeds.
\<close>

record host_files =
  hf_bytes :: "string \<Rightarrow> string option"
  hf_elf :: "string \<Rightarrow> elf_file option"
  hf_dwarf :: "string \<Rightarrow> dwarf_info option"
  hf_mtime :: "string \<Rightarrow> int"
  hf_stat_ok :: "string \<Rightarrow> bool"

section \<open>The state\<close>

record func_entry =
  fe_name :: string
  fe_addr :: u64
  fe_size :: u64

record cached_data =
  strtab_idx :: int
  dynstr_idx :: int
  symbol_table :: "nat option"
  dynamic_symbol_table :: "nat option"
  funcs_list :: "func_entry list"
  file_names :: "string list"

text \<open>\<open>sy_proc\<close>: the process reported to \<open>dwfl_data_proc\<close>, if any.\<close>

record dbg_symbols =
  sy_elf :: elf_file
  sy_dwarf :: dwarf_info
  sy_proc :: "int option"
  sy_has_dwarf :: bool
  sy_mtime :: int
  sy_cache :: cached_data

section \<open>Sections\<close>

definition get_section_name_by_index :: "elf_file \<Rightarrow> nat \<Rightarrow> string option" where
  "get_section_name_by_index ef idx =
     (if idx < length (ef_sections ef)
      then ef_strptr ef (e_shstrndx (ef_ehdr ef)) (sh_name (ef_sections ef ! idx))
      else Some ''ABS'')"

text \<open>A name that a string function of the C library is applied to must not be \<open>NULL\<close>.\<close>

definition not_null :: "'b option \<Rightarrow> 'b res" where
  "not_null x = (case x of None \<Rightarrow> Inl NullDeref | Some y \<Rightarrow> Inr y)"

text \<open>\<open>elf_nextscn\<close> enumerates the sections after the null section.\<close>

definition elf_nextscn_all :: "elf_file \<Rightarrow> nat list" where
  "elf_nextscn_all ef = [1..<length (ef_sections ef)]"

fun find_debug_info :: "elf_file \<Rightarrow> nat list \<Rightarrow> bool res" where
  "find_debug_info ef [] = Inr False"
| "find_debug_info ef (i # is) =
     res_bind (not_null (get_section_name_by_index ef i)) (\<lambda>name.
       if strncmp_eq name ''.debug_info'' 11 then Inr True else find_debug_info ef is)"

definition check_for_debug_symbols :: "elf_file \<Rightarrow> bool res" where
  "check_for_debug_symbols ef = find_debug_info ef (elf_nextscn_all ef)"

text \<open>The array of \<open>get_sections\<close> has 100 slots and is never enlarged.\<close>

fun collect_sections :: "elf_file \<Rightarrow> string option \<Rightarrow> nat list \<Rightarrow> nat list \<Rightarrow> nat list res" where
  "collect_sections ef section_name [] acc = Inr acc"
| "collect_sections ef section_name (i # is) acc =
     res_bind
       (case section_name of
          None \<Rightarrow> Inr True
        | Some s \<Rightarrow> res_bind (not_null (get_section_name_by_index ef i)) (\<lambda>name. Inr (strstr name s)))
       (\<lambda>take_it.
         if take_it
         then if length acc < 100 then collect_sections ef section_name is (acc @ [i])
              else Inl OutOfBounds
         else collect_sections ef section_name is acc)"

definition get_sections :: "elf_file \<Rightarrow> string option \<Rightarrow> nat list res" where
  "get_sections ef section_name = collect_sections ef section_name (elf_nextscn_all ef) []"

section \<open>Symbols\<close>

definition elf_getdata :: "elf_file \<Rightarrow> nat \<Rightarrow> elf_data res" where
  "elf_getdata ef idx =
     (if idx < length (ef_sections ef) then not_null (sec_data (ef_sections ef ! idx))
      else Inl NullDeref)"

fun filter_symbols :: "elf_file \<Rightarrow> string \<Rightarrow> nat \<Rightarrow> elf_sym list \<Rightarrow> elf_sym list res" where
  "filter_symbols ef sym_name stridx [] = Inr []"
| "filter_symbols ef sym_name stridx (sy # sys) =
     res_bind (not_null (ef_strptr ef stridx (st_name sy))) (\<lambda>name.
     res_bind (filter_symbols ef sym_name stridx sys) (\<lambda>rest.
       Inr (if strstr name sym_name then sy # rest else rest)))"

definition get_symbols :: "elf_file \<Rightarrow> string option \<Rightarrow> nat option \<Rightarrow> nat \<Rightarrow> elf_sym list res" where
  "get_symbols ef sym_name scn string_table_idx =
     (case scn of
        None \<Rightarrow> Inl AssertFailed
      | Some i \<Rightarrow>
          res_bind (elf_getdata ef i) (\<lambda>data.
            case sym_name of
              None \<Rightarrow> Inr (d_syms data)
            | Some s \<Rightarrow> filter_symbols ef s string_table_idx (d_syms data)))"

section \<open>The procedure linkage table\<close>

text \<open>The last section of each of the two names among those whose name contains \<open>plt\<close>.\<close>

fun find_plt :: "elf_file \<Rightarrow> nat list \<Rightarrow> nat option \<times> nat option \<Rightarrow> (nat option \<times> nat option) res" where
  "find_plt ef [] acc = Inr acc"
| "find_plt ef (i # is) acc =
     res_bind (not_null (get_section_name_by_index ef i)) (\<lambda>scn_name.
       find_plt ef is
         (if scn_name = ''.plt'' then (Some i, snd acc)
          else if scn_name = ''.rela.plt'' then (fst acc, Some i) else acc))"

text \<open>
  The loop over the relocations. A name that \<open>elf_strptr\<close> does not find stays \<open>NULL\<close> here;
  its users dereference it.
\<close>

fun plt_loop :: "elf_file \<Rightarrow> nat \<Rightarrow> elf_sym list \<Rightarrow> elf_rela list \<Rightarrow> u64 \<Rightarrow> nat \<Rightarrow> nat
    \<Rightarrow> (string option \<times> u64) list res" where
  "plt_loop ef dynstr dynsyms relocs plt_addr i 0 = Inr []"
| "plt_loop ef dynstr dynsyms relocs plt_addr i (Suc n) =
     res_bind (array_at relocs i) (\<lambda>rel.
     res_bind (c_assert (r_sym rel < length dynsyms) ()) (\<lambda>_.
     res_bind (plt_loop ef dynstr dynsyms relocs plt_addr (Suc i) n) (\<lambda>rest.
       Inr ((ef_strptr ef dynstr (st_name (dynsyms ! r_sym rel)),
             plt_addr + 0x10 * (of_nat i + 1)) # rest))))"

text \<open>\<open>None\<close> is the \<open>NULL\<close> that is returned with size 0 when a section is missing.\<close>

definition get_plt_entries :: "elf_file \<Rightarrow> cached_data \<Rightarrow> (string option \<times> u64) list option res" where
  "get_plt_entries ef cache =
     res_bind (get_sections ef (Some ''plt'')) (\<lambda>sections.
     res_bind (find_plt ef sections (None, None)) (\<lambda>found.
       case (fst found, snd found, dynamic_symbol_table cache) of
         (Some scn_plt, Some scn_rela_plt, Some dynsym) \<Rightarrow>
           (let plt_addr = sh_addr (ef_sections ef ! scn_plt);
                entsize = unat (sh_entsize (ef_sections ef ! scn_rela_plt))
            in res_bind (elf_getdata ef scn_rela_plt) (\<lambda>rela_data.
               if entsize = 0 then Inl Undefined
               else res_bind (elf_getdata ef dynsym) (\<lambda>dynsym_data.
                    res_bind (plt_loop ef (nat (dynstr_idx cache)) (d_syms dynsym_data)
                                (d_relas rela_data) plt_addr 0 (d_size rela_data div entsize))
                      (\<lambda>entries. Inr (Some entries)))))
       | _ \<Rightarrow> Inr None))"

section \<open>The cache\<close>

fun name_plt :: "(string option \<times> u64) list \<Rightarrow> func_entry list res" where
  "name_plt [] = Inr []"
| "name_plt (e # es) =
     res_bind (not_null (fst e)) (\<lambda>name.
     res_bind (name_plt es) (\<lambda>rest.
       Inr (\<lparr>fe_name = name @ ''@plt'', fe_addr = snd e, fe_size = 0x10\<rparr> # rest)))"

text \<open>\<open>ELF64_ST_TYPE\<close> is the low nibble; \<open>STT_FUNC\<close> is 2.\<close>

fun func_symbols :: "elf_file \<Rightarrow> nat \<Rightarrow> elf_sym list \<Rightarrow> func_entry list res" where
  "func_symbols ef stridx [] = Inr []"
| "func_symbols ef stridx (sy # sys) =
     (if st_info sy AND 15 = 2 \<and> st_value sy \<noteq> 0
      then res_bind (not_null (ef_strptr ef stridx (st_name sy))) (\<lambda>name.
           res_bind (func_symbols ef stridx sys) (\<lambda>rest.
             Inr (\<lparr>fe_name = name, fe_addr = st_value sy, fe_size = st_size sy\<rparr> # rest)))
      else func_symbols ef stridx sys)"

text \<open>\<open>file_names\<close> has one slot per symbol, whatever the number of compilation units.\<close>

fun cu_names :: "nat \<Rightarrow> dw_cu list \<Rightarrow> string list \<Rightarrow> string list res" where
  "cu_names cap [] acc = Inr acc"
| "cu_names cap (cu # cus) acc =
     (case cu_name cu of
        None \<Rightarrow> cu_names cap cus acc
      | Some name \<Rightarrow>
          if length acc < cap then cu_names cap cus (acc @ [name]) else Inl OutOfBounds)"

definition cache_all_functions_and_filenames ::
    "elf_file \<Rightarrow> dwarf_info \<Rightarrow> cached_data \<Rightarrow> cached_data res" where
  "cache_all_functions_and_filenames ef dw cache =
     (case symbol_table cache of
        None \<Rightarrow> Inr cache
      | Some symtab \<Rightarrow>
          res_bind (get_plt_entries ef cache) (\<lambda>plt_entries.
          res_bind (get_symbols ef None (Some symtab) (nat (strtab_idx cache))) (\<lambda>sym_list.
          res_bind (name_plt (case plt_entries of None \<Rightarrow> [] | Some es \<Rightarrow> es)) (\<lambda>plts.
          res_bind (func_symbols ef (nat (strtab_idx cache)) sym_list) (\<lambda>funcs.
          res_bind (cu_names (length sym_list) (dw_cus dw) []) (\<lambda>names.
            Inr (cache\<lparr>funcs_list := plts @ funcs, file_names := names\<rparr>)))))))"

section \<open>Opening an executable\<close>

text \<open>
  The four bytes are read into an array that is not initialised: a shorter file leaves
  the rest of it as it was.
\<close>

definition elf_magic :: string where
  "elf_magic = [CHR 0x7f, CHR ''E'', CHR ''L'', CHR ''F'']"

definition verif_elf_signature :: "string \<Rightarrow> bool res" where
  "verif_elf_signature bytes =
     (if 4 \<le> length bytes then Inr (take 4 bytes = elf_magic)
      else if bytes = take (length bytes) elf_magic then Inl UninitRead
      else Inr False)"

fun find_tables :: "elf_file \<Rightarrow> nat list \<Rightarrow> cached_data \<Rightarrow> cached_data res" where
  "find_tables ef [] c = Inr c"
| "find_tables ef (i # is) c =
     res_bind (not_null (get_section_name_by_index ef i)) (\<lambda>name.
       find_tables ef is
         (if name = ''.strtab'' then c\<lparr>strtab_idx := int i\<rparr>
          else if name = ''.dynstr'' then c\<lparr>dynstr_idx := int i\<rparr>
          else if name = ''.symtab'' then c\<lparr>symbol_table := Some i\<rparr>
          else if name = ''.dynsym'' then c\<lparr>dynamic_symbol_table := Some i\<rparr>
          else c))"

definition symbols_init :: "host_files \<Rightarrow> string \<Rightarrow> dbg_symbols option res" where
  "symbols_init H pname =
     (case hf_bytes H pname of
        None \<Rightarrow> Inr None
      | Some bytes \<Rightarrow>
          res_bind (verif_elf_signature bytes) (\<lambda>good.
            if \<not> good then Inr None
            else case (hf_elf H pname, hf_dwarf H pname) of
              (Some ef, Some dw) \<Rightarrow>
                res_bind (check_for_debug_symbols ef) (\<lambda>has_dwarf.
                res_bind (find_tables ef (elf_nextscn_all ef)
                  \<lparr>strtab_idx = - 1, dynstr_idx = - 1, symbol_table = None,
                   dynamic_symbol_table = None, funcs_list = [], file_names = []\<rparr>) (\<lambda>tables.
                res_bind (cache_all_functions_and_filenames ef dw tables) (\<lambda>cache.
                  if \<not> hf_stat_ok H pname then Inr None
                  else Inr (Some \<lparr>sy_elf = ef, sy_dwarf = dw, sy_proc = None,
                         sy_has_dwarf = has_dwarf, sy_mtime = hf_mtime H pname,
                         sy_cache = cache\<rparr>))))
            | _ \<Rightarrow> Inl Aborted))"

abbreviation has_dwarf_symbols :: "dbg_symbols \<Rightarrow> bool" where
  "has_dwarf_symbols \<equiv> sy_has_dwarf"

abbreviation get_elf_data :: "dbg_symbols \<Rightarrow> elf_file" where
  "get_elf_data \<equiv> sy_elf"

definition get_valid_func_symbols :: "dbg_symbols \<Rightarrow> func_entry list" where
  "get_valid_func_symbols syms = funcs_list (sy_cache syms)"

definition get_source_files :: "dbg_symbols \<Rightarrow> string list" where
  "get_source_files syms = file_names (sy_cache syms)"

section \<open>Lines and functions\<close>

text \<open>
  A failing report ends the session that the next call uses.
\<close>

definition setup_dwfl :: "dbg_symbols \<Rightarrow> int \<Rightarrow> dbg_symbols res" where
  "setup_dwfl syms pid =
     (if dw_report (sy_dwarf syms) pid then Inr (syms\<lparr>sy_proc := Some pid\<rparr>) else Inl UseAfterFree)"

definition dwfl_addrmodule :: "dbg_symbols \<Rightarrow> u64 \<Rightarrow> int res" where
  "dwfl_addrmodule syms pc =
     (case sy_proc syms of
        None \<Rightarrow> Inl Aborted
      | Some pid \<Rightarrow> if dw_addrmodule (sy_dwarf syms) pid pc then Inr pid else Inl Aborted)"

text \<open>
  What \<open>get_line_from_pc\<close> returns and stores through its pointers: nothing is stored when
  there is no line (\<open>None\<close>, the return value 0).
\<close>

record line_info =
  li_line :: int
  li_file :: string
  li_comp_dir :: "string option"
  li_is_old :: bool

definition get_line_from_pc :: "host_files \<Rightarrow> dbg_symbols \<Rightarrow> u64 \<Rightarrow> line_info option res" where
  "get_line_from_pc H syms pc =
     res_bind (dwfl_addrmodule syms pc) (\<lambda>pid.
       case dw_getsrc (sy_dwarf syms) pid pc of
         None \<Rightarrow> Inr None
       | Some src \<Rightarrow>
           (case sl_file src of
              None \<Rightarrow> Inl Aborted
            | Some file \<Rightarrow>
                Inr (Some \<lparr>li_line = sl_line src, li_file = file, li_comp_dir = sl_comp_dir src,
                          li_is_old = (sy_mtime syms < hf_mtime H file)\<rparr>)))"

text \<open>The loop over the compilation units: the first one when no file is asked for.\<close>

fun find_cu :: "string option \<Rightarrow> dw_cu list \<Rightarrow> (dw_cu \<times> string option) option res" where
  "find_cu file [] = Inr None"
| "find_cu file (cu # cus) =
     (case file of
        None \<Rightarrow> Inr (Some (cu, cu_name cu))
      | Some f \<Rightarrow>
          res_bind (not_null (cu_name cu)) (\<lambda>name.
            if name = f then Inr (Some (cu, Some f)) else find_cu file cus))"

text \<open>The address, 0 on failure, and the file name as the caller sees it afterwards.\<close>

definition get_addr_from_lineno ::
    "dbg_symbols \<Rightarrow> string option \<Rightarrow> int \<Rightarrow> (u64 \<times> string option) res" where
  "get_addr_from_lineno syms file lineno =
     res_bind (find_cu file (dw_cus (sy_dwarf syms))) (\<lambda>found.
       case found of
         None \<Rightarrow> Inr (0, file)
       | Some (cu, file') \<Rightarrow>
           res_bind (not_null file') (\<lambda>f.
             case dw_getsrc_file (sy_dwarf syms) cu f lineno of
               None \<Rightarrow> Inr (0, file')
             | Some [] \<Rightarrow> Inr (0, file')
             | Some (addr # _) \<Rightarrow> Inr (addr - cu_bias cu, file')))"

definition get_cudie_from_pc :: "dbg_symbols \<Rightarrow> u64 \<Rightarrow> dw_cu option res" where
  "get_cudie_from_pc syms pc =
     res_bind (dwfl_addrmodule syms pc) (\<lambda>pid. Inr (dw_addrdie (sy_dwarf syms) pid pc))"

text \<open>
  \<open>function_die_callback\<close>: \<open>True\<close> is \<open>DWARF_CB_ABORT\<close>. The bounds of a function without
  them are local variables that nothing wrote.
\<close>

definition function_die_callback :: "u64 \<Rightarrow> func_die \<Rightarrow> bool res" where
  "function_die_callback addr die =
     (case (fd_lowpc die, fd_highpc die) of
        (Some func_start, Some func_end) \<Rightarrow> Inr (func_start \<le> addr \<and> addr < func_end)
      | (Some func_start, None) \<Rightarrow> if addr < func_start then Inr False else Inl UninitRead
      | _ \<Rightarrow> Inl UninitRead)"

fun dwarf_getfuncs :: "u64 \<Rightarrow> func_die list \<Rightarrow> func_die option res" where
  "dwarf_getfuncs addr [] = Inr None"
| "dwarf_getfuncs addr (die # dies) =
     res_bind (function_die_callback addr die) (\<lambda>stop.
       if stop then Inr (Some die) else dwarf_getfuncs addr dies)"

text \<open>\<open>None\<close>: the caller's DIE stays all zero, and its name is \<open>NULL\<close>.\<close>

definition get_func_die_from_pc :: "dbg_symbols \<Rightarrow> u64 \<Rightarrow> u64 \<Rightarrow> func_die option res" where
  "get_func_die_from_pc syms pc load_address =
     res_bind (get_cudie_from_pc syms pc) (\<lambda>cudie.
       case cudie of
         None \<Rightarrow> Inr None
       | Some cu \<Rightarrow> dwarf_getfuncs (pc - load_address) (cu_funcs cu))"

section \<open>The load address\<close>

text \<open>One \<open>%lx\<close> of \<open>sscanf\<close>, which has no number in a bare \<open>0x\<close>.\<close>

definition scan_lx :: "string \<Rightarrow> (u64 \<times> string) option" where
  "scan_lx s =
     (case scan_number 16 s of
        None \<Rightarrow> None
      | Some (neg, n, rest) \<Rightarrow>
          if rest \<noteq> [] \<and> hd rest \<in> {CHR ''x'', CHR ''X''} \<and>
            takeWhile (is_digit_of 16) (dropWhile (\<lambda>c. isspace c \<or> c \<in> {CHR ''-'', CHR ''+''}) s) = ''0''
          then None
          else Some (if 2 ^ 64 \<le> n then - 1 else if neg then - of_nat n else of_nat n, rest))"

text \<open>\<open>sscanf(line, "%lx-%lx ...") == 2\<close>; the other conversions are not counted.\<close>

definition scan_maps_line :: "string \<Rightarrow> (u64 \<times> u64) option" where
  "scan_maps_line line =
     (case scan_lx line of
        None \<Rightarrow> None
      | Some (start_addr, rest) \<Rightarrow>
          if rest \<noteq> [] \<and> hd rest = CHR ''-''
          then map_option (\<lambda>(end_addr, _). (start_addr, end_addr)) (scan_lx (tl rest))
          else None)"

fun first_mapping :: "string list \<Rightarrow> u64" where
  "first_mapping [] = 0"
| "first_mapping (line # lines) =
     (case scan_maps_line line of None \<Rightarrow> first_mapping lines | Some (start_addr, _) \<Rightarrow> start_addr)"

text \<open>\<open>ET_DYN\<close> is 3.\<close>

definition initialize_load_address :: "program_env \<Rightarrow> tracee \<Rightarrow> dbg_symbols \<Rightarrow> u64 res" where
  "initialize_load_address E t syms =
     (if e_type (ef_ehdr (sy_elf syms)) \<noteq> 3 then Inr 0
      else case env_maps E t of
             None \<Rightarrow> Inl Aborted
           | Some lines \<Rightarrow> Inr (first_mapping lines))"

section \<open>What is printed\<close>

text \<open>\<open>print_source_at_current_pc\<close>; \<open>None\<close> when there is nothing to print.\<close>

definition print_source_at_current_pc ::
    "host_files \<Rightarrow> dbg_symbols \<Rightarrow> u64 \<Rightarrow> u32 \<Rightarrow> source_item list option res" where
  "print_source_at_current_pc H syms pc lines_context =
     (if \<not> sy_has_dwarf syms then Inr None
      else res_bind (get_line_from_pc H syms pc) (\<lambda>info.
        case info of
          None \<Rightarrow> Inr None
        | Some li \<Rightarrow>
            if li_line li = 0 then Inr None
            else res_bind (print_source (hf_bytes H (li_file li)) (word_of_int (li_line li)) lines_context)
                   (\<lambda>items. Inr (print_src_file_outdated_warning (li_is_old li) items))))"

text \<open>
  \<open>print_elf_header\<close>: the labels and what stands behind them; \<open>machine_string\<close> is
  \<open>dwelf_elf_e_machine_string\<close>. The indices of \<open>e_ident\<close> are those of \<open>elf.h\<close>.
\<close>

definition current_version :: "int \<Rightarrow> bool \<Rightarrow> string" where
  "current_version version current = printf_d version @ '' '' @ (if current then ''(current)'' else [])"

definition print_elf_header :: "(u16 \<Rightarrow> string) \<Rightarrow> elf_header \<Rightarrow> (string \<times> string) list res" where
  "print_elf_header machine_string ehdr =
     (let ident = e_ident ehdr
      in if length ident < 16 then Inl OutOfBounds
         else res_bind (str_elf_filetype (e_type ehdr)) (\<lambda>filetype.
           Inr [(''Magic: '', concat (map (\<lambda>i. printf_02x (ident ! i) @ '' '') [0..<16])),
                (''Class:'', if ident ! 4 = 1 then ''ELF32'' else ''ELF64''),
                (''Data:'', ''2'' @ CHR 0x27 # ''s complement, '' @ (if ident ! 5 = 1 then ''Little Endian'' else ''Big Endian'')),
                (''Ident Version:'', current_version (sint (ident ! 6)) (ident ! 6 = 1)),
                (''OS/ABI:'', str_osabi_name (ident ! 7)),
                (''ABI Version:'', printf_d (uint (ident ! 8))),
                (''Type:'', filetype),
                (''Machine:'', machine_string (e_machine ehdr)),
                (''Version:'', current_version (sint (ucast (e_version ehdr) :: u8)) (e_version ehdr = 1)),
                (''Entry point address:'', printf_alt_lx (e_entry ehdr)),
                (''Start of program headers:'', printf_alt_lx (e_phoff ehdr)),
                (''Start of section headers:'', printf_alt_lx (e_shoff ehdr)),
                (''Size of this header:'', printf_d (uint (e_ehsize ehdr))),
                (''Size of program header entries:'', printf_d (uint (e_phentsize ehdr))),
                (''Number of program headers entries:'', printf_d (uint (e_phnum ehdr))),
                (''Size of section header entries:'', printf_d (uint (e_shentsize ehdr))),
                (''Number of section headers entries:'', printf_d (uint (e_shnum ehdr))),
                (''Section header string table index:'', printf_d (int (e_shstrndx ehdr)))]))"

text \<open>A row of \<open>print_section_headers\<close>: index, name, type, header and flag letters.\<close>

fun section_rows :: "elf_file \<Rightarrow> nat list \<Rightarrow> (nat \<times> string option \<times> string \<times> elf_section \<times> string) list res" where
  "section_rows ef [] = Inr []"
| "section_rows ef (i # is) =
     (let shdr = ef_sections ef ! i
      in res_bind (str_section_header_flag (sh_flags shdr)) (\<lambda>flagbuf.
         res_bind (section_rows ef is) (\<lambda>rows.
           Inr ((i, get_section_name_by_index ef i, str_section_header_type (sh_type shdr), shdr, flagbuf) # rows))))"

definition print_section_headers ::
    "elf_file \<Rightarrow> string option \<Rightarrow> (nat \<times> string option \<times> string \<times> elf_section \<times> string) list res" where
  "print_section_headers ef header_name =
     res_bind (get_sections ef header_name) (\<lambda>section_list. section_rows ef section_list)"

text \<open>A row of \<open>print_symbols\<close>: the name, the four decoded fields and the section.\<close>

record symbol_row =
  row_name :: "string option"
  row_type :: string
  row_bind :: string
  row_vis :: string
  row_value :: u64
  row_size :: u64
  row_section :: "string option"

fun symbol_rows :: "elf_file \<Rightarrow> nat \<Rightarrow> elf_sym list \<Rightarrow> symbol_row list res" where
  "symbol_rows ef stridx [] = Inr []"
| "symbol_rows ef stridx (sy # sys) =
     res_bind (str_symbol_type (st_info sy AND 15)) (\<lambda>type.
     res_bind (str_symbol_bind (drop_bit 4 (st_info sy))) (\<lambda>bind.
     res_bind (str_symbol_visibility (st_other sy)) (\<lambda>vis.
     res_bind (symbol_rows ef stridx sys) (\<lambda>rows.
       Inr (\<lparr>row_name = ef_strptr ef stridx (st_name sy), row_type = type, row_bind = bind,
             row_vis = vis, row_value = st_value sy, row_size = st_size sy,
             row_section = (if st_shndx sy \<noteq> 0 then get_section_name_by_index ef (st_shndx sy)
                            else Some ''UNDEF'')\<rparr> # rows)))))"

text \<open>The line above the rows: their number, or that there are none, and the name searched for.\<close>

datatype table_header = Symbols_Found nat "string option" | No_Symbols "string option"

definition print_symbols_table_header :: "nat \<Rightarrow> string option \<Rightarrow> table_header" where
  "print_symbols_table_header sym_list_size sym_name =
     (if sym_list_size \<noteq> 0 then Symbols_Found sym_list_size sym_name else No_Symbols sym_name)"

text \<open>\<open>SHT_SYMTAB\<close> is 2 and \<open>SHT_DYNSYM\<close> 11; without a string table nothing is listed.\<close>

definition print_symbols :: "dbg_symbols \<Rightarrow> string option \<Rightarrow> nat \<Rightarrow> (table_header \<times> symbol_row list) res" where
  "print_symbols syms sym_name scn =
     (let ef = sy_elf syms; ty = sh_type (ef_sections ef ! scn)
      in if ty \<noteq> 2 \<and> ty \<noteq> 11 then Inl Aborted
         else let string_table_idx =
                    (if ty = 2 then strtab_idx (sy_cache syms) else dynstr_idx (sy_cache syms))
              in res_bind (if string_table_idx = - 1 then Inr []
                           else get_symbols ef sym_name (Some scn) (nat string_table_idx)) (\<lambda>symbols_list.
                 res_bind (symbol_rows ef (nat string_table_idx) symbols_list) (\<lambda>rows.
                   Inr (print_symbols_table_header (length symbols_list) sym_name, rows))))"

text \<open>First \<open>.dynsym\<close>, then \<open>.symtab\<close>, each where the executable has it.\<close>

definition print_symbols_table ::
    "dbg_symbols \<Rightarrow> string option \<Rightarrow> (string \<times> table_header \<times> symbol_row list) list res" where
  "print_symbols_table syms sym_name =
     res_bind (case dynamic_symbol_table (sy_cache syms) of
                 None \<Rightarrow> Inr []
               | Some scn \<Rightarrow> res_bind (print_symbols syms sym_name scn) (\<lambda>t. Inr [(''.dynsym'', t)])) (\<lambda>dyn.
     res_bind (case symbol_table (sy_cache syms) of
                 None \<Rightarrow> Inr []
               | Some scn \<Rightarrow> res_bind (print_symbols syms sym_name scn) (\<lambda>t. Inr [(''.symtab'', t)])) (\<lambda>stat.
       Inr (dyn @ stat)))"

section \<open>Release\<close>

text \<open>The names and the two lists of the cache are given back, and both sessions of libdwfl end.\<close>

definition symbols_free :: "dbg_symbols \<Rightarrow> dbg_symbols" where
  "symbols_free syms =
     syms\<lparr>sy_cache := (sy_cache syms)\<lparr>funcs_list := [], file_names := []\<rparr>, sy_proc := None\<rparr>"

section \<open>Lemmas\<close>

lemma not_null_Some [simp]: "not_null (Some y) = Inr y"
  by (simp add: not_null_def)

lemma not_null_eq_Inr [simp]: "not_null x = Inr y \<longleftrightarrow> x = Some y"
  by (cases x) (auto simp: not_null_def)

end
