(* ===== verification/Debugger.thy ===== *)
theory Debugger
  imports Hashmap Breakpoint_Props Symbols
begin

text \<open>
  The debugger object of \<open>src/debugger.c\<close> and the two functions of \<open>src/stepping.c\<close> it calls
  to get past a breakpoint. The record \<open>debugger\<close> extends the stores of theory Breakpoint
  with the fields of \<open>struct Debugger\<close>. What the user sees is the list \<open>db_out\<close>, what the
  user answers to a prompt comes from \<open>db_answers\<close> (\<open>None\<close> is end of file). Allocation and
  \<open>fork\<close> are taken to succeed, as the code takes them, and \<open>execv\<close> does not return.
\<close>

section \<open>State\<close>

datatype dbg_state = ACTIVE | NOT_ACTIVE

text \<open>A slot of the argument array: \<open>calloc\<close> clears it, \<open>realloc\<close> does not.\<close>

datatype arg_slot = SNull | SStr string | SUninit

datatype message =
    Out_Exited int
  | Out_Terminated int
  | Out_No_Process
  | Out_Hit hit_message
  | Out_Unknown_Trap int
  | Out_Segfault string
  | Out_Abort
  | Out_Unhandled int
  | Out_Source "source_item list"
  | Out_Set_Breakpoint bp_data u64 u64
  | Out_No_Functions
  | Out_No_Function string
  | Out_Not_Set u64
  | Out_Killed
  | Out_Text string
  | Out_Value u64
  | Out_Frame u64 string string int
  | Out_Styled "styled list"
  | Out_Registers "(colour \<times> string \<times> u64) list"
  | Out_Header "(string \<times> string) list"
  | Out_Sections "(nat \<times> string option \<times> string \<times> elf_section \<times> string) list"
  | Out_Symbols "(string \<times> table_header \<times> symbol_row list) list"
  | Out_Breakpoints "(u64 \<times> bool \<times> u64 \<times> bp_data) list"
  | Out_Dir "(nat \<times> nat) list list"
  | Out_Function u64 "string option"
  | Out_Maps "string list"
  | Out_Help "(string \<times> string) list"
  | Out_Invalid string "string option"
  | Out_Requires string string

record debugger = bp_world +
  db_process_name :: string
  db_pid :: int
  db_args :: "arg_slot list"
  db_state :: dbg_state
  db_breakpoints :: "nat umap option"
  db_bp_locations :: "nat umap option"
  db_pending_breakpoints :: "nat list"
  db_load_address :: u64
  db_pending_signal :: int
  db_syms :: dbg_symbols
  db_out :: "message list"
  db_answers :: "string option list"

text \<open>The one-line getters, by which the other files read the debugger object.\<close>

abbreviation dbg_get_pid :: "debugger \<Rightarrow> int" where
  "dbg_get_pid \<equiv> db_pid"

abbreviation dbg_get_tracee_name :: "debugger \<Rightarrow> string" where
  "dbg_get_tracee_name \<equiv> db_process_name"

abbreviation dbg_get_load_address :: "debugger \<Rightarrow> u64" where
  "dbg_get_load_address \<equiv> db_load_address"

abbreviation dbg_get_state :: "debugger \<Rightarrow> dbg_state" where
  "dbg_get_state \<equiv> db_state"

abbreviation dbg_is_active :: "debugger \<Rightarrow> bool" where
  "dbg_is_active d \<equiv> db_state d = ACTIVE"

abbreviation dbg_get_breakpoints :: "debugger \<Rightarrow> nat umap option" where
  "dbg_get_breakpoints \<equiv> db_breakpoints"

abbreviation dbg_get_locations :: "debugger \<Rightarrow> nat umap option" where
  "dbg_get_locations \<equiv> db_bp_locations"

abbreviation dbg_get_symbols :: "debugger \<Rightarrow> dbg_symbols" where
  "dbg_get_symbols \<equiv> db_syms"

abbreviation dbg_get_pending_list :: "debugger \<Rightarrow> nat list" where
  "dbg_get_pending_list \<equiv> db_pending_breakpoints"

text \<open>The world around the debugger: the debugged program and the file system.\<close>

record system =
  sys_program :: program_env
  sys_files :: host_files

definition say :: "message \<Rightarrow> debugger \<Rightarrow> debugger" where
  "say e d = d\<lparr>db_out := db_out d @ [e]\<rparr>"

definition ask :: "debugger \<Rightarrow> string option \<times> debugger" where
  "ask d = (case db_answers d of [] \<Rightarrow> (None, d) | a # as \<Rightarrow> (a, d\<lparr>db_answers := as\<rparr>))"

section \<open>Creation and arguments\<close>

definition MAP_SIZE :: u32 where "MAP_SIZE = 1024"
definition MAX_ARGS :: nat where "MAX_ARGS = 50"

text \<open>
  \<open>dbg_init\<close>; the tracee, the counter and the stores are those of a fresh program.
\<close>

definition dbg_init :: "system \<Rightarrow> tracee \<Rightarrow> string option list \<Rightarrow> string \<Rightarrow> debugger option res" where
  "dbg_init S t answers pname =
     res_bind (symbols_init (sys_files S) pname) (\<lambda>syms.
       case syms of
         None \<Rightarrow> Inr None
       | Some sy \<Rightarrow>
           res_bind (map_init MAP_SIZE) (\<lambda>m.
             Inr (Some \<lparr>w_tracee = t, w_id_counter = 1, w_bps = (\<lambda>_. None), w_locs = (\<lambda>_. None),
                        w_next = 1, db_process_name = pname, db_pid = 0,
                        db_args = SStr pname # replicate (MAX_ARGS - 1) SNull,
                        db_state = NOT_ACTIVE, db_breakpoints = m, db_bp_locations = None,
                        db_pending_breakpoints = [], db_load_address = 0, db_pending_signal = 0,
                        db_syms = sy, db_out = [], db_answers = answers\<rparr>)))"

fun clear_args :: "arg_slot list \<Rightarrow> arg_slot list res" where
  "clear_args [] = Inl OutOfBounds"
| "clear_args (SNull # slots) = Inr (SNull # slots)"
| "clear_args (SUninit # slots) = Inl UninitRead"
| "clear_args (SStr s # slots) = res_bind (clear_args slots) (\<lambda>slots'. Inr (SNull # slots'))"

fun append_args :: "arg_slot list \<Rightarrow> nat \<Rightarrow> string list \<Rightarrow> arg_slot list" where
  "append_args slots i [] = slots"
| "append_args slots i (a # as) =
     (let slots1 = (if i = length slots then slots @ replicate i SUninit else slots)
      in append_args (slots1[i := SStr a]) (Suc i) as)"

text \<open>\<open>args_list\<close> has the name of the command in front.\<close>

definition add_arguments_for_tracee :: "string list \<Rightarrow> debugger \<Rightarrow> debugger res" where
  "add_arguments_for_tracee args_list d =
     res_bind (clear_args (tl (db_args d))) (\<lambda>slots.
       Inr (d\<lparr>db_args := append_args (hd (db_args d) # slots) 1 (tl args_list)\<rparr>))"

text \<open>What \<open>execv\<close> and \<open>dbg_free\<close> read: the strings before the null pointer.\<close>

fun read_args :: "arg_slot list \<Rightarrow> string list res" where
  "read_args [] = Inl OutOfBounds"
| "read_args (SNull # slots) = Inr []"
| "read_args (SUninit # slots) = Inl UninitRead"
| "read_args (SStr s # slots) = res_bind (read_args slots) (\<lambda>ss. Inr (s # ss))"

section \<open>Enabling and disabling everything\<close>

definition enable_all_breakpoints :: "debugger \<Rightarrow> debugger res" where
  "enable_all_breakpoints d = res_fold bp_enable (db_pending_breakpoints d) d"

definition disable_all_breakpoints :: "debugger \<Rightarrow> debugger res" where
  "disable_all_breakpoints d = res_fold bp_disable (db_pending_breakpoints d) d"

section \<open>The death of the tracee\<close>

definition cleanup_at_tracee_death :: "debugger \<Rightarrow> debugger res" where
  "cleanup_at_tracee_death d =
     res_bind (map_free (Some loc_free) (db_bp_locations d) d) (\<lambda>d1.
       Inr (d1\<lparr>db_state := NOT_ACTIVE, db_bp_locations := None, db_load_address := 0\<rparr>))"

definition kill_tracee :: "debugger \<Rightarrow> debugger res" where
  "kill_tracee d =
     res_bind (waitpid (ptrace_kill (w_tracee d) (db_pid d)) (db_pid d)) (\<lambda>(_, t).
       cleanup_at_tracee_death (d\<lparr>w_tracee := t\<rparr>))"

section \<open>Signals\<close>

definition show_source :: "system \<Rightarrow> u64 \<Rightarrow> debugger \<Rightarrow> debugger res" where
  "show_source S pc d =
     res_bind (print_source_at_current_pc (sys_files S) (db_syms d) pc 3) (\<lambda>out.
       Inr (case out of None \<Rightarrow> d | Some items \<Rightarrow> say (Out_Source items) d))"

text \<open>\<open>SI_KERNEL\<close> is \<open>0x80\<close>, \<open>TRAP_BRKPT\<close> 1 and \<open>TRAP_TRACE\<close> 2.\<close>

definition handle_sigtrap :: "system \<Rightarrow> int \<Rightarrow> debugger \<Rightarrow> debugger res" where
  "handle_sigtrap S si_code d =
     (if si_code = 0 then Inr d
      else if si_code = 0x80 \<or> si_code = 1 then
        res_bind (get_pc (w_tracee d) (db_pid d)) (\<lambda>pc0.
          let pc = pc0 - 1
          in res_bind (map_lookup (db_bp_locations d) pc) (\<lambda>loc.
             res_bind (set_pc (w_tracee d) (db_pid d) pc) (\<lambda>t.
             let d1 = d\<lparr>w_tracee := t\<rparr>
             in res_bind (print_bp_hit_message_at_loc loc d1) (\<lambda>msg.
                show_source S pc (case msg of None \<Rightarrow> d1 | Some m \<Rightarrow> say (Out_Hit m) d1)))))
      else if si_code = 2 then Inr d
      else Inr (say (Out_Unknown_Trap si_code) d))"

text \<open>\<open>PTRACE_GETSIGINFO\<close> gives the signal and its code where the tracee is stopped, and fails otherwise.\<close>

definition get_signal_info :: "debugger \<Rightarrow> (int \<times> int) res" where
  "get_signal_info d =
     (case t_run (w_tracee d) of
        Stopped signo code \<Rightarrow> if t_pid (w_tracee d) = db_pid d then Inr (signo, code) else Inl Aborted
      | _ \<Rightarrow> Inl Aborted)"

text \<open>
  Signal numbers: \<open>SIGTRAP\<close> 5, \<open>SIGABRT\<close> 6, \<open>SIGSEGV\<close> 11, \<open>SIGALRM\<close> 14, \<open>SIGCHLD\<close> 17,
  \<open>SIGURG\<close> 23, \<open>SIGWINCH\<close> 28.
\<close>

definition wait_for_signal :: "system \<Rightarrow> debugger \<Rightarrow> debugger res" where
  "wait_for_signal S d =
     res_bind (waitpid (w_tracee d) (db_pid d)) (\<lambda>(status, t).
       let d1 = d\<lparr>w_tracee := t\<rparr>
       in case status of
            None \<Rightarrow> Inr (say Out_No_Process d1)
          | Some (WExited code) \<Rightarrow> cleanup_at_tracee_death (say (Out_Exited code) d1)
          | Some (WSignaled sig) \<Rightarrow> cleanup_at_tracee_death (say (Out_Terminated sig) d1)
          | Some (WStopped _ _) \<Rightarrow>
              res_bind (get_signal_info d1) (\<lambda>(signo, code).
              if signo = 5 then handle_sigtrap S code d1
              else if signo = 11 then
                res_bind (get_pc (w_tracee d1) (db_pid d1)) (\<lambda>pc.
                res_bind (show_source S pc (say (Out_Segfault (str_sigsegv_code code)) d1)) (\<lambda>d2.
                  Inr (d2\<lparr>db_pending_signal := signo\<rparr>)))
              else if signo = 6 then Inr ((say Out_Abort d1)\<lparr>db_pending_signal := signo\<rparr>)
              else if signo \<in> {28, 17, 23, 14} then
                Inr (d1\<lparr>w_tracee := ptrace_cont (sys_program S) (w_tracee d1) (db_pid d1) signo\<rparr>)
              else Inr (say (Out_Unhandled signo) d1)))"

section \<open>Getting past a breakpoint\<close>

definition single_step_instruction :: "system \<Rightarrow> debugger \<Rightarrow> debugger res" where
  "single_step_instruction S d =
     wait_for_signal S (d\<lparr>w_tracee := ptrace_singlestep (sys_program S) (w_tracee d) (db_pid d)\<rparr>)"

definition execute_step_over_loc :: "system \<Rightarrow> nat option \<Rightarrow> debugger \<Rightarrow> debugger res" where
  "execute_step_over_loc S loc d =
     (case loc of
        None \<Rightarrow> Inr d
      | Some l \<Rightarrow>
          res_bind (deref (w_locs d) l) (\<lambda>L.
            if loc_is_patched L
            then res_bind (loc_disable l d) (\<lambda>d1.
                 res_bind (single_step_instruction S d1) (\<lambda>d2.
                   loc_enable l d2))
            else Inr d))"

definition step_over_breakpoint :: "system \<Rightarrow> debugger \<Rightarrow> debugger res" where
  "step_over_breakpoint S d =
     res_bind (get_pc (w_tracee d) (db_pid d)) (\<lambda>pc.
     res_bind (map_lookup (db_bp_locations d) pc) (\<lambda>loc.
       execute_step_over_loc S loc d))"

definition continue_execution :: "system \<Rightarrow> debugger \<Rightarrow> debugger res" where
  "continue_execution S d =
     res_bind (c_assert (db_state d = ACTIVE) d) (\<lambda>d.
     res_bind (step_over_breakpoint S d) (\<lambda>d1.
       let sig = db_pending_signal d1
       in wait_for_signal S (d1\<lparr>w_tracee := ptrace_cont (sys_program S) (w_tracee d1) (db_pid d1) sig,
                               db_pending_signal := 0\<rparr>)))"

section \<open>Starting the tracee\<close>

definition resolve_one :: "nat \<Rightarrow> debugger \<Rightarrow> debugger res" where
  "resolve_one p d =
     res_bind (bp_get_instr_addr p d) (\<lambda>instr_addr.
       let running_addr = instr_addr + db_load_address d
       in res_bind (map_lookup (db_bp_locations d) running_addr) (\<lambda>found.
            case found of
              Some l \<Rightarrow> loc_append_breakpoint_to_list l p d
            | None \<Rightarrow>
                res_bind (loc_init (db_pid d) running_addr (Some p) False d) (\<lambda>(l, d1).
                res_bind (map_insert (db_bp_locations d1) running_addr (Some l)) (\<lambda>(ok, m).
                  if \<not> ok then Inl Aborted else Inr (d1\<lparr>db_bp_locations := m\<rparr>)))))"

definition resolve_pending_breakpoints :: "debugger \<Rightarrow> debugger res" where
  "resolve_pending_breakpoints d =
     res_bind (c_assert (db_bp_locations d = None) d) (\<lambda>d.
     res_bind (map_init MAP_SIZE) (\<lambda>m.
       res_fold resolve_one (db_pending_breakpoints d) (d\<lparr>db_bp_locations := m\<rparr>)))"

definition spawn_tracee :: "system \<Rightarrow> debugger \<Rightarrow> debugger res" where
  "spawn_tracee S d =
     res_bind (read_args (db_args d)) (\<lambda>argv.
       let t = env_spawn (sys_program S) (db_process_name d) argv
       in res_bind (wait_for_signal S (d\<lparr>w_tracee := t, db_pid := t_pid t\<rparr>)) (\<lambda>d1.
          res_bind (initialize_load_address (sys_program S) (w_tracee d1) (db_syms d1)) (\<lambda>load_address.
          res_bind (resolve_pending_breakpoints (d1\<lparr>db_state := ACTIVE, db_load_address := load_address\<rparr>)) (\<lambda>d2.
          res_bind (setup_dwfl (db_syms d2) (db_pid d2)) (\<lambda>syms.
            continue_execution S (d2\<lparr>db_syms := syms\<rparr>))))))"

definition starts_with_y :: "string option \<Rightarrow> bool" where
  "starts_with_y ans \<longleftrightarrow> (\<exists>rest. ans = Some (CHR ''y'' # rest))"

lemma starts_with_y_code [code, simp]:
  "starts_with_y None = False" "starts_with_y (Some []) = False"
  "starts_with_y (Some (c # cs)) = (c = CHR ''y'')"
  by (auto simp: starts_with_y_def)

definition run :: "system \<Rightarrow> debugger \<Rightarrow> debugger res" where
  "run S d =
     (if db_state d = ACTIVE
      then (case ask d of (ans, d1) \<Rightarrow>
              if starts_with_y ans then res_bind (kill_tracee d1) (spawn_tracee S) else Inr d1)
      else spawn_tracee S d)"

definition restart :: "system \<Rightarrow> debugger \<Rightarrow> debugger res" where
  "restart S d = res_bind (kill_tracee d) (spawn_tracee S)"

section \<open>Setting breakpoints\<close>

definition get_breakpoint_by_id :: "debugger \<Rightarrow> u64 \<Rightarrow> nat option res" where
  "get_breakpoint_by_id d i = map_lookup (db_breakpoints d) i"

definition add_and_set_bp_for_running_tracee :: "u64 \<Rightarrow> nat \<Rightarrow> debugger \<Rightarrow> debugger res" where
  "add_and_set_bp_for_running_tracee instr_addr p d =
     (if db_state d = NOT_ACTIVE then Inr d
      else let running_addr = instr_addr + db_load_address d
           in res_bind (map_lookup (db_bp_locations d) running_addr) (\<lambda>found.
                case found of
                  None \<Rightarrow>
                    res_bind (loc_init (db_pid d) running_addr (Some p) False d) (\<lambda>(l, d1).
                    res_bind (map_insert (db_bp_locations d1) running_addr (Some l)) (\<lambda>(ok, m).
                      Inr (d1\<lparr>db_bp_locations := m\<rparr>)))
                | Some l \<Rightarrow> loc_append_breakpoint_to_list l p d))"

text \<open>
  The part the three functions share: the new breakpoint enters the list and the map, is
  announced unless \<open>quiet\<close>, and is set in a running tracee.
\<close>

definition install_breakpoint :: "bp_data \<Rightarrow> u64 \<Rightarrow> bool \<Rightarrow> debugger \<Rightarrow> debugger res" where
  "install_breakpoint data instr_addr quiet d =
     (case bp_init data instr_addr d of (p, d1) \<Rightarrow>
        let d2 = d1\<lparr>db_pending_breakpoints := add_breakpoint_as_pending (db_pending_breakpoints d1) p\<rparr>
        in res_bind (bp_get_id p d2) (\<lambda>i.
           res_bind (map_insert (db_breakpoints d2) i (Some p)) (\<lambda>(_, m).
             let d3 = d2\<lparr>db_breakpoints := m\<rparr>
             in add_and_set_bp_for_running_tracee instr_addr p
                  (if quiet then d3 else say (Out_Set_Breakpoint data instr_addr i) d3))))"

definition set_breakpoint_at_addr :: "u64 \<Rightarrow> bool \<Rightarrow> debugger \<Rightarrow> debugger res" where
  "set_breakpoint_at_addr instr_addr quiet d = install_breakpoint BP_ADDR instr_addr quiet d"

definition set_breakpoint_at_func_symbol :: "string \<Rightarrow> debugger \<Rightarrow> debugger res" where
  "set_breakpoint_at_func_symbol symbol_name d =
     (let functions = get_valid_func_symbols (db_syms d)
      in if functions = [] then Inr (say Out_No_Functions d)
         else res_bind
                (res_fold (\<lambda>f d. if fe_name f \<noteq> symbol_name then Inr d
                                 else install_breakpoint (BP_SYMBOL symbol_name) (fe_addr f) False d)
                   functions d) (\<lambda>d1.
                Inr (if \<exists>f \<in> set functions. fe_name f = symbol_name then d1
                     else say (Out_No_Function symbol_name) d1)))"

definition set_breakpoint_at_lineno :: "string option \<Rightarrow> int \<Rightarrow> debugger \<Rightarrow> debugger res" where
  "set_breakpoint_at_lineno filename lineno d =
     res_bind
       (if filename = None \<and> db_state d = ACTIVE
        then res_bind (get_pc (w_tracee d) (db_pid d)) (\<lambda>pc.
             res_bind (get_cudie_from_pc (db_syms d) pc) (\<lambda>cudie.
               Inr (case cudie of
                      None \<Rightarrow> None
                    | Some cu \<Rightarrow> map_option Some (cu_name cu))))
        else Inr (Some filename)) (\<lambda>target.
       case target of
         None \<Rightarrow> Inr d
       | Some file \<Rightarrow>
           res_bind (get_addr_from_lineno (db_syms d) file lineno) (\<lambda>(instr_addr, file').
             if instr_addr = 0 then Inr d
             else res_bind (not_null file') (\<lambda>f.
                    install_breakpoint (BP_LINENO f lineno) instr_addr False d)))"

section \<open>Temporary locations\<close>

definition set_temp_bp_location :: "u64 \<Rightarrow> debugger \<Rightarrow> (bool \<times> debugger) res" where
  "set_temp_bp_location running_addr d =
     res_bind (c_assert (db_state d = ACTIVE) d) (\<lambda>d.
     res_bind (loc_init (db_pid d) running_addr None True d) (\<lambda>(l, d1).
     res_bind (map_insert (db_bp_locations d1) running_addr (Some l)) (\<lambda>(ok, m).
       if \<not> ok then res_bind (loc_free l d1) (\<lambda>d2. Inr (False, d2))
       else Inr (True, d1\<lparr>db_bp_locations := m\<rparr>))))"

definition unset_temp_bp_location :: "u64 \<Rightarrow> debugger \<Rightarrow> debugger res" where
  "unset_temp_bp_location running_addr d =
     res_bind (c_assert (db_state d = ACTIVE) d) (\<lambda>d.
     res_bind (map_lookup (db_bp_locations d) running_addr) (\<lambda>loc.
       case loc of
         None \<Rightarrow> Inr (say (Out_Not_Set running_addr) d)
       | Some _ \<Rightarrow>
           res_bind (map_delete (Some loc_free) (db_bp_locations d) running_addr d) (\<lambda>(m, d1).
             Inr (d1\<lparr>db_bp_locations := m\<rparr>))))"

section \<open>Leaving and removing\<close>

definition dbg_kill_tracee :: "debugger \<Rightarrow> (bool \<times> debugger) res" where
  "dbg_kill_tracee d =
     (if db_state d = ACTIVE \<and> kill0 (w_tracee d) (db_pid d)
      then (case ask d of (ans, d1) \<Rightarrow>
              if ans = None \<or> starts_with_y ans
              then res_bind (kill_tracee d1) (\<lambda>d2. Inr (True, say Out_Killed d2))
              else Inr (False, d1))
      else Inr (True, d))"

text \<open>\<open>map_delete(dbg->breakpoints, bp_get_id(bp))\<close>.\<close>

definition delete_from_map :: "nat \<Rightarrow> debugger \<Rightarrow> debugger res" where
  "delete_from_map p d =
     res_bind (bp_get_id p d) (\<lambda>i.
     res_bind (map_delete (Some bp_free) (db_breakpoints d) i d) (\<lambda>(m, d1).
       Inr (d1\<lparr>db_breakpoints := m\<rparr>)))"

definition remove_breakpoint :: "nat \<Rightarrow> debugger \<Rightarrow> debugger res" where
  "remove_breakpoint p d = delete_from_map p
     (d\<lparr>db_pending_breakpoints := delete_breakpoint_from_pending (db_pending_breakpoints d) p\<rparr>)"

definition remove_one :: "nat \<Rightarrow> debugger \<Rightarrow> debugger res" where
  "remove_one p d =
     res_bind (bp_get_instr_addr p d) (\<lambda>instr_addr.
       let d1 = d\<lparr>db_pending_breakpoints := delete_breakpoint_from_pending (db_pending_breakpoints d) p\<rparr>
       in res_bind (map_delete (Some loc_free) (db_bp_locations d1) (instr_addr + db_load_address d) d1)
            (\<lambda>(m, d2). delete_from_map p (d2\<lparr>db_bp_locations := m\<rparr>)))"

definition remove_all_breakpoints :: "debugger \<Rightarrow> debugger res" where
  "remove_all_breakpoints d = res_fold remove_one (db_pending_breakpoints d) d"

definition dbg_free :: "debugger \<Rightarrow> debugger res" where
  "dbg_free d =
     res_bind (map_free (Some bp_free) (db_breakpoints d) d) (\<lambda>d1.
     res_bind (c_assert (db_bp_locations d1 = None) d1) (\<lambda>d1.
     res_bind (read_args (tl (db_args d1))) (\<lambda>_. Inr (d1\<lparr>db_syms := symbols_free (db_syms d1)\<rparr>))))"

end
