(* ===== verification/Debugger_Inv.thy ===== *)
theory Debugger_Inv
  imports Debugger
begin

text \<open>
  The invariants of the debugger object. \<open>idle_ok\<close> describes it without a tracee and
  \<open>session_ok\<close> with a stopped one; both include \<open>core_ok\<close>, which ties the list, the map
  and the store of breakpoints together. The lemmas lift the operations of theory
  Breakpoint to the maps.
\<close>

section \<open>Invariants\<close>

definition maps_ok :: "debugger \<Rightarrow> bool" where
  "maps_ok d \<longleftrightarrow> map_ok (db_breakpoints d) \<and>
     (\<forall>i p. map_abs (db_breakpoints d) i = Some p \<longleftrightarrow> (\<exists>b. w_bps d p = Some b \<and> b_id b = i)) \<and>
     distinct (db_pending_breakpoints d) \<and>
     set (db_pending_breakpoints d) = {p. w_bps d p \<noteq> None} \<and>
     (\<forall>p b. w_bps d p = Some b \<longrightarrow> b_id b < w_id_counter d)"

definition core_ok :: "debugger \<Rightarrow> bool" where
  "core_ok d \<longleftrightarrow> heap_ok d \<and> maps_ok d"

text \<open>The map of locations holds every location under its address.\<close>

definition locs_mapped :: "debugger \<Rightarrow> bool" where
  "locs_mapped d \<longleftrightarrow> map_ok (db_bp_locations d) \<and>
     (\<forall>a l. map_abs (db_bp_locations d) a = Some l \<longleftrightarrow>
        (\<exists>L. w_locs d l = Some L \<and> l_running_addr L = a))"

text \<open>Breakpoint \<open>b\<close> sits at the location for its address.\<close>

definition located :: "debugger \<Rightarrow> breakpoint \<Rightarrow> bool" where
  "located d b \<longleftrightarrow> (\<exists>l L. b_location b = Some l \<and> w_locs d l = Some L \<and>
     l_running_addr L = b_instr_addr b + db_load_address d)"

definition idle_ok :: "debugger \<Rightarrow> bool" where
  "idle_ok d \<longleftrightarrow> core_ok d \<and> db_state d = NOT_ACTIVE \<and> db_bp_locations d = None \<and>
     w_locs d = (\<lambda>_. None) \<and> db_load_address d = 0"

definition attached :: "(u64 \<Rightarrow> u8 option) \<Rightarrow> debugger \<Rightarrow> bool" where
  "attached orig d \<longleftrightarrow> core_ok d \<and> patch_ok orig d \<and> db_state d = ACTIVE \<and>
     db_pid d = t_pid (w_tracee d) \<and> db_pid d \<noteq> 0 \<and> locs_mapped d"

definition session_ok :: "(u64 \<Rightarrow> u8 option) \<Rightarrow> debugger \<Rightarrow> bool" where
  "session_ok orig d \<longleftrightarrow> attached orig d \<and> (\<forall>p b. w_bps d p = Some b \<longrightarrow> located d b)"

section \<open>Frames\<close>

lemma more_fields:
  assumes "bp_world.more d' = bp_world.more d"
  shows "db_process_name d' = db_process_name d" "db_pid d' = db_pid d" "db_args d' = db_args d"
    "db_state d' = db_state d" "db_breakpoints d' = db_breakpoints d"
    "db_bp_locations d' = db_bp_locations d" "db_pending_breakpoints d' = db_pending_breakpoints d"
    "db_load_address d' = db_load_address d" "db_pending_signal d' = db_pending_signal d"
    "db_syms d' = db_syms d" "db_out d' = db_out d" "db_answers d' = db_answers d"
  using assms by (cases d; cases d'; simp)+

definition bp_core :: "breakpoint \<Rightarrow> u64 \<times> bp_data \<times> bool \<times> u64" where
  "bp_core b = (b_id b, b_data b, b_enable b, b_instr_addr b)"

definition same_bps :: "'a bp_world_scheme \<Rightarrow> 'a bp_world_scheme \<Rightarrow> bool" where
  "same_bps w w' \<longleftrightarrow> (\<forall>p. map_option bp_core (w_bps w' p) = map_option bp_core (w_bps w p))"

lemma same_bps_refl [simp]: "same_bps w w"
  by (simp add: same_bps_def)

lemma same_bps_trans: "same_bps u v \<Longrightarrow> same_bps v w \<Longrightarrow> same_bps u w"
  by (simp add: same_bps_def)

lemma same_bps_ids:
  assumes "same_bps w w'"
  shows "(\<exists>b. w_bps w' p = Some b \<and> b_id b = i) \<longleftrightarrow> (\<exists>b. w_bps w p = Some b \<and> b_id b = i)"
    "w_bps w' p = None \<longleftrightarrow> w_bps w p = None"
proof -
  have e: "map_option bp_core (w_bps w' p) = map_option bp_core (w_bps w p)"
    using assms by (simp add: same_bps_def)
  then show "w_bps w' p = None \<longleftrightarrow> w_bps w p = None" by (metis map_option_is_None)
  show "(\<exists>b. w_bps w' p = Some b \<and> b_id b = i) \<longleftrightarrow> (\<exists>b. w_bps w p = Some b \<and> b_id b = i)"
    using e by (cases "w_bps w' p"; cases "w_bps w p") (auto simp: bp_core_def)
qed

lemma maps_ok_cong:
  assumes "same_bps d d'" "w_id_counter d' = w_id_counter d" "db_breakpoints d' = db_breakpoints d"
    "db_pending_breakpoints d' = db_pending_breakpoints d"
  shows "maps_ok d' = maps_ok d"
proof -
  have "(\<forall>p b. w_bps d' p = Some b \<longrightarrow> b_id b < c) \<longleftrightarrow> (\<forall>p b. w_bps d p = Some b \<longrightarrow> b_id b < c)" for c
    using same_bps_ids(1)[OF assms(1)] by metis
  then show ?thesis
    using assms(2-) unfolding maps_ok_def by (simp add: same_bps_ids[OF assms(1)])
qed

lemma ids_unique:
  assumes "maps_ok d" "w_bps d p = Some b" "w_bps d q = Some c" "b_id b = b_id c"
  shows "p = q"
proof -
  have "map_abs (db_breakpoints d) (b_id b) = Some p" "map_abs (db_breakpoints d) (b_id b) = Some q"
    using assms unfolding maps_ok_def by metis+
  then show ?thesis by simp
qed

lemma rest_same_more: "rest_same w w' \<Longrightarrow> bp_world.more w' = bp_world.more w"
  by (simp add: rest_same_def)

section \<open>Freeing locations through the map\<close>

lemma same_bps_without_loc [simp]: "same_bps w (without_loc l m w)"
proof -
  have "bp_core (clear_of l b) = bp_core b" for b by (simp add: bp_core_def)
  then show ?thesis by (simp add: same_bps_def option.map_comp comp_def)
qed

lemma free_locs_fold:
  assumes "heap_ok w" "distinct ls" "\<forall>l \<in> set ls. w_locs w l \<noteq> None"
  shows "\<exists>w'. res_fold loc_free ls w = Inr w' \<and> heap_ok w' \<and> rest_same w w' \<and> same_bps w w' \<and>
    w_next w' = w_next w \<and> w_locs w' = (\<lambda>l. if l \<in> set ls then None else w_locs w l) \<and>
    (\<forall>orig. patch_ok orig w \<longrightarrow> patch_ok orig w')"
  using assms
proof (induction ls arbitrary: w)
  case (Cons l ls)
  obtain L where L: "w_locs w l = Some L" using Cons.prems by auto
  obtain m where m: "loc_free l w = Inr (without_loc l m w)"
    using loc_free_heap[OF Cons.prems(1) L] by blast
  have keep: "patch_ok orig (without_loc l m w)" if "patch_ok orig w" for orig
    using loc_free_ok[of orig w l L] that Cons.prems(1) L m by (auto simp: world_ok_def)
  let ?w1 = "without_loc l m w"
  obtain w' where w': "res_fold loc_free ls ?w1 = Inr w'" "heap_ok w'" "rest_same ?w1 w'"
    "same_bps ?w1 w'" "w_next w' = w_next ?w1"
    "w_locs w' = (\<lambda>k. if k \<in> set ls then None else w_locs ?w1 k)"
    "\<forall>orig. patch_ok orig ?w1 \<longrightarrow> patch_ok orig w'"
    using Cons.IH[of ?w1] Cons.prems heap_ok_without_loc[OF Cons.prems(1)] by fastforce
  have "rest_same w w'" "same_bps w w'"
    using w'(3,4) rest_same_trans same_bps_trans rest_same_without_loc same_bps_without_loc by blast+
  moreover have "w_locs w' = (\<lambda>k. if k \<in> set (l # ls) then None else w_locs w k)"
    using w'(6) by (auto simp: fun_eq_iff)
  ultimately show ?case
    using w' m keep by (intro exI[of _ w']) simp
qed simp

lemma free_all_locs:
  assumes "heap_ok d" "locs_mapped d"
  shows "\<exists>d'. map_free (Some loc_free) (db_bp_locations d) d = Inr d' \<and> heap_ok d' \<and> rest_same d d' \<and>
    same_bps d d' \<and> w_next d' = w_next d \<and> w_locs d' = (\<lambda>_. None)"
proof -
  obtain es where es: "distinct (map fst es)" "map_of es = map_abs (db_bp_locations d)"
    "map_free (Some loc_free) (db_bp_locations d) d = res_fold (\<lambda>e. call_cleanup (Some loc_free) (snd e)) es d"
    using hm.free_law[of "db_bp_locations d"] assms(2) unfolding locs_mapped_def by metis
  have at: "(a, l) \<in> set es \<longleftrightarrow> (\<exists>L. w_locs d l = Some L \<and> l_running_addr L = a)" for a l
    using es(1,2) assms(2) unfolding locs_mapped_def by (metis map_of_eq_Some_iff)
  have "res_fold (\<lambda>e. call_cleanup (Some loc_free) (snd e)) fs w = res_fold loc_free (map snd fs) w"
    for fs :: "(u64 \<times> nat) list" and w :: debugger
  proof (induction fs arbitrary: w)
    case (Cons f fs)
    then show ?case by (cases "loc_free (snd f) w") (simp_all add: call_cleanup_def)
  qed simp
  moreover have "distinct (map snd es)"
  proof -
    have "inj_on snd (set es)"
    proof (rule inj_onI)
      fix x y assume xy: "x \<in> set es" "y \<in> set es" "snd x = snd y"
      obtain L K where "w_locs d (snd x) = Some L" "l_running_addr L = fst x"
        "w_locs d (snd y) = Some K" "l_running_addr K = fst y"
        using xy(1,2) at[of "fst x" "snd x"] at[of "fst y" "snd y"] by auto
      with xy(3) show "x = y" by (simp add: prod_eq_iff)
    qed
    moreover have "distinct es" using es(1) by (simp add: distinct_map)
    ultimately show ?thesis by (simp add: distinct_map)
  qed
  moreover have dom: "set (map snd es) = {l. w_locs d l \<noteq> None}"
  proof (intro set_eqI iffI)
    fix l assume "l \<in> {l. w_locs d l \<noteq> None}"
    then obtain L where "w_locs d l = Some L" by auto
    then have "(l_running_addr L, l) \<in> set es" using at by auto
    then show "l \<in> set (map snd es)" by force
  qed (use at in auto)
  ultimately show ?thesis
    using free_locs_fold[OF assms(1), of "map snd es"] es(3) by (auto simp: fun_eq_iff)
qed

section \<open>Updates of the debugger's own fields\<close>

lemma heap_ok_db [simp]:
  "heap_ok (d\<lparr>db_pid := x1\<rparr>) = heap_ok (d :: debugger)"
  "heap_ok (d\<lparr>db_state := x2\<rparr>) = heap_ok d"
  "heap_ok (d\<lparr>db_breakpoints := x3\<rparr>) = heap_ok d"
  "heap_ok (d\<lparr>db_bp_locations := x4\<rparr>) = heap_ok d"
  "heap_ok (d\<lparr>db_pending_breakpoints := x5\<rparr>) = heap_ok d"
  "heap_ok (d\<lparr>db_load_address := x6\<rparr>) = heap_ok d"
  "heap_ok (d\<lparr>db_pending_signal := x7\<rparr>) = heap_ok d"
  "heap_ok (d\<lparr>db_syms := x8\<rparr>) = heap_ok d"
  "heap_ok (d\<lparr>db_out := x9\<rparr>) = heap_ok d"
  "heap_ok (d\<lparr>w_tracee := t\<rparr>) = heap_ok d"
  by (rule heap_ok_cong; simp)+

lemma patch_ok_db [simp]:
  "patch_ok orig (d\<lparr>db_pid := x1\<rparr>) = patch_ok orig (d :: debugger)"
  "patch_ok orig (d\<lparr>db_state := x2\<rparr>) = patch_ok orig d"
  "patch_ok orig (d\<lparr>db_breakpoints := x3\<rparr>) = patch_ok orig d"
  "patch_ok orig (d\<lparr>db_bp_locations := x4\<rparr>) = patch_ok orig d"
  "patch_ok orig (d\<lparr>db_pending_breakpoints := x5\<rparr>) = patch_ok orig d"
  "patch_ok orig (d\<lparr>db_load_address := x6\<rparr>) = patch_ok orig d"
  "patch_ok orig (d\<lparr>db_pending_signal := x7\<rparr>) = patch_ok orig d"
  "patch_ok orig (d\<lparr>db_syms := x8\<rparr>) = patch_ok orig d"
  "patch_ok orig (d\<lparr>db_out := x9\<rparr>) = patch_ok orig d"
  by (rule patch_ok_cong; simp)+

lemma maps_ok_db [simp]:
  "maps_ok (d\<lparr>db_pid := x1\<rparr>) = maps_ok d"
  "maps_ok (d\<lparr>db_state := x2\<rparr>) = maps_ok d"
  "maps_ok (d\<lparr>db_bp_locations := x4\<rparr>) = maps_ok d"
  "maps_ok (d\<lparr>db_load_address := x6\<rparr>) = maps_ok d"
  "maps_ok (d\<lparr>db_pending_signal := x7\<rparr>) = maps_ok d"
  "maps_ok (d\<lparr>db_syms := x8\<rparr>) = maps_ok d"
  "maps_ok (d\<lparr>db_out := x9\<rparr>) = maps_ok d"
  "maps_ok (d\<lparr>w_tracee := t\<rparr>) = maps_ok d"
  by (simp_all add: maps_ok_def)

lemma patch_on_db [simp]:
  "patch_on (d\<lparr>db_bp_locations := x4\<rparr>) k = patch_on (d :: debugger) k"
  "patch_on (d\<lparr>db_breakpoints := x3\<rparr>) k = patch_on d k"
  "patch_on (d\<lparr>db_pending_breakpoints := x5\<rparr>) k = patch_on d k"
  "patch_on (d\<lparr>db_out := x9\<rparr>) k = patch_on d k"
  by (simp_all add: patch_on_def)

lemma locs_mapped_db [simp]:
  "locs_mapped (d\<lparr>db_breakpoints := x3\<rparr>) = locs_mapped d"
  "locs_mapped (d\<lparr>db_pending_breakpoints := x5\<rparr>) = locs_mapped d"
  "locs_mapped (d\<lparr>db_out := x9\<rparr>) = locs_mapped d"
  "locs_mapped (d\<lparr>db_pending_signal := x7\<rparr>) = locs_mapped d"
  "locs_mapped (d\<lparr>w_tracee := t\<rparr>) = locs_mapped d"
  by (simp_all add: locs_mapped_def)

lemma say_sel [simp]:
  "w_tracee (say e d) = w_tracee d" "w_bps (say e d) = w_bps d" "w_locs (say e d) = w_locs d"
  "w_next (say e d) = w_next d" "w_id_counter (say e d) = w_id_counter d"
  "db_pid (say e d) = db_pid d" "db_state (say e d) = db_state d"
  "db_breakpoints (say e d) = db_breakpoints d" "db_bp_locations (say e d) = db_bp_locations d"
  "db_pending_breakpoints (say e d) = db_pending_breakpoints d"
  "db_load_address (say e d) = db_load_address d" "db_pending_signal (say e d) = db_pending_signal d"
  "db_syms (say e d) = db_syms d" "db_args (say e d) = db_args d"
  by (simp_all add: say_def)

lemma inv_say [simp]:
  "heap_ok (say e d) = heap_ok d" "patch_ok orig (say e d) = patch_ok orig d"
  "maps_ok (say e d) = maps_ok d" "core_ok (say e d) = core_ok d"
  "locs_mapped (say e d) = locs_mapped d" "located (say e d) b = located d b"
  "attached orig (say e d) = attached orig d" "session_ok orig (say e d) = session_ok orig d"
  "idle_ok (say e d) = idle_ok d" "patch_on (say e d) k = patch_on d k"
  by (simp_all add: say_def core_ok_def located_def attached_def session_ok_def idle_ok_def)

section \<open>The death of the tracee\<close>

lemma cleanup_ok:
  assumes "core_ok d" "locs_mapped d"
  shows "\<exists>d'. cleanup_at_tracee_death d = Inr d' \<and> idle_ok d' \<and> same_bps d d' \<and>
    t_run (w_tracee d') = t_run (w_tracee d) \<and> t_pid (w_tracee d') = t_pid (w_tracee d) \<and>
    w_id_counter d' = w_id_counter d \<and>
    db_pending_breakpoints d' = db_pending_breakpoints d \<and> db_args d' = db_args d \<and>
    db_pending_signal d' = db_pending_signal d \<and> db_out d' = db_out d \<and> db_syms d' = db_syms d \<and>
    db_process_name d' = db_process_name d"
proof -
  have ok: "heap_ok d" "maps_ok d" using assms by (simp_all add: core_ok_def)
  obtain d1 where d1: "map_free (Some loc_free) (db_bp_locations d) d = Inr d1" "heap_ok d1"
    "rest_same d d1" "same_bps d d1" "w_locs d1 = (\<lambda>_. None)"
    using free_all_locs[OF ok(1) assms(2)] by blast
  note f = more_fields[OF rest_same_more[OF d1(3)]]
  have c: "w_id_counter d1 = w_id_counter d" using d1(3) by (simp add: rest_same_def)
  have "maps_ok d1" using maps_ok_cong[OF d1(4) c f(5) f(7)] ok(2) by simp
  moreover have "same_bps d (d1\<lparr>db_state := NOT_ACTIVE, db_bp_locations := None, db_load_address := 0\<rparr>)"
    using d1(4) by (simp add: same_bps_def)
  ultimately show ?thesis
    using d1 c f by (simp add: cleanup_at_tracee_death_def idle_ok_def core_ok_def rest_same_def)
qed

section \<open>Addresses of locations\<close>

abbreviation addr_of :: "'a bp_world_scheme \<Rightarrow> nat \<Rightarrow> u64 option" where
  "addr_of w l \<equiv> map_option l_running_addr (w_locs w l)"

lemma armed_addr: "armed w x \<longleftrightarrow> (\<exists>l. addr_of w l = Some x \<and> patch_on w l)"
  by (auto simp: armed_iff_on)

lemma locs_mapped_addr:
  "locs_mapped d \<longleftrightarrow> map_ok (db_bp_locations d) \<and>
     (\<forall>a l. map_abs (db_bp_locations d) a = Some l \<longleftrightarrow> addr_of d l = Some a)"
  by (simp add: locs_mapped_def)

lemma located_addr:
  "located d b \<longleftrightarrow> (\<exists>l. b_location b = Some l \<and> addr_of d l = Some (b_instr_addr b + db_load_address d))"
  by (auto simp: located_def)

lemma addr_unique: "patch_ok orig w \<Longrightarrow> addr_of w l = Some a \<Longrightarrow> addr_of w k = Some a \<Longrightarrow> l = k"
  by (auto simp: patch_ok_def sites_ok_def)

lemma mapped_orig:
  assumes "patch_ok orig w"
  shows "mapped8 (t_mem (w_tracee w)) a = mapped8 orig a"
proof -
  have "t_mem (w_tracee w) x \<noteq> None \<longleftrightarrow> orig x \<noteq> None" for x
  proof (cases "armed w x")
    case True
    then show ?thesis using assms by (auto simp: patch_ok_def shows_image_def armed_def)
  next
    case False
    then show ?thesis using assms by (simp add: patch_ok_def shows_image_def)
  qed
  then show ?thesis by (simp add: mapped8_def)
qed

lemma places_addr: "same_places w w' \<Longrightarrow> addr_of w' l = addr_of w l"
proof -
  assume s: "same_places w w'"
  have "map_option (snd \<circ> snd) (map_option loc_place (w_locs w' l))
      = map_option (snd \<circ> snd) (map_option loc_place (w_locs w l))"
    using s by (simp add: same_places_def)
  moreover have "(snd \<circ> snd) \<circ> loc_place = l_running_addr" by (simp add: fun_eq_iff loc_place_def)
  ultimately show ?thesis by (simp add: option.map_comp)
qed

lemma places_temp: "same_places w w' \<Longrightarrow> map_option l_is_temp (w_locs w' l) = map_option l_is_temp (w_locs w l)"
proof -
  assume s: "same_places w w'"
  have "map_option (fst \<circ> snd) (map_option loc_place (w_locs w' l))
      = map_option (fst \<circ> snd) (map_option loc_place (w_locs w l))"
    using s by (simp add: same_places_def)
  moreover have "(fst \<circ> snd) \<circ> loc_place = l_is_temp" by (simp add: fun_eq_iff loc_place_def)
  ultimately show ?thesis by (simp add: option.map_comp)
qed

section \<open>Setting a breakpoint in a running tracee\<close>

definition temp_at :: "'a bp_world_scheme \<Rightarrow> u64 \<Rightarrow> bool" where
  "temp_at w a \<longleftrightarrow> (\<exists>l L. w_locs w l = Some L \<and> l_running_addr L = a \<and> l_is_temp L)"

lemma temp_at_alt:
  "temp_at w a \<longleftrightarrow> (\<exists>l. addr_of w l = Some a \<and> map_option l_is_temp (w_locs w l) = Some True)"
proof -
  have "(\<exists>L. w_locs w l = Some L \<and> l_running_addr L = a \<and> l_is_temp L) \<longleftrightarrow>
      addr_of w l = Some a \<and> map_option l_is_temp (w_locs w l) = Some True" for l
    by (cases "w_locs w l") auto
  then show ?thesis by (simp add: temp_at_def)
qed

lemma attached_world: "attached orig d \<Longrightarrow> world_ok orig d"
  by (simp add: attached_def core_ok_def world_ok_def)

text \<open>What attaching the breakpoint \<open>p\<close>, which is \<open>b\<close>, to a location at \<open>a\<close> changes.\<close>

definition placed :: "nat \<Rightarrow> breakpoint \<Rightarrow> u64 \<Rightarrow> debugger \<Rightarrow> debugger \<Rightarrow> bool" where
  "placed p b a d d' \<longleftrightarrow>
     (\<exists>l. addr_of d' l = Some a \<and> w_bps d' = (w_bps d)(p \<mapsto> b\<lparr>b_location := Some l\<rparr>)) \<and>
     (\<forall>l x. addr_of d l = Some x \<longrightarrow> addr_of d' l = Some x) \<and>
     (\<forall>x. temp_at d' x = temp_at d x) \<and>
     (\<forall>x. armed d' x \<longleftrightarrow> (if x = a then b_enable b else armed d x)) \<and>
     w_id_counter d' = w_id_counter d \<and> w_next d \<le> w_next d' \<and>
     t_run (w_tracee d') = t_run (w_tracee d) \<and> t_regs (w_tracee d') = t_regs (w_tracee d) \<and>
     d'\<lparr>w_tracee := w_tracee d, w_bps := w_bps d, w_locs := w_locs d, w_next := w_next d,
        db_bp_locations := db_bp_locations d\<rparr> = d"

lemma placed_fields:
  assumes "placed p b a d d'"
  shows "db_process_name d' = db_process_name d" "db_pid d' = db_pid d" "db_args d' = db_args d"
    "db_state d' = db_state d" "db_breakpoints d' = db_breakpoints d"
    "db_pending_breakpoints d' = db_pending_breakpoints d"
    "db_load_address d' = db_load_address d" "db_pending_signal d' = db_pending_signal d"
    "db_syms d' = db_syms d" "db_out d' = db_out d" "db_answers d' = db_answers d"
    "w_id_counter d' = w_id_counter d"
proof -
  have "d'\<lparr>w_tracee := w_tracee d, w_bps := w_bps d, w_locs := w_locs d, w_next := w_next d,
        db_bp_locations := db_bp_locations d\<rparr> = d"
    using assms by (simp add: placed_def)
  then show "db_process_name d' = db_process_name d" "db_pid d' = db_pid d" "db_args d' = db_args d"
    "db_state d' = db_state d" "db_breakpoints d' = db_breakpoints d"
    "db_pending_breakpoints d' = db_pending_breakpoints d"
    "db_load_address d' = db_load_address d" "db_pending_signal d' = db_pending_signal d"
    "db_syms d' = db_syms d" "db_out d' = db_out d" "db_answers d' = db_answers d"
    "w_id_counter d' = w_id_counter d"
    by (cases d; cases d'; simp)+
qed

lemma rebuild_debugger:
  assumes "w_id_counter d' = w_id_counter d" "bp_world.more d' = bp_world.more d"
  shows "(d'\<lparr>db_bp_locations := m\<rparr>)\<lparr>w_tracee := w_tracee d, w_bps := w_bps d, w_locs := w_locs d, w_next := w_next d,
        db_bp_locations := db_bp_locations d\<rparr> = (d :: debugger)"
  using assms by (cases d; cases d') simp

text \<open>A new entry of a partial function, and a changed one, under an existential.\<close>

lemma ex_entry_new:
  assumes "f n = None" "\<And>k. f k \<noteq> Some a"
  shows "(\<exists>k. (if k = n then Some a else f k) = Some x \<and> (if k = n then e else g k)) \<longleftrightarrow>
    (if x = a then e else \<exists>k. f k = Some x \<and> g k)"
  using assms by (auto split: if_splits) (metis option.distinct(1))

lemma ex_entry_old:
  assumes "\<And>k. f k = Some a \<longleftrightarrow> k = l"
  shows "(\<exists>k. f k = Some x \<and> (if k = l then e else g k)) \<longleftrightarrow> (if x = a then e else \<exists>k. f k = Some x \<and> g k)"
proof (cases "x = a")
  case False
  then have "k \<noteq> l" if "f k = Some x" for k using that assms[of k] by auto
  with False show ?thesis by auto
qed (simp add: assms)

lemma place_new:
  assumes att: "attached orig d" and b: "w_bps d p = Some b" "b_location b = None"
    and a: "a \<noteq> 0" "mapped8 orig a" and none: "map_abs (db_bp_locations d) a = None"
  shows "\<exists>w' m. loc_init (db_pid d) a (Some p) False d = Inr (w_next d, w') \<and>
    map_insert (db_bp_locations w') a (Some (w_next d)) = Inr (True, m) \<and>
    attached orig (w'\<lparr>db_bp_locations := m\<rparr>) \<and> placed p b a d (w'\<lparr>db_bp_locations := m\<rparr>)"
proof -
  have wok: "world_ok orig d" and pok: "patch_ok orig d"
    using att by (simp_all add: attached_world attached_def)
  have mapped: "mapped8 (t_mem (w_tracee d)) a" using a(2) mapped_orig[OF pok] by simp
  have new: "\<forall>k K. w_locs d k = Some K \<longrightarrow> l_running_addr K \<noteq> a"
  proof (intro allI impI notI)
    fix k K assume "w_locs d k = Some K" "l_running_addr K = a"
    then have "map_abs (db_bp_locations d) a = Some k"
      using att by (simp add: attached_def locs_mapped_def)
    with none show False by simp
  qed
  have pid: "db_pid d = t_pid (w_tracee d)" "db_pid d \<noteq> 0" using att by (simp_all add: attached_def)
  obtain w' where w': "loc_init (db_pid d) a (Some p) False d = Inr (w_next d, w')" "world_ok orig w'"
    "rest_same d w'" "w_next w' = Suc (w_next d)"
    "w_bps w' = (w_bps d)(p \<mapsto> b\<lparr>b_location := Some (w_next d)\<rparr>)"
    "\<forall>k. addr_of w' k = (if k = w_next d then Some a else addr_of d k)"
    "\<forall>k. map_option l_is_temp (w_locs w' k) =
      (if k = w_next d then Some False else map_option l_is_temp (w_locs d k))"
    "\<forall>k. patch_on w' k \<longleftrightarrow> (if k = w_next d then b_enable b else patch_on d k)"
    using loc_init_ok[OF wok b pid a(1) mapped new] by blast
  note f = more_fields[OF rest_same_more[OF w'(3)]]
  have c: "w_id_counter w' = w_id_counter d" using w'(3) by (simp add: rest_same_def)
  have mok: "map_ok (db_bp_locations d)" using att by (simp add: attached_def locs_mapped_def)
  obtain m where m: "map_insert (db_bp_locations d) a (Some (w_next d)) = Inr (True, m)" "map_ok m"
    "map_abs m = (map_abs (db_bp_locations d))(a \<mapsto> w_next d)"
    using hm.insert_fresh_law[OF mok none] by blast
  let ?d' = "w'\<lparr>db_bp_locations := m\<rparr>"
  have free: "w_locs d (w_next d) = None" using heap_fresh[of d "w_next d"] wok by (simp add: world_ok_def)
  have sb: "same_bps d w'" using b by (auto simp: same_bps_def w'(5) bp_core_def)
  have "maps_ok w'" using maps_ok_cong[OF sb c f(5) f(7)] att by (simp add: attached_def core_ok_def)
  moreover have "locs_mapped ?d'"
  proof -
    have "map_abs (db_bp_locations d) x = Some l \<longleftrightarrow> addr_of d l = Some x" for x l
      using att by (simp add: attached_def locs_mapped_addr)
    moreover have "addr_of d k \<noteq> Some a" for k using new by auto
    ultimately have "map_abs m x = Some l \<longleftrightarrow> (if l = w_next d then Some a else addr_of d l) = Some x" for x l
      using m(3) free by (cases "x = a"; cases "l = w_next d") simp_all
    then show ?thesis using m(2) w'(6) by (simp add: locs_mapped_addr)
  qed
  moreover have "t_pid (w_tracee w') = t_pid (w_tracee d)" using w'(3) by (simp add: rest_same_def)
  ultimately have "attached orig ?d'"
    using att w'(2) f by (simp add: attached_def core_ok_def world_ok_def)
  moreover have "placed p b a d ?d'"
    unfolding placed_def
  proof (intro conjI)
    show "\<exists>l. addr_of ?d' l = Some a \<and> w_bps ?d' = (w_bps d)(p \<mapsto> b\<lparr>b_location := Some l\<rparr>)"
      using w'(5,6) by (intro exI[of _ "w_next d"]) simp
    show "\<forall>l x. addr_of d l = Some x \<longrightarrow> addr_of ?d' l = Some x" using w'(6) free by auto
    have "addr_of ?d' l = Some x \<and> map_option l_is_temp (w_locs ?d' l) = Some True \<longleftrightarrow>
        addr_of d l = Some x \<and> map_option l_is_temp (w_locs d l) = Some True" for l x
      using w'(6,7) free by (cases "l = w_next d") simp_all
    then show "\<forall>x. temp_at ?d' x = temp_at d x" unfolding temp_at_alt by simp
    have na: "addr_of d k \<noteq> Some a" for k using new by auto
    show "\<forall>x. armed ?d' x \<longleftrightarrow> (if x = a then b_enable b else armed d x)"
    proof
      fix x
      have "armed ?d' x \<longleftrightarrow> (\<exists>k. (if k = w_next d then Some a else addr_of d k) = Some x \<and>
          (if k = w_next d then b_enable b else patch_on d k))"
        using w'(6,8) by (simp add: armed_addr)
      also have "\<dots> \<longleftrightarrow> (if x = a then b_enable b else armed d x)"
        unfolding armed_addr by (rule ex_entry_new) (use na free in simp_all)
      finally show "armed ?d' x \<longleftrightarrow> (if x = a then b_enable b else armed d x)" .
    qed
    show "?d'\<lparr>w_tracee := w_tracee d, w_bps := w_bps d, w_locs := w_locs d, w_next := w_next d,
        db_bp_locations := db_bp_locations d\<rparr> = d"
      by (rule rebuild_debugger[OF c rest_same_more[OF w'(3)]])
  qed (use w'(3,4) in \<open>simp_all add: rest_same_def\<close>)
  ultimately show ?thesis using w'(1) m f by (intro exI[of _ w'] exI[of _ m]) simp
qed

lemma place_old:
  assumes att: "attached orig d" and b: "w_bps d p = Some b" "b_location b = None"
    and l: "map_abs (db_bp_locations d) a = Some l" and nt: "\<not> temp_at d a"
  shows "\<exists>d'. loc_append_breakpoint_to_list l p d = Inr d' \<and> attached orig d' \<and> placed p b a d d'"
proof -
  have wok: "world_ok orig d" and pok: "patch_ok orig d"
    using att by (simp_all add: attached_world attached_def)
  have al: "addr_of d l = Some a" using l att by (simp add: attached_def locs_mapped_addr)
  then obtain L where L: "w_locs d l = Some L" "l_running_addr L = a" by auto
  then have "\<not> l_is_temp L" using nt by (auto simp: temp_at_def)
  then obtain w' where w': "loc_append_breakpoint_to_list l p d = Inr w'" "world_ok orig w'"
    "rest_same d w'" "w_next w' = w_next d" "w_bps w' = (w_bps d)(p \<mapsto> b\<lparr>b_location := Some l\<rparr>)"
    "\<forall>k. addr_of w' k = addr_of d k"
    "\<forall>k. map_option l_is_temp (w_locs w' k) = map_option l_is_temp (w_locs d k)"
    "\<forall>k. patch_on w' k \<longleftrightarrow> (if k = l then b_enable b else patch_on d k)"
    using loc_append_ok[OF wok b L(1)] by blast
  note f = more_fields[OF rest_same_more[OF w'(3)]]
  have c: "w_id_counter w' = w_id_counter d" using w'(3) by (simp add: rest_same_def)
  have sb: "same_bps d w'" using b by (auto simp: same_bps_def w'(5) bp_core_def)
  have "maps_ok w'" using maps_ok_cong[OF sb c f(5) f(7)] att by (simp add: attached_def core_ok_def)
  moreover have "t_pid (w_tracee w') = t_pid (w_tracee d)" using w'(3) by (simp add: rest_same_def)
  moreover have "locs_mapped w'" using att f w'(6) by (simp add: attached_def locs_mapped_addr)
  ultimately have "attached orig w'"
    using att w'(2) f by (simp add: attached_def core_ok_def world_ok_def)
  moreover have "placed p b a d w'"
    unfolding placed_def
  proof (intro conjI)
    show "\<exists>l. addr_of w' l = Some a \<and> w_bps w' = (w_bps d)(p \<mapsto> b\<lparr>b_location := Some l\<rparr>)"
      using w'(5,6) al by (intro exI[of _ l]) simp
    show "\<forall>x. temp_at w' x = temp_at d x" using w'(6,7) unfolding temp_at_alt by simp
    have uniq: "addr_of d k = Some a \<longleftrightarrow> k = l" for k using addr_unique[OF pok al, of k] al by auto
    show "\<forall>x. armed w' x \<longleftrightarrow> (if x = a then b_enable b else armed d x)"
    proof
      fix x
      have "armed w' x \<longleftrightarrow> (\<exists>k. addr_of d k = Some x \<and> (if k = l then b_enable b else patch_on d k))"
        using w'(6,8) by (simp add: armed_addr)
      also have "\<dots> \<longleftrightarrow> (if x = a then b_enable b else armed d x)"
        unfolding armed_addr by (rule ex_entry_old[OF uniq])
      finally show "armed w' x \<longleftrightarrow> (if x = a then b_enable b else armed d x)" .
    qed
    show "w'\<lparr>w_tracee := w_tracee d, w_bps := w_bps d, w_locs := w_locs d, w_next := w_next d,
        db_bp_locations := db_bp_locations d\<rparr> = d"
      using rebuild_debugger[OF c rest_same_more[OF w'(3)], of "db_bp_locations w'"] by simp
  qed (use w' in \<open>simp_all add: rest_same_def\<close>)
  ultimately show ?thesis using w'(1) by blast
qed

text \<open>Both ways of setting a breakpoint in a running tracee.\<close>

lemma place_breakpoint:
  assumes att: "attached orig d" and b: "w_bps d p = Some b" "b_location b = None"
    and a: "a = b_instr_addr b + db_load_address d" "a \<noteq> 0" "mapped8 orig a" and nt: "\<not> temp_at d a"
  shows "\<exists>d'. add_and_set_bp_for_running_tracee (b_instr_addr b) p d = Inr d' \<and>
    resolve_one p d = Inr d' \<and> attached orig d' \<and> placed p b a d d'"
proof -
  have act: "db_state d = ACTIVE" "map_ok (db_bp_locations d)"
    using att by (simp_all add: attached_def locs_mapped_def)
  show ?thesis
  proof (cases "map_abs (db_bp_locations d) a")
    case None
    obtain w' m where "loc_init (db_pid d) a (Some p) False d = Inr (w_next d, w')"
      "map_insert (db_bp_locations w') a (Some (w_next d)) = Inr (True, m)"
      "attached orig (w'\<lparr>db_bp_locations := m\<rparr>)" "placed p b a d (w'\<lparr>db_bp_locations := m\<rparr>)"
      using place_new[OF att b a(2,3) None] by blast
    then show ?thesis
      using act a(1) None b(1)
      by (simp add: add_and_set_bp_for_running_tracee_def resolve_one_def hm.lookup_law bp_get_instr_addr_def Let_def)
  next
    case (Some l)
    obtain d' where "loc_append_breakpoint_to_list l p d = Inr d'" "attached orig d'" "placed p b a d d'"
      using place_old[OF att b Some nt] by blast
    then show ?thesis
      using act a(1) Some b(1)
      by (simp add: add_and_set_bp_for_running_tracee_def resolve_one_def hm.lookup_law bp_get_instr_addr_def Let_def)
  qed
qed

end
