(* ===== verification/Debugger_Ops.thy ===== *)
theory Debugger_Ops
  imports Debugger_Inv
begin

text \<open>
  The operations of the debugger object keep the invariants of theory Debugger_Inv:
  entering a breakpoint, setting it, resolving the pending ones in a new tracee, removing
  one or all, switching all.
\<close>

section \<open>Entering a breakpoint\<close>

definition entered :: "bp_data \<Rightarrow> u64 \<Rightarrow> nat umap option \<Rightarrow> debugger \<Rightarrow> debugger" where
  "entered data instr_addr m d = d\<lparr>w_id_counter := w_id_counter d + 1,
     w_bps := (w_bps d)(w_next d \<mapsto> \<lparr>b_id = w_id_counter d, b_data = data, b_enable = True,
        b_instr_addr = instr_addr, b_location = None\<rparr>),
     w_next := Suc (w_next d),
     db_pending_breakpoints := db_pending_breakpoints d @ [w_next d],
     db_breakpoints := m\<rparr>"

lemma entered_sel [simp]:
  "w_tracee (entered data i m d) = w_tracee d" "w_locs (entered data i m d) = w_locs d"
  "w_next (entered data i m d) = Suc (w_next d)"
  "w_id_counter (entered data i m d) = w_id_counter d + 1"
  "w_bps (entered data i m d) = (w_bps d)(w_next d \<mapsto> \<lparr>b_id = w_id_counter d, b_data = data,
     b_enable = True, b_instr_addr = i, b_location = None\<rparr>)"
  "db_pid (entered data i m d) = db_pid d" "db_state (entered data i m d) = db_state d"
  "db_breakpoints (entered data i m d) = m" "db_bp_locations (entered data i m d) = db_bp_locations d"
  "db_pending_breakpoints (entered data i m d) = db_pending_breakpoints d @ [w_next d]"
  "db_load_address (entered data i m d) = db_load_address d"
  "db_syms (entered data i m d) = db_syms d"
  by (simp_all add: entered_def)

lemma heap_ok_new_bp:
  assumes ok: "heap_ok w"
    and w': "w_bps w' = (w_bps w)(w_next w \<mapsto> b)" "b_location b = None" "w_locs w' = w_locs w"
      "w_next w' = Suc (w_next w)"
  shows "heap_ok w'"
proof (rule heap_okI)
  have free: "w_bps w (w_next w) = None" using heap_fresh[OF ok, of "w_next w"] by simp
  fix l L assume L: "w_locs w' l = Some L" "\<not> l_is_temp L"
  then obtain ps where ps: "l_bp_list L = Some ps" "distinct ps"
    "\<And>q. q \<in> set ps \<Longrightarrow> \<exists>b. w_bps w q = Some b \<and> b_location b = Some l"
    using heap_list[OF ok, of l L] w'(3) by auto
  have "\<exists>c. w_bps w' q = Some c \<and> b_location c = Some l" if "q \<in> set ps" for q
    using ps(3)[OF that] free w'(1) by auto
  with ps show "\<exists>ps. l_bp_list L = Some ps \<and> distinct ps \<and>
      (\<forall>q \<in> set ps. \<exists>c. w_bps w' q = Some c \<and> b_location c = Some l)" by blast
next
  fix q c l assume c: "w_bps w' q = Some c" "b_location c = Some l"
  then have "w_bps w q = Some c" using w'(1,2) by (auto split: if_splits)
  then obtain L ps where "w_locs w l = Some L" "l_bp_list L = Some ps" "q \<in> set ps"
    using heap_location[OF ok _ c(2)] by metis
  then show "\<exists>L ps. w_locs w' l = Some L \<and> l_bp_list L = Some ps \<and> q \<in> set ps"
    using w'(3) by auto
qed (use heap_temp[OF ok] heap_patched[OF ok] heap_fresh[OF ok] w' in auto)

lemma enter_ok:
  assumes ok: "core_ok d" and c: "w_id_counter d \<noteq> - 1"
  shows "\<exists>m. map_insert (db_breakpoints d) (w_id_counter d) (Some (w_next d)) = Inr (True, m) \<and>
    core_ok (entered data i m d)"
proof -
  have h: "heap_ok d" and ms: "maps_ok d" using ok by (simp_all add: core_ok_def)
  have mok: "map_ok (db_breakpoints d)" using ms by (simp add: maps_ok_def)
  have ids: "b_id b < w_id_counter d" if "w_bps d p = Some b" for p b
    using ms that by (auto simp: maps_ok_def)
  have abs: "map_abs (db_breakpoints d) j = Some p \<longleftrightarrow> (\<exists>b. w_bps d p = Some b \<and> b_id b = j)" for j p
    using ms by (simp add: maps_ok_def)
  have free: "w_bps d (w_next d) = None" using heap_fresh[OF h, of "w_next d"] by simp
  have none: "map_abs (db_breakpoints d) (w_id_counter d) = None"
  proof (rule ccontr)
    assume "map_abs (db_breakpoints d) (w_id_counter d) \<noteq> None"
    then obtain p b where "w_bps d p = Some b" "b_id b = w_id_counter d" using abs by blast
    then show False using ids by force
  qed
  then obtain m where m: "map_insert (db_breakpoints d) (w_id_counter d) (Some (w_next d)) = Inr (True, m)"
    "map_ok m" "map_abs m = (map_abs (db_breakpoints d))(w_id_counter d \<mapsto> w_next d)"
    using hm.insert_fresh_law[OF mok] by blast
  have up: "w_id_counter d < w_id_counter d + 1"
  proof -
    have "1 + w_id_counter d \<noteq> 0" using c by (simp add: eq_neg_iff_add_eq_0 add.commute)
    then show ?thesis using unatSuc[of "w_id_counter d"] by (simp add: word_less_nat_alt add.commute)
  qed
  let ?b = "\<lparr>b_id = w_id_counter d, b_data = data, b_enable = True, b_instr_addr = i, b_location = None\<rparr>"
  have abs': "map_abs m j = Some p \<longleftrightarrow> (\<exists>b. ((w_bps d)(w_next d \<mapsto> ?b)) p = Some b \<and> b_id b = j)" for j p
  proof (cases "p = w_next d")
    case True
    then show ?thesis using m(3) abs[of j p] free by auto
  next
    case False
    have "b_id b \<noteq> w_id_counter d" if "w_bps d p = Some b" for b using ids[OF that] by simp
    then show ?thesis using m(3) abs[of j p] False by (cases "j = w_id_counter d") auto
  qed
  have "maps_ok (entered data i m d)"
    unfolding maps_ok_def
  proof (intro conjI)
    show "\<forall>p b. w_bps (entered data i m d) p = Some b \<longrightarrow> b_id b < w_id_counter (entered data i m d)"
      using ids up less_trans by (fastforce split: if_splits)
    show "set (db_pending_breakpoints (entered data i m d)) = {p. w_bps (entered data i m d) p \<noteq> None}"
      using ms by (auto simp: maps_ok_def)
    show "distinct (db_pending_breakpoints (entered data i m d))"
      using ms free by (auto simp: maps_ok_def)
  qed (use m(2) abs' in simp_all)
  moreover have "heap_ok (entered data i m d)" by (rule heap_ok_new_bp[OF h entered_sel(5)]) simp_all
  ultimately show ?thesis using m(1) by (auto simp: core_ok_def)
qed

lemma install_run:
  assumes "core_ok d" "w_id_counter d \<noteq> - 1"
  shows "\<exists>m. core_ok (entered data i m d) \<and> install_breakpoint data i quiet d =
    add_and_set_bp_for_running_tracee i (w_next d)
      (if quiet then entered data i m d
       else say (Out_Set_Breakpoint data i (w_id_counter d)) (entered data i m d))"
proof -
  obtain m where m: "map_insert (db_breakpoints d) (w_id_counter d) (Some (w_next d)) = Inr (True, m)"
    "core_ok (entered data i m d)"
    using enter_ok[OF assms] by blast
  then show ?thesis
    by (intro exI[of _ m])
      (simp add: install_breakpoint_def bp_init_def bp_get_id_def Let_def entered_def
        add_breakpoint_as_pending_def cong: if_cong)
qed

lemma install_idle:
  assumes "idle_ok d" "w_id_counter d \<noteq> - 1"
  shows "\<exists>d'. install_breakpoint data i quiet d = Inr d' \<and> idle_ok d' \<and>
    db_pending_breakpoints d' = db_pending_breakpoints d @ [w_next d] \<and>
    w_bps d' = (w_bps d)(w_next d \<mapsto> \<lparr>b_id = w_id_counter d, b_data = data, b_enable = True,
        b_instr_addr = i, b_location = None\<rparr>)"
proof -
  have "core_ok d" using assms by (simp add: idle_ok_def)
  then obtain m where "core_ok (entered data i m d)" "install_breakpoint data i quiet d =
    add_and_set_bp_for_running_tracee i (w_next d)
      (if quiet then entered data i m d
       else say (Out_Set_Breakpoint data i (w_id_counter d)) (entered data i m d))"
    using install_run[OF _ assms(2)] by blast
  then show ?thesis
    using assms(1) by (auto simp: add_and_set_bp_for_running_tracee_def idle_ok_def)
qed

lemma patch_ok_entered [simp]: "patch_ok orig (entered data i m d) = patch_ok orig d"
  by (rule patch_ok_cong) simp_all

lemma attached_entered:
  "attached orig d \<Longrightarrow> core_ok (entered data i m d) \<Longrightarrow> attached orig (entered data i m d)"
  by (simp add: attached_def locs_mapped_def)

lemma placed_others:
  assumes "placed p b a d d'" "q \<noteq> p"
  shows "w_bps d' q = w_bps d q"
  using assms by (auto simp: placed_def)

lemma placed_located:
  assumes "placed p b a d d'" "located d c"
  shows "located d' c"
  using assms placed_fields(7)[OF assms(1)] by (auto simp: placed_def located_addr)

lemma placed_self:
  assumes "placed p b a d d'" "a = b_instr_addr b + db_load_address d"
  shows "\<exists>l. w_bps d' p = Some (b\<lparr>b_location := Some l\<rparr>) \<and> located d' (b\<lparr>b_location := Some l\<rparr>)"
  using assms placed_fields(7)[OF assms(1)] by (auto simp: placed_def located_addr)

lemma attached_mem:
  "attached orig d \<Longrightarrow> t_mem (w_tracee d) x = (if armed d x then Some 0xCC else orig x)"
  by (simp add: attached_def patch_ok_def shows_image_def)

lemma install_session:
  assumes ok: "session_ok orig d" and c: "w_id_counter d \<noteq> - 1"
    and a: "a = i + db_load_address d" "a \<noteq> 0" "mapped8 orig a" "\<not> temp_at d a"
  shows "\<exists>d' b. install_breakpoint data i quiet d = Inr d' \<and> session_ok orig d' \<and>
    db_pending_breakpoints d' = db_pending_breakpoints d @ [w_next d] \<and>
    w_bps d' = (w_bps d)(w_next d \<mapsto> b) \<and>
    bp_core b = (w_id_counter d, data, True, i) \<and>
    (\<forall>x. armed d' x \<longleftrightarrow> x = a \<or> armed d x) \<and> (\<forall>x. temp_at d' x = temp_at d x)"
proof -
  have att: "attached orig d" and core: "core_ok d" using ok by (simp_all add: session_ok_def attached_def)
  obtain m where m: "core_ok (entered data i m d)" "install_breakpoint data i quiet d =
    add_and_set_bp_for_running_tracee i (w_next d)
      (if quiet then entered data i m d
       else say (Out_Set_Breakpoint data i (w_id_counter d)) (entered data i m d))"
    using install_run[OF core c] by blast
  define e where "e = (if quiet then entered data i m d
       else say (Out_Set_Breakpoint data i (w_id_counter d)) (entered data i m d))"
  let ?b = "\<lparr>b_id = w_id_counter d, b_data = data, b_enable = True, b_instr_addr = i, b_location = None\<rparr>"
  have e: "w_bps e = (w_bps d)(w_next d \<mapsto> ?b)" "w_locs e = w_locs d" "db_load_address e = db_load_address d"
    "db_pending_breakpoints e = db_pending_breakpoints d @ [w_next d]" "attached orig e"
    using attached_entered[OF att m(1)] by (auto simp: e_def)
  have same: "temp_at e x = temp_at d x" "armed e x = armed d x" "located e c = located d c" for x c
    using e by (simp_all add: temp_at_def armed_def located_def)
  obtain d' where d': "add_and_set_bp_for_running_tracee i (w_next d) e = Inr d'" "attached orig d'"
    "placed (w_next d) ?b a e d'"
    using place_breakpoint[of orig e "w_next d" ?b a] e a same by auto
  have l: "\<exists>l. w_bps d' (w_next d) = Some (?b\<lparr>b_location := Some l\<rparr>) \<and> located d' (?b\<lparr>b_location := Some l\<rparr>)"
    using placed_self[OF d'(3)] a(1) e(3) by simp
  then obtain l where l: "w_bps d' (w_next d) = Some (?b\<lparr>b_location := Some l\<rparr>)" "located d' (?b\<lparr>b_location := Some l\<rparr>)"
    by blast
  have others: "w_bps d' q = w_bps d q" if "q \<noteq> w_next d" for q
    using placed_others[OF d'(3) that] e(1) that by simp
  have "w_bps d' = (w_bps d)(w_next d \<mapsto> ?b\<lparr>b_location := Some l\<rparr>)"
    using l(1) others by (auto simp: fun_eq_iff)
  moreover have "located d' c" if "w_bps d' q = Some c" for q c
  proof (cases "q = w_next d")
    case True
    then show ?thesis using l that by simp
  next
    case False
    then have "located d c" using ok others that by (auto simp: session_ok_def)
    then show ?thesis using placed_located[OF d'(3)] same by simp
  qed
  moreover have "db_pending_breakpoints d' = db_pending_breakpoints d @ [w_next d]"
    using placed_fields(6)[OF d'(3)] e by simp
  moreover have "(\<forall>x. armed d' x \<longleftrightarrow> x = a \<or> armed d x) \<and> (\<forall>x. temp_at d' x = temp_at d x)"
    using d'(3) same by (auto simp: placed_def)
  ultimately show ?thesis
    using m(2) d' by (intro exI[of _ d'] exI[of _ "?b\<lparr>b_location := Some l\<rparr>"])
      (simp add: session_ok_def bp_core_def flip: e_def)
qed

section \<open>Removing a breakpoint\<close>

lemma delete_from_map_run:
  assumes "map_ok (db_breakpoints d)" "map_abs (db_breakpoints d) (b_id b) = Some p" "w_bps d p = Some b"
  shows "\<exists>m. map_ok m \<and> map_abs m = (map_abs (db_breakpoints d))(b_id b := None) \<and>
    delete_from_map p d = res_bind (bp_free p d) (\<lambda>d1. Inr (d1\<lparr>db_breakpoints := m\<rparr>))"
proof -
  obtain m where m: "map_ok m" "map_abs m = (map_abs (db_breakpoints d))(b_id b := None)"
    "\<forall>cf (s :: debugger). map_delete cf (db_breakpoints d) (b_id b) s =
       res_bind (call_cleanup cf p s) (\<lambda>s'. Inr (m, s'))"
    using hm.delete_present_law[OF assms(1,2)] by blast
  then have "delete_from_map p d = res_bind (bp_free p d) (\<lambda>d1. Inr (d1\<lparr>db_breakpoints := m\<rparr>))"
    using assms(3) by (cases "bp_free p d") (simp_all add: delete_from_map_def bp_get_id_def call_cleanup_def)
  with m(1,2) show ?thesis by blast
qed

lemma maps_ok_removed:
  assumes ok: "maps_ok d" and b: "w_bps d p = Some b"
    and d': "map_ok (db_breakpoints d')" "map_abs (db_breakpoints d') = (map_abs (db_breakpoints d))(b_id b := None)"
      "db_pending_breakpoints d' = remove1 p (db_pending_breakpoints d)"
      "w_id_counter d' = w_id_counter d"
      "\<And>q. map_option bp_core (w_bps d' q) = (if q = p then None else map_option bp_core (w_bps d q))"
  shows "maps_ok d'"
proof -
  have ids: "(\<exists>c. w_bps d' q = Some c \<and> b_id c = j) \<longleftrightarrow> q \<noteq> p \<and> (\<exists>c. w_bps d q = Some c \<and> b_id c = j)" for q j
    using d'(5)[of q] by (cases "w_bps d' q"; cases "w_bps d q") (auto simp: bp_core_def split: if_splits)
  have dom: "w_bps d' q = None \<longleftrightarrow> q = p \<or> w_bps d q = None" for q
    using d'(5)[of q] by (cases "w_bps d' q"; cases "w_bps d q") (auto split: if_splits)
  have abs: "map_abs (db_breakpoints d) j = Some q \<longleftrightarrow> (\<exists>c. w_bps d q = Some c \<and> b_id c = j)" for j q
    using ok by (simp add: maps_ok_def)
  have "map_abs (db_breakpoints d') j = Some q \<longleftrightarrow> (\<exists>c. w_bps d' q = Some c \<and> b_id c = j)" for j q
  proof (cases "j = b_id b")
    case True
    then have "q = p" if "w_bps d q = Some c" "b_id c = j" for c
      using ids_unique[OF ok that(1) b] that(2) by simp
    then show ?thesis using True d'(2) by (auto simp: ids)
  next
    case False
    then show ?thesis using d'(2) abs[of j q] b by (auto simp: ids)
  qed
  moreover have "b_id c < w_id_counter d'" if c: "w_bps d' q = Some c" for q c
  proof -
    have "\<exists>c'. w_bps d' q = Some c' \<and> b_id c' = b_id c" using c by simp
    then obtain ca where ca: "w_bps d q = Some ca" "b_id ca = b_id c"
      unfolding ids by blast
    have "b_id ca < w_id_counter d" using ok ca(1) unfolding maps_ok_def by blast
    with ca show ?thesis using d'(4) by simp
  qed
  ultimately show ?thesis
    using ok d'(1,3) dom unfolding maps_ok_def by (auto simp: set_remove1_eq)
qed

lemma same_places_rest: "same_places w w' \<Longrightarrow> rest_same w w'"
  by (simp add: same_places_def)

lemma remove_attached:
  assumes att: "attached orig d" and b: "w_bps d p = Some b"
  shows "\<exists>d'. remove_breakpoint p d = Inr d' \<and> attached orig d' \<and> w_bps d' = (w_bps d)(p := None) \<and>
    db_pending_breakpoints d' = remove1 p (db_pending_breakpoints d) \<and>
    db_load_address d' = db_load_address d \<and>
    (\<forall>l. addr_of d' l = addr_of d l) \<and> (\<forall>x. temp_at d' x = temp_at d x) \<and>
    (\<forall>k. patch_on d' k \<longleftrightarrow> patch_on d k \<and> \<not> (b_location b = Some k \<and> bps_at d k = {p}))"
proof -
  have ms: "maps_ok d" using att by (simp add: attached_def core_ok_def)
  let ?e = "d\<lparr>db_pending_breakpoints := remove1 p (db_pending_breakpoints d)\<rparr>"
  have abs: "map_ok (db_breakpoints ?e)" "map_abs (db_breakpoints ?e) (b_id b) = Some p"
    using ms b by (auto simp: maps_ok_def)
  obtain m where m: "map_ok m" "map_abs m = (map_abs (db_breakpoints ?e))(b_id b := None)"
    "delete_from_map p ?e = res_bind (bp_free p ?e) (\<lambda>d1. Inr (d1\<lparr>db_breakpoints := m\<rparr>))"
    using delete_from_map_run[OF abs] b by auto
  have wok: "world_ok orig ?e" using attached_world[OF att] by (simp add: world_ok_def)
  have be: "w_bps ?e p = Some b" using b by simp
  obtain w' where w': "bp_free p ?e = Inr w'" "world_ok orig w'" "same_places ?e w'"
    "w_bps w' = (w_bps d)(p := None)"
    "\<forall>k. patch_on w' k \<longleftrightarrow> patch_on ?e k \<and> \<not> (b_location b = Some k \<and> bps_at ?e k = {p})"
    using bp_free_ok[OF wok be] by auto
  note rs = same_places_rest[OF w'(3)]
  note f = more_fields[OF rest_same_more[OF rs]]
  let ?d' = "w'\<lparr>db_breakpoints := m\<rparr>"
  have "maps_ok ?d'"
    by (rule maps_ok_removed[OF ms b]) (use m f w'(4) rs in \<open>auto simp: rest_same_def\<close>)
  moreover have "locs_mapped ?d'"
    using att f places_addr[OF w'(3)] by (simp add: attached_def locs_mapped_addr)
  moreover have "t_pid (w_tracee w') = t_pid (w_tracee d)" using rs by (simp add: rest_same_def)
  ultimately have "attached orig ?d'"
    using w'(2) att f by (simp add: attached_def core_ok_def world_ok_def)
  moreover have "temp_at w' x = temp_at d x" for x
    unfolding temp_at_alt using places_addr[OF w'(3)] places_temp[OF w'(3)] by simp
  moreover have "bps_at ?e k = bps_at d k" for k by (simp add: bps_at_def)
  ultimately show ?thesis
    using w' m f places_addr[OF w'(3)]
    by (intro exI[of _ ?d']) (simp add: remove_breakpoint_def delete_breakpoint_from_pending_def temp_at_def)
qed

lemma remove_session:
  assumes "session_ok orig d" "w_bps d p = Some b"
  shows "\<exists>d'. remove_breakpoint p d = Inr d' \<and> session_ok orig d' \<and> w_bps d' = (w_bps d)(p := None) \<and>
    db_pending_breakpoints d' = remove1 p (db_pending_breakpoints d) \<and>
    (\<forall>x. temp_at d' x = temp_at d x) \<and>
    (\<forall>k. patch_on d' k \<longleftrightarrow> patch_on d k \<and> \<not> (b_location b = Some k \<and> bps_at d k = {p}))"
proof -
  have att: "attached orig d" using assms by (simp add: session_ok_def)
  obtain d' where d': "remove_breakpoint p d = Inr d'" "attached orig d'" "w_bps d' = (w_bps d)(p := None)"
    "db_pending_breakpoints d' = remove1 p (db_pending_breakpoints d)"
    "db_load_address d' = db_load_address d"
    "\<forall>l. addr_of d' l = addr_of d l" "\<forall>x. temp_at d' x = temp_at d x"
    "\<forall>k. patch_on d' k \<longleftrightarrow> patch_on d k \<and> \<not> (b_location b = Some k \<and> bps_at d k = {p})"
    using remove_attached[OF att assms(2)] by blast
  then have "located d' c" if "w_bps d' q = Some c" for q c
    using that assms(1) by (auto simp: session_ok_def located_addr split: if_splits)
  with d' show ?thesis by (intro exI[of _ d']) (simp add: session_ok_def)
qed

section \<open>Removing all breakpoints\<close>

text \<open>The invariant of the loop: what is left to do is a suffix of the list.\<close>

lemma remove_one_ok:
  assumes att: "attached orig d" and b: "w_bps d p = Some b"
    and loc: "b_location b = None \<or> located d b"
  shows "\<exists>d'. remove_one p d = Inr d' \<and> attached orig d' \<and>
    (\<forall>q. map_option bp_core (w_bps d' q) = (if q = p then None else map_option bp_core (w_bps d q))) \<and>
    (\<forall>q c. w_bps d' q = Some c \<longrightarrow> b_location c = None \<or> (\<exists>c0. w_bps d q = Some c0 \<and> b_location c = b_location c0)) \<and>
    (\<forall>l x. addr_of d' l = Some x \<longleftrightarrow> addr_of d l = Some x \<and> x \<noteq> b_instr_addr b + db_load_address d) \<and>
    db_pending_breakpoints d' = remove1 p (db_pending_breakpoints d) \<and>
    db_load_address d' = db_load_address d \<and>
    (\<forall>x. temp_at d' x \<longrightarrow> temp_at d x)"
proof -
  let ?a = "b_instr_addr b + db_load_address d"
  let ?e = "d\<lparr>db_pending_breakpoints := remove1 p (db_pending_breakpoints d)\<rparr>"
  have ms: "maps_ok d" and pok: "patch_ok orig d" using att by (simp_all add: attached_def core_ok_def)
  have wok: "world_ok orig ?e" using attached_world[OF att] by (simp add: world_ok_def)
  have lm: "map_ok (db_bp_locations ?e)" "\<And>a l. map_abs (db_bp_locations d) a = Some l \<longleftrightarrow> addr_of d l = Some a"
    using att by (simp_all add: attached_def locs_mapped_addr)
  have "\<exists>e1 m1. map_delete (Some loc_free) (db_bp_locations ?e) ?a ?e = Inr (m1, e1) \<and>
    map_ok m1 \<and> map_abs m1 = (map_abs (db_bp_locations d))(?a := None) \<and>
    world_ok orig e1 \<and> rest_same ?e e1 \<and> same_bps ?e e1 \<and>
    (\<forall>l. w_locs e1 l = (if addr_of d l = Some ?a then None else w_locs d l)) \<and>
    (\<forall>q c. w_bps e1 q = Some c \<longrightarrow> b_location c = None \<or> (\<exists>c0. w_bps d q = Some c0 \<and> b_location c = b_location c0)) \<and>
    (\<exists>b1. w_bps e1 p = Some b1 \<and> b_location b1 = None \<and> b_id b1 = b_id b)"
  proof (cases "map_abs (db_bp_locations ?e) ?a")
    case None
    then have "map_delete (Some loc_free) (db_bp_locations ?e) ?a ?e = Inr (db_bp_locations d, ?e)"
      using hm.delete_absent_law[OF lm(1) None] by simp
    moreover have na: "addr_of d l \<noteq> Some ?a" for l
    proof
      assume "addr_of d l = Some ?a"
      then have "map_abs (db_bp_locations d) ?a = Some l" using lm(2) by blast
      with None show False by simp
    qed
    then have "\<forall>l. w_locs d l = (if addr_of d l = Some ?a then None else w_locs d l)"
      by (simp only: if_False) simp
    moreover have "b_location b = None" using loc na by (auto simp: located_addr)
    moreover have "(map_abs (db_bp_locations d))(?a := None) = map_abs (db_bp_locations d)"
      using None by (simp add: fun_upd_idem)
    ultimately show ?thesis
      using wok lm(1) b by (intro exI[of _ ?e] exI[of _ "db_bp_locations d"]) simp
  next
    case (Some l)
    then have al: "addr_of d l = Some ?a" using lm(2) by simp
    then obtain L where L: "w_locs ?e l = Some L" by auto
    obtain mm where mm: "loc_free l ?e = Inr (without_loc l mm ?e)" "world_ok orig (without_loc l mm ?e)"
      using loc_free_ok[OF wok L] by blast
    obtain m1 where m1: "map_ok m1" "map_abs m1 = (map_abs (db_bp_locations d))(?a := None)"
      "\<forall>cf (s :: debugger). map_delete cf (db_bp_locations ?e) ?a s =
         res_bind (call_cleanup cf l s) (\<lambda>s'. Inr (m1, s'))"
      using hm.delete_present_law[OF lm(1) Some] by auto
    have run: "map_delete (Some loc_free) (db_bp_locations ?e) ?a ?e = Inr (m1, without_loc l mm ?e)"
      unfolding m1(3)[rule_format] by (simp add: call_cleanup_def mm(1))
    have uniq: "addr_of d k = Some ?a \<longleftrightarrow> k = l" for k using addr_unique[OF pok al, of k] al by auto
    have "b_location b \<in> {None, Some l}" using loc uniq by (auto simp: located_addr)
    then show ?thesis
      using run m1(1,2) mm(2) uniq b
      by (intro exI[of _ "without_loc l mm ?e"] exI[of _ m1]) (auto split: if_splits)
  qed
  then obtain e1 m1 where e1: "map_delete (Some loc_free) (db_bp_locations ?e) ?a ?e = Inr (m1, e1)"
    "map_ok m1" "map_abs m1 = (map_abs (db_bp_locations d))(?a := None)"
    "world_ok orig e1" "rest_same ?e e1" "same_bps ?e e1"
    "\<forall>l. w_locs e1 l = (if addr_of d l = Some ?a then None else w_locs d l)"
    "\<forall>q c. w_bps e1 q = Some c \<longrightarrow> b_location c = None \<or> (\<exists>c0. w_bps d q = Some c0 \<and> b_location c = b_location c0)"
    "\<exists>b1. w_bps e1 p = Some b1 \<and> b_location b1 = None \<and> b_id b1 = b_id b"
    by blast
  then obtain b1 where b1: "w_bps e1 p = Some b1" "b_location b1 = None" "b_id b1 = b_id b" by blast
  note f = more_fields[OF rest_same_more[OF e1(5)]]
  let ?e2 = "e1\<lparr>db_bp_locations := m1\<rparr>"
  have "map_ok (db_breakpoints ?e2)" "map_abs (db_breakpoints ?e2) (b_id b1) = Some p" "w_bps ?e2 p = Some b1"
    using ms b f b1 by (auto simp: maps_ok_def)
  then obtain m where m: "map_ok m" "map_abs m = (map_abs (db_breakpoints ?e2))(b_id b1 := None)"
    "delete_from_map p ?e2 = res_bind (bp_free p ?e2) (\<lambda>d1. Inr (d1\<lparr>db_breakpoints := m\<rparr>))"
    using delete_from_map_run by blast
  let ?d' = "?e2\<lparr>w_bps := (w_bps e1)(p := None)\<rparr>\<lparr>db_breakpoints := m\<rparr>"
  have "bp_free p ?e2 = Inr (?e2\<lparr>w_bps := (w_bps e1)(p := None)\<rparr>)"
    using b1 by (simp add: bp_free_def)
  with m(3) have del: "delete_from_map p ?e2 = Inr ?d'" by simp
  have run: "remove_one p d = Inr ?d'"
    using b e1(1) del by (simp add: remove_one_def bp_get_instr_addr_def Let_def delete_breakpoint_from_pending_def)
  have core: "map_option bp_core (w_bps ?d' q) = (if q = p then None else map_option bp_core (w_bps d q))" for q
    using e1(6) by (simp add: same_bps_def)
  have "maps_ok ?d'"
    by (rule maps_ok_removed[OF ms b]) (use m f b1 core e1(5) in \<open>simp_all add: rest_same_def\<close>)
  moreover have "heap_ok ?d'"
  proof -
    have "heap_ok (e1\<lparr>w_bps := (w_bps e1)(p := None)\<rparr>)"
      by (rule heap_ok_free_bp[OF _ b1(1,2)]) (use e1(4) in \<open>simp add: world_ok_def\<close>)
    moreover have "heap_ok ?d' = heap_ok (e1\<lparr>w_bps := (w_bps e1)(p := None)\<rparr>)"
      by (rule heap_ok_cong) simp_all
    ultimately show ?thesis by simp
  qed
  moreover have "patch_ok orig ?d'"
    using e1(4) patch_ok_cong[of ?d' e1 orig] by (simp add: world_ok_def)
  moreover have addr: "addr_of ?d' l = Some x \<longleftrightarrow> addr_of d l = Some x \<and> x \<noteq> ?a" for l x
    using e1(7) by auto
  moreover have "locs_mapped ?d'"
    unfolding locs_mapped_addr addr using e1(2,3) lm(2) by auto
  moreover have "t_pid (w_tracee e1) = t_pid (w_tracee d)" using e1(5) by (simp add: rest_same_def)
  ultimately have "attached orig ?d'"
    using att f by (simp add: attached_def core_ok_def)
  moreover have "temp_at ?d' x \<longrightarrow> temp_at d x" for x
    using e1(7) by (auto simp: temp_at_def split: if_splits)
  ultimately show ?thesis
    using run core addr e1(8) f by (intro exI[of _ ?d']) (auto split: if_splits)
qed

lemma remove_all_fold:
  assumes "attached orig d" "distinct ps" "set ps = {p. w_bps d p \<noteq> None}"
    and "\<forall>p b. w_bps d p = Some b \<longrightarrow> b_location b = None \<or> located d b"
  shows "\<exists>d'. res_fold remove_one ps d = Inr d' \<and> attached orig d' \<and> w_bps d' = (\<lambda>_. None) \<and>
    (\<forall>x. temp_at d' x \<longrightarrow> temp_at d x)"
  using assms
proof (induction ps arbitrary: d)
  case Nil
  then show ?case by (intro exI[of _ d]) (auto simp: fun_eq_iff)
next
  case (Cons p ps)
  then have "p \<in> {p. w_bps d p \<noteq> None}" by (metis list.set_intros(1))
  then obtain b where b: "w_bps d p = Some b" by auto
  obtain d1 where d1: "remove_one p d = Inr d1" "attached orig d1"
    "\<forall>q. map_option bp_core (w_bps d1 q) = (if q = p then None else map_option bp_core (w_bps d q))"
    "\<forall>q c. w_bps d1 q = Some c \<longrightarrow> b_location c = None \<or> (\<exists>c0. w_bps d q = Some c0 \<and> b_location c = b_location c0)"
    "\<forall>l x. addr_of d1 l = Some x \<longleftrightarrow> addr_of d l = Some x \<and> x \<noteq> b_instr_addr b + db_load_address d"
    "db_load_address d1 = db_load_address d" "\<forall>x. temp_at d1 x \<longrightarrow> temp_at d x"
    using remove_one_ok[OF Cons.prems(1) b] Cons.prems(4) b by blast
  have "w_bps d1 q \<noteq> None \<longleftrightarrow> q \<noteq> p \<and> w_bps d q \<noteq> None" for q
    using d1(3)[rule_format, of q] by (cases "w_bps d1 q"; cases "w_bps d q") (auto split: if_splits)
  then have dom: "set ps = {q. w_bps d1 q \<noteq> None}" using Cons.prems(2,3) by auto
  have "b_location c = None \<or> located d1 c" if c: "w_bps d1 q = Some c" for q c
  proof (cases "b_location c")
    case (Some l)
    then obtain c0 where c0: "w_bps d q = Some c0" "b_location c0 = Some l" using d1(4) c by force
    have heap: "heap_ok d1" using d1(2) by (simp add: attached_def core_ok_def)
    obtain L where L: "w_locs d1 l = Some L" using heap_location[OF heap c Some] by metis
    have "q \<noteq> p" using c d1(3)[rule_format, of q] by auto
    then have "bp_core c = bp_core c0" using d1(3)[rule_format, of q] c c0 by simp
    moreover have "addr_of d l = Some (b_instr_addr c0 + db_load_address d)"
      using Cons.prems(4)[rule_format, OF c0(1)] c0(2) by (auto simp: located_addr)
    moreover have "addr_of d l = Some (l_running_addr L)" using d1(5)[rule_format, of l] L by auto
    ultimately show ?thesis using Some L d1(6) by (auto simp: located_addr bp_core_def)
  qed simp
  then obtain d' where "res_fold remove_one ps d1 = Inr d'" "attached orig d'" "w_bps d' = (\<lambda>_. None)"
    "\<forall>x. temp_at d' x \<longrightarrow> temp_at d1 x"
    using Cons.IH[OF d1(2) _ dom] Cons.prems(2) by auto
  then show ?case using d1(1,7) by (intro exI[of _ d']) simp
qed

lemma armed_needs_bp:
  assumes ok: "heap_ok w" and arm: "armed w x"
  shows "temp_at w x \<or> (\<exists>k. addr_of w k = Some x \<and> patch_on w k \<and> bps_at w k \<noteq> {})"
proof -
  obtain k L where k: "w_locs w k = Some L" "l_patched L" "l_running_addr L = x"
    using arm by (auto simp: armed_def)
  show ?thesis
  proof (cases "l_is_temp L")
    case True
    then show ?thesis using k by (auto simp: temp_at_def)
  next
    case False
    obtain ps where ps: "l_bp_list L = Some ps" using heap_list[OF ok k(1) False] by metis
    have "bps_at w k \<noteq> {}"
      using list_bps_at[OF ok k(1) ps] heap_patched[OF ok k(1,2)] ps by (metis set_empty)
    then show ?thesis using k by (auto simp: patch_on_def)
  qed
qed

lemma unarmed_image:
  assumes "attached orig d" "\<And>x. \<not> armed d x"
  shows "t_mem (w_tracee d) = orig"
  using attached_mem[OF assms(1)] assms(2) by (simp add: fun_eq_iff)

lemma remove_all_session:
  assumes ok: "session_ok orig d"
  shows "\<exists>d'. remove_all_breakpoints d = Inr d' \<and> session_ok orig d' \<and> db_pending_breakpoints d' = [] \<and>
    w_bps d' = (\<lambda>_. None) \<and> ((\<forall>x. \<not> temp_at d x) \<longrightarrow> t_mem (w_tracee d') = orig) \<and>
    (\<forall>x. temp_at d' x \<longrightarrow> temp_at d x)"
proof -
  have att: "attached orig d" and ms: "maps_ok d" using ok by (simp_all add: session_ok_def attached_def core_ok_def)
  obtain d' where d': "res_fold remove_one (db_pending_breakpoints d) d = Inr d'" "attached orig d'"
    "w_bps d' = (\<lambda>_. None)" "\<forall>x. temp_at d' x \<longrightarrow> temp_at d x"
    using remove_all_fold[OF att, of "db_pending_breakpoints d"] ms ok
    by (auto simp: maps_ok_def session_ok_def)
  have "db_pending_breakpoints d' = []" using d'(2,3) by (simp add: attached_def core_ok_def maps_ok_def)
  moreover have "t_mem (w_tracee d') = orig" if "\<forall>x. \<not> temp_at d x"
  proof (rule unarmed_image[OF d'(2)])
    fix x show "\<not> armed d' x"
      using armed_needs_bp[of d' x] d' that by (auto simp: attached_def core_ok_def bps_at_def)
  qed
  ultimately show ?thesis using d' by (auto simp: remove_all_breakpoints_def session_ok_def)
qed

section \<open>Switching all breakpoints\<close>

definition bp_switch :: "bool \<Rightarrow> nat \<Rightarrow> 'a bp_world_scheme \<Rightarrow> 'a bp_world_scheme res" where
  "bp_switch v = (if v then bp_enable else bp_disable)"

lemma bp_switch_ok:
  assumes "world_ok orig w" "w_bps w p = Some b"
  shows "\<exists>w'. bp_switch v p w = Inr w' \<and> world_ok orig w' \<and> same_sites w w' \<and>
    w_bps w' = (w_bps w)(p \<mapsto> b\<lparr>b_enable := v\<rparr>) \<and>
    (\<forall>l. patch_on w' l \<longleftrightarrow>
      (if b_location b = Some l \<and> (\<forall>q \<in> bps_at w l. q = p \<or> enabled w q = v) then v else patch_on w l))"
  using bp_enable_ok[OF assms] bp_disable_ok[OF assms]
  by (cases v) (fastforce simp: bp_switch_def)+

lemma switch_session:
  assumes ok: "session_ok orig d" and b: "w_bps d p = Some b"
    and w': "world_ok orig w'" "same_sites d w'" "w_bps w' = (w_bps d)(p \<mapsto> b\<lparr>b_enable := v\<rparr>)"
  shows "session_ok orig w'"
proof -
  have att: "attached orig d" using ok by (simp add: session_ok_def)
  have pl: "same_places d w'" by (rule same_sites_places[OF w'(2)])
  note rs = same_places_rest[OF pl]
  note f = more_fields[OF rest_same_more[OF rs]]
  have "maps_ok w' = maps_ok d"
  proof -
    have "(\<exists>c. w_bps w' q = Some c \<and> b_id c = j) \<longleftrightarrow> (\<exists>c. w_bps d q = Some c \<and> b_id c = j)" for q j
      using w'(3) b by auto
    moreover have "w_bps w' q = None \<longleftrightarrow> w_bps d q = None" for q using w'(3) b by auto
    moreover have "(\<forall>q c. w_bps w' q = Some c \<longrightarrow> b_id c < n) \<longleftrightarrow> (\<forall>q c. w_bps d q = Some c \<longrightarrow> b_id c < n)" for n
      using b by (auto simp: w'(3))
    ultimately show ?thesis using f rs by (simp add: maps_ok_def rest_same_def)
  qed
  moreover have "t_pid (w_tracee w') = t_pid (w_tracee d)" using rs by (simp add: rest_same_def)
  moreover have "locs_mapped w'" using att f places_addr[OF pl] by (simp add: attached_def locs_mapped_addr)
  ultimately have "attached orig w'"
    using att w'(1) f by (simp add: attached_def core_ok_def world_ok_def)
  moreover have "located w' c" if c: "w_bps w' q = Some c" for q c
  proof -
    obtain c0 where "w_bps d q = Some c0" "b_location c = b_location c0" "b_instr_addr c = b_instr_addr c0"
      using c b w'(3) by (auto split: if_splits)
    then show ?thesis using ok f places_addr[OF pl] by (auto simp: session_ok_def located_addr)
  qed
  ultimately show ?thesis by (simp add: session_ok_def)
qed

definition switching :: "(u64 \<Rightarrow> u8 option) \<Rightarrow> bool \<Rightarrow> debugger \<Rightarrow> nat set \<Rightarrow> debugger \<Rightarrow> bool" where
  "switching orig v d ys s \<longleftrightarrow> session_ok orig s \<and> same_sites d s \<and>
     (\<forall>p. map_option (\<lambda>b. b\<lparr>b_enable := v\<rparr>) (w_bps s p) = map_option (\<lambda>b. b\<lparr>b_enable := v\<rparr>) (w_bps d p)) \<and>
     (\<forall>p \<in> ys. enabled s p = v) \<and>
     (\<forall>k. bps_at d k \<noteq> {} \<longrightarrow> bps_at d k \<subseteq> ys \<longrightarrow> patch_on s k = v)"

lemma switching_bps_at:
  assumes "switching orig v d ys s" shows "bps_at s k = bps_at d k"
proof -
  have "(\<exists>b. w_bps s p = Some b \<and> b_location b = Some k) \<longleftrightarrow> (\<exists>b. w_bps d p = Some b \<and> b_location b = Some k)" for p
  proof -
    have "map_option (b_location \<circ> (\<lambda>b. b\<lparr>b_enable := v\<rparr>)) (w_bps s p) =
        map_option (b_location \<circ> (\<lambda>b. b\<lparr>b_enable := v\<rparr>)) (w_bps d p)"
      using assms unfolding switching_def by (metis option.map_comp)
    moreover have "b_location \<circ> (\<lambda>b. b\<lparr>b_enable := v\<rparr>) = b_location" by (simp add: fun_eq_iff)
    ultimately have "map_option b_location (w_bps s p) = map_option b_location (w_bps d p)" by metis
    then show ?thesis by (cases "w_bps s p"; cases "w_bps d p") auto
  qed
  then show ?thesis by (simp add: bps_at_def)
qed

lemma switching_step:
  assumes I: "switching orig v d ys s" and p: "w_bps d p \<noteq> None"
  shows "\<exists>s'. bp_switch v p s = Inr s' \<and> switching orig v d (insert p ys) s'"
proof -
  have same: "map_option (\<lambda>b. b\<lparr>b_enable := v\<rparr>) (w_bps s q) = map_option (\<lambda>b. b\<lparr>b_enable := v\<rparr>) (w_bps d q)" for q
    using I by (simp add: switching_def)
  obtain b where b: "w_bps s p = Some b" using same[of p] p by (cases "w_bps s p") auto
  have ok: "session_ok orig s" using I by (simp add: switching_def)
  then have wok: "world_ok orig s" by (simp add: session_ok_def attached_world)
  obtain s' where s': "bp_switch v p s = Inr s'" "world_ok orig s'" "same_sites s s'"
    "w_bps s' = (w_bps s)(p \<mapsto> b\<lparr>b_enable := v\<rparr>)"
    "\<forall>l. patch_on s' l \<longleftrightarrow>
      (if b_location b = Some l \<and> (\<forall>q \<in> bps_at s l. q = p \<or> enabled s q = v) then v else patch_on s l)"
    using bp_switch_ok[OF wok b] by blast
  have at: "bps_at s k = bps_at d k" for k by (rule switching_bps_at[OF I])
  have "session_ok orig s'" by (rule switch_session[OF ok b s'(2-4)])
  moreover have "same_sites d s'" using I s'(3) same_sites_trans by (auto simp: switching_def)
  moreover have "map_option (\<lambda>b. b\<lparr>b_enable := v\<rparr>) (w_bps s' q) = map_option (\<lambda>b. b\<lparr>b_enable := v\<rparr>) (w_bps d q)" for q
    using same[of q] b s'(4) by auto
  moreover have "\<forall>q \<in> insert p ys. enabled s' q = v"
    using I s'(4) by (auto simp: switching_def enabled_def)
  moreover have "patch_on s' k = v" if k: "bps_at d k \<noteq> {}" "bps_at d k \<subseteq> insert p ys" for k
  proof (cases "b_location b = Some k")
    case True
    then have "\<forall>q \<in> bps_at s k. q = p \<or> enabled s q = v" using I k(2) at by (auto simp: switching_def)
    with True s'(5) show ?thesis by simp
  next
    case False
    then have "p \<notin> bps_at s k" using b by (simp add: bps_at_def)
    then have "p \<notin> bps_at d k" using at by simp
    then show ?thesis using I k False s'(5) by (auto simp: switching_def)
  qed
  ultimately show ?thesis using s'(1) by (auto simp: switching_def)
qed

lemma switch_all_session:
  assumes ok: "session_ok orig d"
  shows "\<exists>d'. res_fold (bp_switch v) (db_pending_breakpoints d) d = Inr d' \<and> session_ok orig d' \<and>
    same_sites d d' \<and> w_bps d' = (\<lambda>p. map_option (\<lambda>b. b\<lparr>b_enable := v\<rparr>) (w_bps d p)) \<and>
    (\<forall>k. bps_at d k \<noteq> {} \<longrightarrow> patch_on d' k = v) \<and> (\<forall>k. bps_at d' k = bps_at d k)"
proof -
  have dom: "set (db_pending_breakpoints d) = {p. w_bps d p \<noteq> None}"
    using ok by (simp add: session_ok_def attached_def core_ok_def maps_ok_def)
  have "switching orig v d {} d" using ok by (auto simp: switching_def)
  then obtain d' where d': "res_fold (bp_switch v) (db_pending_breakpoints d) d = Inr d'"
    "switching orig v d ({} \<union> set (db_pending_breakpoints d)) d'"
    using res_fold_progress[of "db_pending_breakpoints d" "switching orig v d" "bp_switch v" "{}" d]
      switching_step[of orig v d] dom by blast
  have same: "map_option (\<lambda>b. b\<lparr>b_enable := v\<rparr>) (w_bps d' q) = map_option (\<lambda>b. b\<lparr>b_enable := v\<rparr>) (w_bps d q)" for q
    using d'(2) by (simp add: switching_def)
  have "w_bps d' p = map_option (\<lambda>b. b\<lparr>b_enable := v\<rparr>) (w_bps d p)" for p
  proof (cases "w_bps d' p")
    case None
    then show ?thesis using same[of p] by simp
  next
    case (Some c)
    then have "w_bps d p \<noteq> None" using same[of p] by (cases "w_bps d p") auto
    then have "enabled d' p = v" using d'(2) dom by (auto simp: switching_def)
    then have "c\<lparr>b_enable := v\<rparr> = c" using Some by (simp add: enabled_def)
    then show ?thesis using same[of p] Some by simp
  qed
  moreover have "bps_at d k \<subseteq> set (db_pending_breakpoints d)" for k
    using dom by (auto simp: bps_at_def)
  ultimately show ?thesis
    using d' switching_bps_at[OF d'(2)] by (intro exI[of _ d']) (auto simp: switching_def)
qed

end
