(* ===== verification/Debugger_Run.thy ===== *)
theory Debugger_Run
  imports Debugger_Ops
begin

text \<open>
  The debugger and a running program: resolving the pending breakpoints in a new process,
  stepping over a patched instruction, and what a stop, an exit or a signal leads to.
\<close>

section \<open>Resolving the pending breakpoints\<close>

text \<open>Which addresses are armed after the breakpoints \<open>ps\<close> were placed one after the other.\<close>

definition run_addr :: "debugger \<Rightarrow> nat \<Rightarrow> u64" where
  "run_addr d p = b_instr_addr (the (w_bps d p)) + db_load_address d"

definition arm_all :: "debugger \<Rightarrow> nat list \<Rightarrow> (u64 \<Rightarrow> bool) \<Rightarrow> u64 \<Rightarrow> bool" where
  "arm_all d ps A = fold (\<lambda>p A. A(run_addr d p := b_enable (the (w_bps d p)))) ps A"

lemma arm_all_cong:
  assumes "\<And>p. p \<in> set ps \<Longrightarrow> w_bps d' p = w_bps d p" "db_load_address d' = db_load_address d"
  shows "arm_all d' ps A = arm_all d ps A"
  unfolding arm_all_def by (rule fold_cong) (use assms in \<open>simp_all add: run_addr_def\<close>)

lemma resolve_fold:
  assumes "attached orig d" "distinct ps" "\<forall>x. \<not> temp_at d x"
    and "\<forall>p \<in> set ps. \<exists>b. w_bps d p = Some b \<and> b_location b = None \<and>
      run_addr d p \<noteq> 0 \<and> mapped8 orig (run_addr d p)"
    and "\<forall>p b. w_bps d p = Some b \<longrightarrow> p \<notin> set ps \<longrightarrow> located d b"
  shows "\<exists>d'. res_fold resolve_one ps d = Inr d' \<and> session_ok orig d' \<and> same_bps d d' \<and>
    (\<forall>x. \<not> temp_at d' x) \<and> armed d' = arm_all d ps (armed d) \<and>
    db_pending_breakpoints d' = db_pending_breakpoints d \<and> db_load_address d' = db_load_address d \<and>
    db_syms d' = db_syms d \<and> db_out d' = db_out d \<and> db_pid d' = db_pid d \<and>
    db_pending_signal d' = db_pending_signal d \<and> t_regs (w_tracee d') = t_regs (w_tracee d)"
  using assms
proof (induction ps arbitrary: d)
  case Nil
  then show ?case by (intro exI[of _ d]) (simp add: session_ok_def arm_all_def)
next
  case (Cons p ps)
  then obtain b where b: "w_bps d p = Some b" "b_location b = None" "run_addr d p \<noteq> 0"
    "mapped8 orig (run_addr d p)" by auto
  let ?a = "run_addr d p"
  have a: "?a = b_instr_addr b + db_load_address d" using b by (simp add: run_addr_def)
  have nt: "\<not> temp_at d ?a" using Cons.prems(3) by simp
  obtain d1 where d1: "resolve_one p d = Inr d1" "attached orig d1" "placed p b ?a d d1"
    using place_breakpoint[OF Cons.prems(1) b(1,2) a b(3,4) nt] by blast
  note f = placed_fields[OF d1(3)]
  obtain l where l: "w_bps d1 p = Some (b\<lparr>b_location := Some l\<rparr>)" "located d1 (b\<lparr>b_location := Some l\<rparr>)"
    using placed_self[OF d1(3) a] by blast
  have other: "w_bps d1 q = w_bps d q" if "q \<noteq> p" for q by (rule placed_others[OF d1(3) that])
  have notin: "p \<notin> set ps" using Cons.prems(2) by simp
  have ra: "run_addr d1 q = run_addr d q" if "q \<in> set ps" for q
    using that notin other[of q] f by (metis run_addr_def)
  have unloc: "\<forall>q \<in> set ps. \<exists>b. w_bps d1 q = Some b \<and> b_location b = None \<and>
      run_addr d1 q \<noteq> 0 \<and> mapped8 orig (run_addr d1 q)"
  proof
    fix q assume q: "q \<in> set ps"
    then have "q \<noteq> p" using notin by auto
    then show "\<exists>b. w_bps d1 q = Some b \<and> b_location b = None \<and> run_addr d1 q \<noteq> 0 \<and>
        mapped8 orig (run_addr d1 q)"
      using Cons.prems(4) q other ra by auto
  qed
  have loc: "\<forall>q c. w_bps d1 q = Some c \<longrightarrow> q \<notin> set ps \<longrightarrow> located d1 c"
  proof (intro allI impI)
    fix q c assume q: "w_bps d1 q = Some c" "q \<notin> set ps"
    show "located d1 c"
    proof (cases "q = p")
      case True
      then show ?thesis using l q by simp
    next
      case False
      then have "located d c" using q other Cons.prems(5) by simp
      then show ?thesis by (rule placed_located[OF d1(3)])
    qed
  qed
  have nt1: "\<forall>x. \<not> temp_at d1 x" using d1(3) Cons.prems(3) by (simp add: placed_def)
  obtain d' where d': "res_fold resolve_one ps d1 = Inr d'" "session_ok orig d'" "same_bps d1 d'"
    "\<forall>x. \<not> temp_at d' x" "armed d' = arm_all d1 ps (armed d1)"
    "db_pending_breakpoints d' = db_pending_breakpoints d1" "db_load_address d' = db_load_address d1"
    "db_syms d' = db_syms d1" "db_out d' = db_out d1" "db_pid d' = db_pid d1"
    "db_pending_signal d' = db_pending_signal d1" "t_regs (w_tracee d') = t_regs (w_tracee d1)"
    using Cons.IH[OF d1(2) _ nt1 unloc loc] Cons.prems(2) by auto
  have "same_bps d d1"
    unfolding same_bps_def
  proof
    fix q show "map_option bp_core (w_bps d1 q) = map_option bp_core (w_bps d q)"
      using l(1) other[of q] b(1) by (cases "q = p") (simp_all add: bp_core_def)
  qed
  then have "same_bps d d'" using d'(3) same_bps_trans by blast
  moreover have "armed d' = arm_all d (p # ps) (armed d)"
  proof -
    have "arm_all d1 ps A = arm_all d ps A" for A
      by (rule arm_all_cong) (use other notin f in \<open>auto intro: other\<close>)
    moreover have "armed d1 = (armed d)(?a := b_enable b)"
      using d1(3) by (auto simp: placed_def fun_eq_iff)
    ultimately show ?thesis using d'(5) b(1) by (simp add: arm_all_def)
  qed
  moreover have "t_regs (w_tracee d1) = t_regs (w_tracee d)" using d1(3) by (simp add: placed_def)
  ultimately show ?case using d1(1) d' f by (intro exI[of _ d']) simp
qed

lemma MAP_SIZE_ok: "\<exists>ht. map_init MAP_SIZE = Inr (Some ht) \<and> wf_umap ht \<and> umap_abs ht = (\<lambda>_. None)"
  using map_init_wf[of MAP_SIZE] by (auto simp: MAP_SIZE_def)

lemma unlocated_when_no_locs:
  assumes "heap_ok w" "w_locs w = (\<lambda>_. None)" "w_bps w p = Some b"
  shows "b_location b = None"
proof (rule ccontr)
  assume "b_location b \<noteq> None"
  then obtain l where "b_location b = Some l" by auto
  then obtain L where "w_locs w l = Some L" using heap_location[OF assms(1,3)] by metis
  with assms(2) show False by simp
qed

lemma resolve_pending_ok:
  assumes core: "core_ok d" and st: "db_state d = ACTIVE" "db_bp_locations d = None" "w_locs d = (\<lambda>_. None)"
    and t: "is_stopped (w_tracee d) (db_pid d)" "db_pid d \<noteq> 0" "t_mem (w_tracee d) = orig"
    and places: "\<forall>p \<in> set (db_pending_breakpoints d). run_addr d p \<noteq> 0 \<and> mapped8 orig (run_addr d p)"
  shows "\<exists>d'. resolve_pending_breakpoints d = Inr d' \<and> session_ok orig d' \<and> same_bps d d' \<and>
    (\<forall>x. \<not> temp_at d' x) \<and> armed d' = arm_all d (db_pending_breakpoints d) (\<lambda>_. False) \<and>
    db_pending_breakpoints d' = db_pending_breakpoints d \<and> db_load_address d' = db_load_address d \<and>
    db_syms d' = db_syms d \<and> db_out d' = db_out d \<and> db_pid d' = db_pid d \<and>
    db_pending_signal d' = db_pending_signal d \<and> t_regs (w_tracee d') = t_regs (w_tracee d)"
proof -
  have h: "heap_ok d" and ms: "maps_ok d" using core by (simp_all add: core_ok_def)
  have pid: "db_pid d = t_pid (w_tracee d)" using t(1) by (simp add: is_stopped_def)
  obtain ht :: "nat umap" where ht: "map_init MAP_SIZE = Inr (Some ht)" "wf_umap ht" "umap_abs ht = (\<lambda>_. None)"
    using MAP_SIZE_ok by blast
  let ?e = "d\<lparr>db_bp_locations := Some ht\<rparr>"
  have na: "armed ?e = (\<lambda>_. False)" using st(3) by (simp add: armed_def fun_eq_iff)
  have "patch_ok orig ?e"
    using st(3) t pid na by (simp add: patch_ok_def sites_ok_def shows_image_def)
  moreover have "locs_mapped ?e" using ht st(3) by (simp add: locs_mapped_def map_ok_def map_abs_def)
  ultimately have att: "attached orig ?e"
    using core st(1) pid t(2) by (simp add: attached_def core_ok_def)
  have dom: "distinct (db_pending_breakpoints d)" "set (db_pending_breakpoints d) = {p. w_bps d p \<noteq> None}"
    using ms by (simp_all add: maps_ok_def)
  have nt: "\<forall>x. \<not> temp_at ?e x" using st(3) by (simp add: temp_at_def)
  have unl: "\<forall>p \<in> set (db_pending_breakpoints d). \<exists>b. w_bps ?e p = Some b \<and> b_location b = None \<and>
      run_addr ?e p \<noteq> 0 \<and> mapped8 orig (run_addr ?e p)"
    using dom places unlocated_when_no_locs[OF h st(3)] by (auto simp: run_addr_def)
  have loc: "\<forall>p b. w_bps ?e p = Some b \<longrightarrow> p \<notin> set (db_pending_breakpoints d) \<longrightarrow> located ?e b"
    using dom by auto
  obtain d' where "res_fold resolve_one (db_pending_breakpoints d) ?e = Inr d'" "session_ok orig d'"
    "same_bps ?e d'" "\<forall>x. \<not> temp_at d' x" "armed d' = arm_all ?e (db_pending_breakpoints d) (armed ?e)"
    "db_pending_breakpoints d' = db_pending_breakpoints ?e" "db_load_address d' = db_load_address ?e"
    "db_syms d' = db_syms ?e" "db_out d' = db_out ?e" "db_pid d' = db_pid ?e"
    "db_pending_signal d' = db_pending_signal ?e" "t_regs (w_tracee d') = t_regs (w_tracee ?e)"
    using resolve_fold[OF att dom(1) nt unl loc] by blast
  moreover have "resolve_pending_breakpoints d = res_fold resolve_one (db_pending_breakpoints d) ?e"
    using st(2) ht(1) by (simp add: resolve_pending_breakpoints_def)
  moreover have "arm_all ?e ps A = arm_all d ps A" for ps A by (rule arm_all_cong) simp_all
  ultimately show ?thesis using na by (intro exI[of _ d']) (simp add: same_bps_def)
qed

section \<open>Running the program\<close>

text \<open>
  What is assumed of the debugged program between two stops: the process stays the same
  one, it does not write to the addresses in \<open>A\<close>, and it does not unmap memory.
\<close>

definition code_untouched :: "(u64 \<Rightarrow> bool) \<Rightarrow> tracee \<Rightarrow> tracee \<Rightarrow> bool" where
  "code_untouched A t t' \<longleftrightarrow> t_pid t' = t_pid t \<and> (\<forall>x. A x \<longrightarrow> t_mem t' x = t_mem t x) \<and>
     (\<forall>a. mapped8 (t_mem t) a \<longrightarrow> mapped8 (t_mem t') a)"

text \<open>The image after the program ran: its own writes everywhere but under the patches.\<close>

definition image_after :: "(u64 \<Rightarrow> bool) \<Rightarrow> (u64 \<Rightarrow> u8 option) \<Rightarrow> (u64 \<Rightarrow> u8 option) \<Rightarrow> u64 \<Rightarrow> u8 option" where
  "image_after A orig m = (\<lambda>x. if A x then orig x else m x)"

lemma run_keeps_patches:
  assumes ok: "patch_ok orig w" and un: "code_untouched (armed w) (w_tracee w) t"
    and st: "t_run t' = Stopped s c" "t_pid t' = t_pid t" "t_mem t' = t_mem t"
  shows "patch_ok (image_after (armed w) orig (t_mem t)) (w\<lparr>w_tracee := t'\<rparr>)"
proof -
  have arm: "armed (w\<lparr>w_tracee := t'\<rparr>) = armed w" by (simp add: armed_def fun_eq_iff)
  have "t_mem t' x = (if armed w x then Some 0xCC else image_after (armed w) orig (t_mem t) x)" for x
    using ok un st(3) by (simp add: image_after_def code_untouched_def patch_ok_def shows_image_def)
  moreover have "image_after (armed w) orig (t_mem t) (l_running_addr L) = Some (l_saved_data L)"
    if "w_locs w l = Some L" "l_patched L" for l L
  proof -
    have "armed w (l_running_addr L)" using that by (auto simp: armed_def)
    then show ?thesis using that ok by (simp add: image_after_def patch_ok_def shows_image_def)
  qed
  ultimately show ?thesis
    using ok un st
    by (simp add: patch_ok_def sites_ok_def shows_image_def arm code_untouched_def is_stopped_def)
qed

lemma attached_run:
  assumes att: "attached orig d" and un: "code_untouched (armed d) (w_tracee d) t"
    and st: "t_run t' = Stopped s c" "t_pid t' = t_pid t" "t_mem t' = t_mem t"
  shows "attached (image_after (armed d) orig (t_mem t)) (d\<lparr>w_tracee := t'\<rparr>)"
proof -
  have "patch_ok orig d" using att by (simp add: attached_def)
  from run_keeps_patches[OF this un st] show ?thesis
    using att un st(2) by (simp add: attached_def core_ok_def code_untouched_def)
qed

lemma session_run:
  assumes "session_ok orig d" "code_untouched (armed d) (w_tracee d) t"
    and "t_run t' = Stopped s c" "t_pid t' = t_pid t" "t_mem t' = t_mem t"
  shows "session_ok (image_after (armed d) orig (t_mem t)) (d\<lparr>w_tracee := t'\<rparr>)"
  using assms attached_run[of orig d t t' s c] by (simp add: session_ok_def located_def)

section \<open>Exits\<close>

lemma wait_exit:
  assumes ok: "core_ok d" "locs_mapped d" and t: "t_pid (w_tracee d) = db_pid d"
    and ex: "t_run (w_tracee d) = Running st" "st = WExited code \<and> msg = Out_Exited code \<or> st = WSignaled code \<and> msg = Out_Terminated code"
  shows "\<exists>d'. wait_for_signal S d = Inr d' \<and> idle_ok d' \<and> same_bps d d' \<and> t_run (w_tracee d') = Dead \<and>
    db_pending_breakpoints d' = db_pending_breakpoints d \<and> db_pending_signal d' = db_pending_signal d \<and>
    db_args d' = db_args d \<and> db_out d' = db_out d @ [msg]"
proof -
  let ?t = "(w_tracee d)\<lparr>t_run := Dead\<rparr>"
  let ?e = "say msg (d\<lparr>w_tracee := ?t\<rparr>)"
  have e: "core_ok ?e" "locs_mapped ?e" using ok by (simp_all add: core_ok_def)
  obtain d' where d': "cleanup_at_tracee_death ?e = Inr d'" "idle_ok d'" "same_bps ?e d'"
    "t_run (w_tracee d') = t_run (w_tracee ?e)" "db_pending_breakpoints d' = db_pending_breakpoints ?e"
    "db_pending_signal d' = db_pending_signal ?e" "db_args d' = db_args ?e" "db_out d' = db_out ?e"
    using cleanup_ok[OF e] by blast
  have "waitpid (w_tracee d) (db_pid d) = Inr (Some st, ?t)"
    using t ex by (auto simp: waitpid_def)
  then have "wait_for_signal S d = cleanup_at_tracee_death ?e"
    using ex(2) by (auto simp: wait_for_signal_def)
  moreover have "same_bps d d'" using d'(3) by (simp add: same_bps_def)
  ultimately show ?thesis using d' by (simp add: say_def)
qed

section \<open>Stepping over a breakpoint\<close>

lemma wait_trace:
  assumes "t_pid (w_tracee d) = db_pid d" "t_run (w_tracee d) = Running (WStopped 5 c)" "c \<in> {0, 2}"
  shows "wait_for_signal S d = Inr (d\<lparr>w_tracee := (w_tracee d)\<lparr>t_run := Stopped 5 c\<rparr>\<rparr>)"
  using assms by (auto simp: wait_for_signal_def waitpid_def handle_sigtrap_def get_signal_info_def Let_def)

text \<open>The tracee as the program sees it while it executes the instruction at \<open>a\<close>.\<close>

definition unpatched_at :: "u64 \<Rightarrow> (u64 \<Rightarrow> u8 option) \<Rightarrow> tracee \<Rightarrow> tracee" where
  "unpatched_at a orig t = t\<lparr>t_mem := (t_mem t)(a := orig a)\<rparr>"

lemma step_over_setup:
  assumes att: "attached orig d" and pc: "get_pc (w_tracee d) (db_pid d) = Inr a" and arm: "armed d a"
  obtains l L d1 where "addr_of d l = Some a" "w_locs d l = Some L" "l_patched L" "l_running_addr L = a"
    "loc_disable l d = Inr d1" "d1 = repatch l False (l_saved_data L) (t_mem (unpatched_at a orig (w_tracee d))) d"
    "attached orig d1" "\<And>x. armed d1 x \<longleftrightarrow> armed d x \<and> x \<noteq> a"
    "step_over_breakpoint S d = res_bind (single_step_instruction S d1) (loc_enable l)"
proof -
  have pok: "patch_ok orig d" and wok: "world_ok orig d"
    using att by (simp_all add: attached_def attached_world)
  obtain l L where L: "w_locs d l = Some L" "l_patched L" "l_running_addr L = a"
    using arm by (auto simp: armed_def)
  let ?d1 = "repatch l False (l_saved_data L) ((t_mem (w_tracee d))(a \<mapsto> l_saved_data L)) d"
  have sites: "sites_ok d" using pok by (simp add: patch_ok_def)
  have run: "loc_disable l d = Inr ?d1"
    using loc_disable_effect[OF sites_okD[OF sites L(1)] L(1,2)] L(3) by simp
  have saved: "orig a = Some (l_saved_data L)"
    using pok L by (auto simp: patch_ok_def shows_image_def)
  obtain sd m where im: "loc_disable l d = Inr (repatch l False sd m d)" "patch_ok orig (repatch l False sd m d)"
    using loc_switch_image[OF pok L(1), of False] by (auto simp: loc_switch_def)
  have "patch_ok orig ?d1" using im run by simp
  moreover have "heap_ok ?d1" by (rule heap_ok_repatch) (use wok in \<open>simp_all add: world_ok_def\<close>)
  moreover have pl: "same_places d ?d1" by (rule same_sites_places) simp
  moreover have "bp_world.more ?d1 = bp_world.more d" by simp
  note f = more_fields[OF this]
  moreover have "maps_ok ?d1"
    using maps_ok_cong[of d ?d1] f att by (simp add: same_bps_def attached_def core_ok_def)
  moreover have "locs_mapped ?d1" using att f places_addr[OF pl] by (simp add: attached_def locs_mapped_addr)
  ultimately have att1: "attached orig ?d1" using att by (simp add: attached_def core_ok_def)
  have arm1: "armed ?d1 x \<longleftrightarrow> armed d x \<and> x \<noteq> a" for x
    using armed_repatch[OF sites L(1), of False "l_saved_data L" "(t_mem (w_tracee d))(a \<mapsto> l_saved_data L)" x] L(3)
    by simp
  have al: "addr_of d l = Some a" using L by simp
  have look: "map_lookup (db_bp_locations d) a = Inr (Some l)"
    using att al hm.lookup_law[of "db_bp_locations d" a] by (simp add: attached_def locs_mapped_addr)
  have "step_over_breakpoint S d = res_bind (single_step_instruction S ?d1) (loc_enable l)"
    using pc look L(1,2) run by (simp add: step_over_breakpoint_def execute_step_over_loc_def)
  then show ?thesis
    using that[OF al L run _ att1 arm1] saved by (simp add: unpatched_at_def)
qed

lemma attached_repatch:
  assumes "attached orig d" "patch_ok orig' (repatch l v sd m d)"
    and "\<And>L. w_locs d l = Some L \<Longrightarrow> v \<Longrightarrow> l_bp_list L \<noteq> Some []"
  shows "attached orig' (repatch l v sd m d)"
proof -
  let ?d1 = "repatch l v sd m d"
  have pl: "same_places d ?d1" by (rule same_sites_places) simp
  have "bp_world.more ?d1 = bp_world.more d" by simp
  note f = more_fields[OF this]
  have "heap_ok ?d1" by (rule heap_ok_repatch) (use assms in \<open>simp_all add: attached_def core_ok_def\<close>)
  moreover have "maps_ok ?d1"
    using maps_ok_cong[of d ?d1] f assms(1) by (simp add: same_bps_def attached_def core_ok_def)
  moreover have "locs_mapped ?d1" using assms(1) f places_addr[OF pl] by (simp add: attached_def locs_mapped_addr)
  ultimately show ?thesis using assms(1,2) f by (simp add: attached_def core_ok_def)
qed

lemma single_step_trace:
  assumes att: "attached orig d" and t: "t = env_step (sys_program S) (w_tracee d)"
    and un: "code_untouched (armed d) (w_tracee d) t" and st: "t_run t = Running (WStopped 5 2)"
  shows "single_step_instruction S d = Inr (d\<lparr>w_tracee := t\<lparr>t_run := Stopped 5 2\<rparr>\<rparr>) \<and>
    attached (image_after (armed d) orig (t_mem t)) (d\<lparr>w_tracee := t\<lparr>t_run := Stopped 5 2\<rparr>\<rparr>)"
proof -
  have "is_stopped (w_tracee d) (db_pid d)" "t_pid (w_tracee d) = db_pid d"
    using att by (auto simp: attached_def patch_ok_def sites_ok_def)
  then have "ptrace_singlestep (sys_program S) (w_tracee d) (db_pid d) = t" "t_pid t = db_pid d"
    using t un by (simp_all add: ptrace_singlestep_def code_untouched_def)
  then have "single_step_instruction S d = Inr (d\<lparr>w_tracee := t\<lparr>t_run := Stopped 5 2\<rparr>\<rparr>)"
    using wait_trace[of "d\<lparr>w_tracee := t\<rparr>" 2 S] st by (simp add: single_step_instruction_def)
  then show ?thesis using attached_run[OF att un] by simp
qed

lemma step_over_ok:
  assumes att: "attached orig d" and pc: "get_pc (w_tracee d) (db_pid d) = Inr a" and arm: "armed d a"
    and t: "t = env_step (sys_program S) (unpatched_at a orig (w_tracee d))"
    and un: "code_untouched (\<lambda>x. armed d x \<and> x \<noteq> a) (unpatched_at a orig (w_tracee d)) t"
    and st: "t_run t = Running (WStopped 5 2)"
  shows "\<exists>d'. step_over_breakpoint S d = Inr d' \<and>
    attached (image_after (\<lambda>x. armed d x \<and> x \<noteq> a) orig (t_mem t)) d' \<and>
    armed d' = armed d \<and> w_bps d' = w_bps d \<and> (\<forall>l. addr_of d' l = addr_of d l) \<and>
    w_tracee d' = t\<lparr>t_run := Stopped 5 2, t_mem := (t_mem t)(a \<mapsto> 0xCC)\<rparr> \<and>
    bp_world.more d' = bp_world.more d \<and> (\<forall>x. temp_at d' x = temp_at d x)"
proof -
  obtain l L d1 where s: "addr_of d l = Some a" "w_locs d l = Some L" "l_patched L" "l_running_addr L = a"
    "d1 = repatch l False (l_saved_data L) (t_mem (unpatched_at a orig (w_tracee d))) d"
    "attached orig d1" "\<And>x. armed d1 x \<longleftrightarrow> armed d x \<and> x \<noteq> a"
    "step_over_breakpoint S d = res_bind (single_step_instruction S d1) (loc_enable l)"
    using step_over_setup[OF att pc arm] by metis
  have arm1: "armed d1 = (\<lambda>x. armed d x \<and> x \<noteq> a)" using s(7) by (simp add: fun_eq_iff)
  have tr: "w_tracee d1 = unpatched_at a orig (w_tracee d)" by (simp add: s(5) repatch_def unpatched_at_def)
  let ?o = "image_after (armed d1) orig (t_mem t)"
  let ?d2 = "d1\<lparr>w_tracee := t\<lparr>t_run := Stopped 5 2\<rparr>\<rparr>"
  have step: "single_step_instruction S d1 = Inr ?d2" "attached ?o ?d2"
    using single_step_trace[OF s(6), of t S] t un st by (simp_all add: tr arm1)
  let ?K = "L\<lparr>l_saved_data := l_saved_data L, l_patched := False\<rparr>"
  have K: "w_locs ?d2 l = Some ?K" using s(2) by (simp add: s(5))
  have p2: "patch_ok ?o ?d2" using step(2) by (simp add: attached_def)
  obtain sd where en: "loc_enable l ?d2 = Inr (repatch l True sd ((t_mem (w_tracee ?d2))(a \<mapsto> 0xCC)) ?d2)"
    using loc_enable_effect[of ?d2 ?K l] K s(4) sites_okD[of ?d2 l ?K] p2 by (auto simp: patch_ok_def)
  let ?d' = "repatch l True sd ((t_mem (w_tracee ?d2))(a \<mapsto> 0xCC)) ?d2"
  obtain sd' m where im: "loc_enable l ?d2 = Inr (repatch l True sd' m ?d2)" "patch_ok ?o (repatch l True sd' m ?d2)"
    using loc_switch_image[OF p2 K, of True] by (auto simp: loc_switch_def)
  have "heap_ok d" using att by (simp add: attached_def core_ok_def)
  then have "l_bp_list L \<noteq> Some []" using heap_patched s(2,3) by blast
  then have att': "attached ?o ?d'"
    by (intro attached_repatch[OF step(2)]) (use im en K in auto)
  have "armed ?d' x \<longleftrightarrow> armed d x" for x
  proof -
    have "armed ?d' x \<longleftrightarrow> (if x = l_running_addr ?K then True else armed ?d2 x)"
      by (rule armed_repatch) (use p2 K in \<open>simp_all add: patch_ok_def\<close>)
    moreover have "armed ?d2 x = armed d1 x" by (simp add: armed_def)
    ultimately show ?thesis using s(4,7) arm by auto
  qed
  then have "armed ?d' = armed d" by (simp add: fun_eq_iff)
  moreover have "addr_of ?d' k = addr_of d k" for k using s(2) K by (auto simp: s(5))
  moreover have "temp_at ?d' x = temp_at d x" for x
  proof -
    have "map_option l_is_temp (w_locs ?d' k) = map_option l_is_temp (w_locs d k)" for k
      using s(2) K by (auto simp: s(5))
    then show ?thesis using \<open>\<And>k. addr_of ?d' k = addr_of d k\<close> unfolding temp_at_alt by simp
  qed
  moreover have "step_over_breakpoint S d = Inr ?d'" using s(8) step(1) en by simp
  moreover have "attached (image_after (\<lambda>x. armed d x \<and> x \<noteq> a) orig (t_mem t)) ?d'"
    using att' by (simp only: arm1)
  moreover have "w_bps ?d' = w_bps d" "bp_world.more ?d' = bp_world.more d" by (simp_all add: s(5))
  moreover have "w_tracee ?d' = t\<lparr>t_run := Stopped 5 2, t_mem := (t_mem t)(a \<mapsto> 0xCC)\<rparr>"
    by (simp add: repatch_def)
  ultimately show ?thesis by blast
qed

text \<open>When the program exits during that step, the location has been freed under the code.\<close>

lemma step_over_exit:
  assumes att: "attached orig d" and pc: "get_pc (w_tracee d) (db_pid d) = Inr a" and arm: "armed d a"
    and st: "t_run (env_step (sys_program S) (unpatched_at a orig (w_tracee d))) = Running (WExited code)"
    and pid: "t_pid (env_step (sys_program S) (unpatched_at a orig (w_tracee d))) = db_pid d"
  shows "step_over_breakpoint S d = Inl UseAfterFree"
proof -
  obtain l L d1 where s: "w_locs d l = Some L"
    "d1 = repatch l False (l_saved_data L) (t_mem (unpatched_at a orig (w_tracee d))) d"
    "attached orig d1"
    "step_over_breakpoint S d = res_bind (single_step_instruction S d1) (loc_enable l)"
    using step_over_setup[OF att pc arm] by metis
  have tr: "w_tracee d1 = unpatched_at a orig (w_tracee d)" by (simp add: s(2) repatch_def unpatched_at_def)
  let ?t = "env_step (sys_program S) (w_tracee d1)"
  have pid1: "db_pid d1 = db_pid d" using more_fields(2)[of d1 d] by (simp add: s(2))
  have "is_stopped (w_tracee d1) (db_pid d1)" using s(3) by (simp add: attached_def patch_ok_def sites_ok_def)
  then have run: "single_step_instruction S d1 = wait_for_signal S (d1\<lparr>w_tracee := ?t\<rparr>)"
    by (simp add: single_step_instruction_def ptrace_singlestep_def)
  obtain d' where "wait_for_signal S (d1\<lparr>w_tracee := ?t\<rparr>) = Inr d'" "idle_ok d'"
    using wait_exit[of "d1\<lparr>w_tracee := ?t\<rparr>" "WExited code" code "Out_Exited code" S] s(3) st pid pid1
    by (auto simp: tr attached_def core_ok_def)
  then show ?thesis using s(4) run by (simp add: loc_enable_def idle_ok_def deref_def)
qed

section \<open>Continuing\<close>

lemma continue_not_at_breakpoint:
  assumes att: "attached orig d" and pc: "get_pc (w_tracee d) (db_pid d) = Inr a" and arm: "\<not> armed d a"
  shows "continue_execution S d =
    wait_for_signal S (d\<lparr>w_tracee := env_cont (sys_program S) (db_pending_signal d) (w_tracee d),
                         db_pending_signal := 0\<rparr>)"
proof -
  have st: "is_stopped (w_tracee d) (db_pid d)" using att by (simp add: attached_def patch_ok_def sites_ok_def)
  have mok: "map_ok (db_bp_locations d)" and act: "db_state d = ACTIVE"
    using att by (simp_all add: attached_def locs_mapped_def)
  have "step_over_breakpoint S d = Inr d"
  proof (cases "map_abs (db_bp_locations d) a")
    case None
    then show ?thesis using pc mok by (simp add: step_over_breakpoint_def hm.lookup_law execute_step_over_loc_def)
  next
    case (Some l)
    then obtain L where "w_locs d l = Some L" "l_running_addr L = a"
      using att by (auto simp: attached_def locs_mapped_def)
    moreover from this have "\<not> l_patched L" using arm by (auto simp: armed_def)
    ultimately show ?thesis
      using pc mok Some by (simp add: step_over_breakpoint_def hm.lookup_law execute_step_over_loc_def)
  qed
  then show ?thesis using act st by (simp add: continue_execution_def ptrace_cont_def)
qed

lemma breakpoint_hit:
  assumes att: "attached orig d" and t: "t_pid t = db_pid d" "t_run t = Running (WStopped 5 c)" "c \<in> {1, 0x80}"
    and d: "d1 = d\<lparr>w_tracee := t\<rparr>" and un: "code_untouched (armed d) (w_tracee d) t"
    and pc: "t_regs t ! 16 = a + 1" and len: "length (t_regs t) = 27" and arm: "armed d a"
    and src: "print_source_at_current_pc (sys_files S) (db_syms d) a 3 = Inr out"
  shows "\<exists>d'. wait_for_signal S d1 = Inr d' \<and>
    attached (image_after (armed d) orig (t_mem t)) d' \<and> armed d' = armed d \<and> w_bps d' = w_bps d \<and>
    (\<forall>l. addr_of d' l = addr_of d l) \<and> db_load_address d' = db_load_address d \<and>
    get_pc (w_tracee d') (db_pid d') = Inr a \<and> (\<forall>x. temp_at d' x = temp_at d x) \<and>
    (\<not> temp_at d a \<longrightarrow> (\<exists>p b m. w_bps d p = Some b \<and> b_location b \<noteq> None \<and> Out_Hit m \<in> set (db_out d') \<and>
        hit_id m = b_id b \<and> hit_addr m = b_instr_addr b \<and>
        (\<exists>l. b_location b = Some l \<and> addr_of d l = Some a)))"
proof -
  let ?t1 = "t\<lparr>t_run := Stopped 5 c\<rparr>"
  let ?t2 = "?t1\<lparr>t_regs := (t_regs t)[16 := a]\<rparr>"
  let ?e = "d\<lparr>w_tracee := ?t2\<rparr>"
  have att2: "attached (image_after (armed d) orig (t_mem t)) ?e"
    by (rule attached_run[OF att un, of ?t2 5 c]) simp_all
  have mok: "map_ok (db_bp_locations d)" using att by (simp add: attached_def locs_mapped_def)
  obtain l L where L: "w_locs d l = Some L" "l_patched L" "l_running_addr L = a"
    using arm by (auto simp: armed_def)
  have look: "map_lookup (db_bp_locations d) a = Inr (Some l)"
    using att L hm.lookup_law[OF mok, of a] by (simp add: attached_def locs_mapped_def)
  have rip: "reg_value RIP div 8 = 16" by simp
  have st: "is_stopped ?t1 (db_pid d)" using t by (simp add: is_stopped_def)
  have pc1: "get_pc ?t1 (db_pid d) = Inr (a + 1)"
    using st pc by (simp add: get_pc_def get_register_value_def sizeof_user_regs_def)
  have set: "set_pc ?t1 (db_pid d) a = Inr ?t2"
    using st by (simp add: set_pc_def set_register_value_def sizeof_user_regs_def)
  have wok: "world_ok (image_after (armed d) orig (t_mem t)) ?e" by (rule attached_world[OF att2])
  obtain msg where msg: "print_bp_hit_message_at_loc (Some l) ?e = Inr msg" "msg = None \<longleftrightarrow> l_is_temp L"
    "msg \<noteq> None \<longrightarrow> (\<exists>p \<in> bps_at ?e l. \<exists>b. w_bps ?e p = Some b \<and> hit_id (the msg) = b_id b \<and>
       hit_addr (the msg) = b_instr_addr b)"
    using hit_message_total[OF wok, of l L] L by auto
  define g where "g = (case msg of None \<Rightarrow> ?e | Some m \<Rightarrow> say (Out_Hit m) ?e)"
  define d' where "d' = (case out of None \<Rightarrow> g | Some items \<Rightarrow> say (Out_Source items) g)"
  have run: "wait_for_signal S d1 = Inr d'"
    using t d pc1 look set msg(1) src
    by (cases msg; cases out) (auto simp: wait_for_signal_def waitpid_def handle_sigtrap_def get_signal_info_def Let_def
        show_source_def g_def d'_def)
  have sel: "w_tracee d' = ?t2" "w_bps d' = w_bps d" "w_locs d' = w_locs d" "db_pid d' = db_pid d"
    "db_load_address d' = db_load_address d"
    by (auto simp: d'_def g_def split: option.splits)
  have "attached (image_after (armed d) orig (t_mem t)) d'"
    using att2 by (auto simp: d'_def g_def split: option.splits)
  moreover have "armed d' = armed d" using sel by (simp add: armed_def fun_eq_iff)
  moreover have "temp_at d' x = temp_at d x" for x using sel by (simp add: temp_at_def)
  moreover have "get_pc (w_tracee d') (db_pid d') = Inr a"
    using sel t len by (simp add: get_pc_def get_register_value_def sizeof_user_regs_def is_stopped_def)
  moreover have "\<exists>p b m. w_bps d p = Some b \<and> b_location b \<noteq> None \<and> Out_Hit m \<in> set (db_out d') \<and>
        hit_id m = b_id b \<and> hit_addr m = b_instr_addr b \<and>
        (\<exists>l. b_location b = Some l \<and> addr_of d l = Some a)" if "\<not> temp_at d a"
  proof -
    have "\<not> l_is_temp L" using that L by (auto simp: temp_at_def)
    then obtain m where m: "msg = Some m" using msg(2) by auto
    then obtain p b where "p \<in> bps_at ?e l" "w_bps ?e p = Some b" "hit_id m = b_id b" "hit_addr m = b_instr_addr b"
      using msg(3) by auto
    then show ?thesis using m L
      by (intro exI[of _ p] exI[of _ b] exI[of _ m]) (auto simp: bps_at_def d'_def g_def say_def split: option.splits)
  qed
  ultimately show ?thesis using run sel by (intro exI[of _ d']) simp
qed

section \<open>Killing and starting\<close>

lemma kill_ok:
  assumes att: "attached orig d"
  shows "\<exists>d'. kill_tracee d = Inr d' \<and> idle_ok d' \<and> same_bps d d' \<and>
    db_pending_breakpoints d' = db_pending_breakpoints d \<and> db_args d' = db_args d \<and>
    db_pending_signal d' = db_pending_signal d \<and> db_out d' = db_out d \<and> db_syms d' = db_syms d \<and>
    db_process_name d' = db_process_name d"
proof -
  let ?t = "(w_tracee d)\<lparr>t_run := Dead\<rparr>"
  have st: "is_stopped (w_tracee d) (db_pid d)" "t_pid (w_tracee d) = db_pid d"
    using att by (auto simp: attached_def patch_ok_def sites_ok_def)
  then have "waitpid (ptrace_kill (w_tracee d) (db_pid d)) (db_pid d) = Inr (Some (WSignaled 9), ?t)"
    by (simp add: ptrace_kill_def waitpid_def)
  then have run: "kill_tracee d = cleanup_at_tracee_death (d\<lparr>w_tracee := ?t\<rparr>)"
    by (simp add: kill_tracee_def)
  have "core_ok (d\<lparr>w_tracee := ?t\<rparr>)" "locs_mapped (d\<lparr>w_tracee := ?t\<rparr>)"
    using att by (simp_all add: attached_def core_ok_def)
  from cleanup_ok[OF this] show ?thesis unfolding run by (auto simp: same_bps_def)
qed

lemma run_addr_same_bps:
  assumes "same_bps d d'" "db_load_address d' = db_load_address e" "w_bps d p \<noteq> None"
  shows "run_addr d' p = b_instr_addr (the (w_bps d p)) + db_load_address e \<and>
    b_enable (the (w_bps d' p)) = b_enable (the (w_bps d p))"
proof -
  have "map_option bp_core (w_bps d' p) = map_option bp_core (w_bps d p)"
    using assms(1) by (simp add: same_bps_def)
  then show ?thesis
    using assms(2,3) by (cases "w_bps d' p"; cases "w_bps d p") (auto simp: run_addr_def bp_core_def)
qed

text \<open>
  Starting a process up to its first continuation (\<open>spawn_loaded\<close>) leads to a state in which the invariant of a session holds, every
  pending breakpoint is placed, and the program is about to be continued.
\<close>

definition spawn_loaded :: "system \<Rightarrow> debugger \<Rightarrow> debugger res" where
  "spawn_loaded S d =
     res_bind (read_args (db_args d)) (\<lambda>argv.
       let t = env_spawn (sys_program S) (db_process_name d) argv
       in res_bind (wait_for_signal S (d\<lparr>w_tracee := t, db_pid := t_pid t\<rparr>)) (\<lambda>d1.
          res_bind (initialize_load_address (sys_program S) (w_tracee d1) (db_syms d1)) (\<lambda>load_address.
          res_bind (resolve_pending_breakpoints (d1\<lparr>db_state := ACTIVE, db_load_address := load_address\<rparr>)) (\<lambda>d2.
          res_bind (setup_dwfl (db_syms d2) (db_pid d2)) (\<lambda>syms. Inr (d2\<lparr>db_syms := syms\<rparr>))))))"

lemma spawn_tracee_loaded: "spawn_tracee S d = res_bind (spawn_loaded S d) (continue_execution S)"
  by (simp add: spawn_tracee_def spawn_loaded_def res_bind_def Let_def split: sum.split)

lemma spawn_ok:
  assumes ok: "idle_ok d" and argv: "read_args (db_args d) = Inr argv"
    and t: "t = env_spawn (sys_program S) (db_process_name d) argv" "t_run t = Running (WStopped 5 0)" "t_pid t \<noteq> 0"
    and la: "initialize_load_address (sys_program S) (t\<lparr>t_run := Stopped 5 0\<rparr>) (db_syms d) = Inr la"
    and rep: "dw_report (sy_dwarf (db_syms d)) (t_pid t)"
    and places: "\<forall>p b. w_bps d p = Some b \<longrightarrow> b_instr_addr b + la \<noteq> 0 \<and> mapped8 (t_mem t) (b_instr_addr b + la)"
  shows "\<exists>d'. spawn_loaded S d = Inr d' \<and> spawn_tracee S d = continue_execution S d' \<and> session_ok (t_mem t) d' \<and> same_bps d d' \<and>
    (\<forall>x. \<not> temp_at d' x) \<and> db_load_address d' = la \<and>
    armed d' = arm_all (d\<lparr>db_load_address := la\<rparr>) (db_pending_breakpoints d) (\<lambda>_. False) \<and>
    db_pending_breakpoints d' = db_pending_breakpoints d \<and> db_pending_signal d' = db_pending_signal d \<and>
    t_regs (w_tracee d') = t_regs t \<and> db_syms d' = (db_syms d)\<lparr>sy_proc := Some (t_pid t)\<rparr>"
proof -
  let ?t1 = "t\<lparr>t_run := Stopped 5 0\<rparr>"
  define e where "e = d\<lparr>w_tracee := ?t1, db_pid := t_pid t, db_state := ACTIVE, db_load_address := la\<rparr>"
  have wait: "wait_for_signal S (d\<lparr>w_tracee := t, db_pid := t_pid t\<rparr>) = Inr (d\<lparr>w_tracee := ?t1, db_pid := t_pid t\<rparr>)"
    using wait_trace[of "d\<lparr>w_tracee := t, db_pid := t_pid t\<rparr>" 0 S] t(2) by simp
  have core: "core_ok e" and dom: "set (db_pending_breakpoints d) = {p. w_bps d p \<noteq> None}"
    using ok by (simp_all add: e_def idle_ok_def core_ok_def maps_ok_def)
  have e: "db_state e = ACTIVE" "db_bp_locations e = None" "w_locs e = (\<lambda>_. None)"
    "is_stopped (w_tracee e) (db_pid e)" "db_pid e \<noteq> 0" "t_mem (w_tracee e) = t_mem t"
    "db_pending_breakpoints e = db_pending_breakpoints d" "w_bps e = w_bps d" "db_load_address e = la"
    using ok t(3) by (simp_all add: e_def idle_ok_def is_stopped_def)
  have pl: "\<forall>p \<in> set (db_pending_breakpoints e). run_addr e p \<noteq> 0 \<and> mapped8 (t_mem t) (run_addr e p)"
    using places dom e by (auto simp: run_addr_def)
  obtain d2 where d2: "resolve_pending_breakpoints e = Inr d2" "session_ok (t_mem t) d2" "same_bps e d2"
    "\<forall>x. \<not> temp_at d2 x" "armed d2 = arm_all e (db_pending_breakpoints e) (\<lambda>_. False)"
    "db_pending_breakpoints d2 = db_pending_breakpoints e" "db_load_address d2 = db_load_address e"
    "db_syms d2 = db_syms e" "db_pid d2 = db_pid e" "db_pending_signal d2 = db_pending_signal e"
    "t_regs (w_tracee d2) = t_regs (w_tracee e)"
    using resolve_pending_ok[OF core e(1-6) pl] by blast
  let ?d' = "d2\<lparr>db_syms := (db_syms d2)\<lparr>sy_proc := Some (t_pid t)\<rparr>\<rparr>"
  have "setup_dwfl (db_syms d2) (db_pid d2) = Inr ((db_syms d2)\<lparr>sy_proc := Some (t_pid t)\<rparr>)"
    using rep d2(8,9) by (simp add: setup_dwfl_def e_def)
  then have "spawn_loaded S d = Inr ?d'"
    using argv wait la d2(1) by (simp add: spawn_loaded_def t(1) e_def)
  moreover from this have "spawn_tracee S d = continue_execution S ?d'"
    by (simp add: spawn_tracee_loaded)
  moreover have "session_ok (t_mem t) ?d'"
    using d2(2) by (simp add: session_ok_def attached_def core_ok_def locs_mapped_def located_def)
  moreover have "arm_all e ps A = arm_all (d\<lparr>db_load_address := la\<rparr>) ps A" for ps A
    by (rule arm_all_cong) (simp_all add: e_def)
  moreover have "armed ?d' = armed d2" by (simp add: armed_def fun_eq_iff)
  ultimately show ?thesis
    using d2 e by (intro exI[of _ ?d']) (simp add: same_bps_def temp_at_def e_def)
qed

end
