(* ===== verification/Debugger_Temp.thy ===== *)
theory Debugger_Temp
  imports Debugger_Run
begin

text \<open>
  Temporary locations, which \<open>finish\<close>, \<open>next\<close> and \<open>backtrace\<close> plant and remove again: on a
  free address the pair is a round trip, on an occupied one planting changes nothing.
\<close>

section \<open>An occupied address\<close>

lemma set_temp_occupied:
  assumes att: "attached orig d" and a: "a \<noteq> 0" "mapped8 orig a" and occ: "addr_of d k = Some a"
  shows "set_temp_bp_location a d = Inr (False, d\<lparr>w_next := Suc (w_next d)\<rparr>)"
proof -
  let ?l = "w_next d" and ?m = "t_mem (w_tracee d)"
  have pok: "patch_ok orig d" and act: "db_state d = ACTIVE" and pid: "db_pid d \<noteq> 0" "db_pid d = t_pid (w_tracee d)"
    and h: "heap_ok d" and mok: "map_ok (db_bp_locations d)"
    using att by (simp_all add: attached_def core_ok_def locs_mapped_def)
  have st: "is_stopped (w_tracee d) (db_pid d)" using pok pid by (simp add: patch_ok_def sites_ok_def)
  have mp: "mapped8 ?m a" using a mapped_orig[OF pok] by simp
  define K where "K = \<lparr>l_pid = db_pid d, l_patched = False, l_is_temp = True, l_saved_data = 0,
      l_running_addr = a, l_bp_list = None\<rparr>"
  define d1 where "d1 = set_loc ?l K (d\<lparr>w_next := Suc ?l\<rparr>)"
  have K1: "w_locs d1 ?l = Some K" "w_tracee d1 = w_tracee d" by (simp_all add: d1_def)
  have KK: "\<not> l_patched K" "l_pid K = db_pid d" "l_running_addr K = a" "l_is_temp K" by (simp_all add: K_def)
  obtain sd where sd: "Some sd = ?m a" "loc_enable ?l d1 = Inr (repatch ?l True sd (?m(a \<mapsto> 0xCC)) d1)"
    using loc_enable_effect[of d1 K ?l] st mp K1 KK by auto
  define d2 where "d2 = repatch ?l True sd (?m(a \<mapsto> 0xCC)) d1"
  have init: "loc_init (db_pid d) a None True d = Inr (?l, d2)"
    using pid(1) a sd(2) by (simp add: loc_init_def Let_def d2_def d1_def K_def)
  have "map_abs (db_bp_locations d) a = Some k" using att occ by (simp add: attached_def locs_mapped_addr)
  moreover have d2m: "db_bp_locations d2 = db_bp_locations d" by (simp add: d2_def d1_def repatch_def set_loc_def)
  ultimately have ins: "map_insert (db_bp_locations d2) a (Some ?l) = Inr (False, db_bp_locations d)"
    using hm.insert_present_law[OF mok, of a "Some ?l"] by simp
  let ?K2 = "K\<lparr>l_saved_data := sd, l_patched := True\<rparr>"
  have K2: "w_locs d2 ?l = Some ?K2" "w_tracee d2 = (w_tracee d)\<lparr>t_mem := ?m(a \<mapsto> 0xCC)\<rparr>"
    using K1 by (simp_all add: d2_def repatch_def)
  have dis: "loc_disable ?l d2 = Inr (repatch ?l False sd ((?m(a \<mapsto> 0xCC))(a \<mapsto> sd)) d2)"
    using loc_disable_effect[of d2 ?K2 ?l] K2 KK st mp by simp
  have restored: "(?m(a \<mapsto> 0xCC))(a \<mapsto> sd) = ?m" using sd(1) by (auto simp: fun_eq_iff)
  have free: "w_locs d ?l = None" using heap_fresh[OF h, of ?l] by simp
  have "loc_free ?l d2 = Inr ((repatch ?l False sd ?m d2)\<lparr>w_locs := (w_locs (repatch ?l False sd ?m d2))(?l := None)\<rparr>)"
    using K2(1) KK(4) dis restored by (simp add: loc_free_def)
  also have "(repatch ?l False sd ?m d2)\<lparr>w_locs := (w_locs (repatch ?l False sd ?m d2))(?l := None)\<rparr> =
      d\<lparr>w_next := Suc ?l\<rparr>"
    using free by (simp add: d2_def d1_def repatch_def set_loc_def fun_upd_idem)
  finally have "loc_free ?l d2 = Inr (d\<lparr>w_next := Suc ?l\<rparr>)" .
  with init ins act show ?thesis by (simp add: set_temp_bp_location_def)
qed

section \<open>A free address\<close>

lemma set_temp_fresh:
  assumes att: "attached orig d" and a: "a \<noteq> 0" "mapped8 orig a" and none: "\<And>k. addr_of d k \<noteq> Some a"
  shows "\<exists>d1. set_temp_bp_location a d = Inr (True, d1) \<and> attached orig d1 \<and> w_bps d1 = w_bps d \<and>
    (\<forall>k. map_option loc_place (w_locs d1 k) =
       (if k = w_next d then Some (db_pid d, True, a) else map_option loc_place (w_locs d k))) \<and>
    (\<forall>k. patch_on d1 k \<longleftrightarrow> k = w_next d \<or> patch_on d k) \<and>
    (\<forall>x. armed d1 x \<longleftrightarrow> x = a \<or> armed d x) \<and> rest_same (d\<lparr>db_bp_locations := db_bp_locations d1\<rparr>) d1"
proof -
  let ?l = "w_next d"
  have wok: "world_ok orig d" and pok: "patch_ok orig d" and act: "db_state d = ACTIVE"
    and pid: "db_pid d = t_pid (w_tracee d)" "db_pid d \<noteq> 0" and mok: "map_ok (db_bp_locations d)"
    and ms: "maps_ok d"
    using att by (simp_all add: attached_world attached_def core_ok_def locs_mapped_def)
  have free: "w_locs d ?l = None" using heap_fresh[of d ?l] wok by (simp add: world_ok_def)
  have new: "\<forall>k K. w_locs d k = Some K \<longrightarrow> l_running_addr K \<noteq> a" using none by auto
  have mp: "mapped8 (t_mem (w_tracee d)) a" using a mapped_orig[OF pok] by simp
  obtain w' where w': "loc_init (db_pid d) a None True d = Inr (?l, w')" "world_ok orig w'" "rest_same d w'"
    "w_next w' = Suc ?l" "w_bps w' = w_bps d"
    "\<forall>k. map_option loc_place (w_locs w' k) =
      (if k = ?l then Some (db_pid d, True, a) else map_option loc_place (w_locs d k))"
    "\<forall>k. patch_on w' k \<longleftrightarrow> k = ?l \<or> patch_on d k"
    using loc_init_temp_ok[OF wok pid a(1) mp new] by blast
  note f = more_fields[OF rest_same_more[OF w'(3)]]
  have c: "w_id_counter w' = w_id_counter d" using w'(3) by (simp add: rest_same_def)
  have abs: "map_abs (db_bp_locations d) x = Some k \<longleftrightarrow> addr_of d k = Some x" for x k
    using att by (simp add: attached_def locs_mapped_addr)
  have "map_abs (db_bp_locations d) a = None"
    using abs none by (metis not_Some_eq)
  then obtain m where m: "map_insert (db_bp_locations d) a (Some ?l) = Inr (True, m)" "map_ok m"
    "map_abs m = (map_abs (db_bp_locations d))(a \<mapsto> ?l)"
    using hm.insert_fresh_law[OF mok] by blast
  let ?d1 = "w'\<lparr>db_bp_locations := m\<rparr>"
  have addr: "addr_of w' k = (if k = ?l then Some a else addr_of d k)" for k
  proof -
    have "map_option (snd \<circ> snd) (map_option loc_place (w_locs w' k)) =
        (if k = ?l then Some a else map_option (snd \<circ> snd) (map_option loc_place (w_locs d k)))"
      using w'(6) by simp
    moreover have "(snd \<circ> snd) \<circ> loc_place = l_running_addr" by (simp add: fun_eq_iff loc_place_def)
    ultimately show ?thesis by (simp add: option.map_comp)
  qed
  have "map_abs m x = Some k \<longleftrightarrow> (if k = ?l then Some a else addr_of d k) = Some x" for x k
    using m(3) abs[of x k] none[of k] free by (cases "x = a"; cases "k = ?l") simp_all
  then have "locs_mapped ?d1" using m(2) addr by (simp add: locs_mapped_addr)
  moreover have "maps_ok w'"
    using maps_ok_cong[of d w'] w'(5) c f ms by (simp add: same_bps_def)
  moreover have "t_pid (w_tracee w') = t_pid (w_tracee d)" using w'(3) by (simp add: rest_same_def)
  ultimately have "attached orig ?d1"
    using att w'(2) f by (simp add: attached_def core_ok_def world_ok_def)
  moreover have "armed ?d1 x \<longleftrightarrow> x = a \<or> armed d x" for x
  proof -
    have "armed ?d1 x \<longleftrightarrow> (\<exists>k. (if k = ?l then Some a else addr_of d k) = Some x \<and>
        (if k = ?l then True else patch_on d k))"
      using w'(7) addr by (auto simp: armed_addr)
    also have "\<dots> \<longleftrightarrow> (if x = a then True else \<exists>k. addr_of d k = Some x \<and> patch_on d k)"
      by (rule ex_entry_new) (use free none in simp_all)
    finally show ?thesis by (auto simp: armed_addr)
  qed
  moreover have "rest_same (d\<lparr>db_bp_locations := m\<rparr>) ?d1"
    using w'(3) by (cases d; cases w') (simp add: rest_same_def)
  ultimately show ?thesis
    using w' m(1) act f by (intro exI[of _ ?d1]) (simp add: set_temp_bp_location_def)
qed

lemma unset_temp_ok:
  assumes att: "attached orig d" and l: "addr_of d l = Some a"
  shows "\<exists>m h. unset_temp_bp_location a d = Inr ((without_loc l m d)\<lparr>db_bp_locations := h\<rparr>) \<and>
    attached orig ((without_loc l m d)\<lparr>db_bp_locations := h\<rparr>)"
proof -
  have wok: "world_ok orig d" and pok: "patch_ok orig d" and act: "db_state d = ACTIVE"
    and mok: "map_ok (db_bp_locations d)" and ms: "maps_ok d"
    using att by (simp_all add: attached_world attached_def core_ok_def locs_mapped_def)
  have abs: "map_abs (db_bp_locations d) x = Some k \<longleftrightarrow> addr_of d k = Some x" for x k
    using att by (simp add: attached_def locs_mapped_addr)
  obtain L where L: "w_locs d l = Some L" using l by auto
  obtain m where m: "loc_free l d = Inr (without_loc l m d)" "world_ok orig (without_loc l m d)"
    using loc_free_ok[OF wok L] by blast
  have some: "map_abs (db_bp_locations d) a = Some l" using abs l by simp
  obtain h where h: "map_ok h" "map_abs h = (map_abs (db_bp_locations d))(a := None)"
    "\<forall>cf (s :: debugger). map_delete cf (db_bp_locations d) a s = res_bind (call_cleanup cf l s) (\<lambda>s'. Inr (h, s'))"
    using hm.delete_present_law[OF mok some] by blast
  let ?w = "without_loc l m d" and ?d' = "(without_loc l m d)\<lparr>db_bp_locations := h\<rparr>"
  have run: "unset_temp_bp_location a d = Inr ?d'"
    using act mok some by (simp add: unset_temp_bp_location_def hm.lookup_law h(3) call_cleanup_def m(1))
  have "bp_world.more ?w = bp_world.more d" by simp
  note f = more_fields[OF this]
  have uniq: "addr_of d k = Some a \<longleftrightarrow> k = l" for k using addr_unique[OF pok l, of k] l by auto
  have "map_abs h x = Some k \<longleftrightarrow> addr_of ?w k = Some x" for x k
    using h(2) abs[of x k] uniq[of k] by (cases "x = a"; cases "k = l") auto
  then have "locs_mapped ?d'" using h(1) by (simp add: locs_mapped_addr)
  moreover have "maps_ok ?w" using maps_ok_cong[of d ?w] f ms by simp
  ultimately have "attached orig ?d'"
    using att m(2) f by (simp add: attached_def core_ok_def world_ok_def)
  with run show ?thesis by blast
qed

end
