(* ===== verification/Symbols_Props.thy ===== *)
theory Symbols_Props
  imports Symbols
begin

text \<open>
  What the symbol component gets right: the capacity of the section list, the addresses it
  computes for the entries of the procedure linkage table, the function cache, the search
  for the function at an address, the line lookup and the parsing of the load address.
\<close>

section \<open>Sections\<close>

definition section_matches :: "elf_file \<Rightarrow> string option \<Rightarrow> nat \<Rightarrow> bool" where
  "section_matches ef nm i =
     (case nm of None \<Rightarrow> True | Some s \<Rightarrow> strstr (the (get_section_name_by_index ef i)) s)"

lemma collect_sections_eq:
  assumes "\<forall>i \<in> set is. get_section_name_by_index ef i \<noteq> None" "length acc \<le> 100"
  shows "collect_sections ef nm is acc =
    (if length acc + length (filter (section_matches ef nm) is) \<le> 100
     then Inr (acc @ filter (section_matches ef nm) is) else Inl OutOfBounds)"
  using assms
proof (induction "is" arbitrary: acc)
  case (Cons i "is")
  then obtain name where "get_section_name_by_index ef i = Some name" by auto
  then have step: "collect_sections ef nm (i # is) acc =
      (if section_matches ef nm i
       then if length acc < 100 then collect_sections ef nm is (acc @ [i]) else Inl OutOfBounds
       else collect_sections ef nm is acc)"
    by (cases nm) (simp_all add: section_matches_def)
  show ?case
  proof (cases "section_matches ef nm i \<and> \<not> length acc < 100")
    case True
    then show ?thesis using step Cons.prems by simp
  next
    case False
    then show ?thesis unfolding step using Cons.prems Cons.IH[of acc] Cons.IH[of "acc @ [i]"] by auto
  qed
qed simp

lemma find_plt_names:
  assumes "find_plt ef is (a, b) = Inr (p, r)"
  shows "(p = a \<or> (\<exists>i \<in> set is. p = Some i \<and> get_section_name_by_index ef i = Some ''.plt'')) \<and>
    (r = b \<or> (\<exists>i \<in> set is. r = Some i \<and> get_section_name_by_index ef i = Some ''.rela.plt''))"
  using assms
proof (induction "is" arbitrary: a b)
  case (Cons i "is")
  then obtain name where n: "get_section_name_by_index ef i = Some name"
    "find_plt ef is (if name = ''.plt'' then (Some i, b) else if name = ''.rela.plt'' then (a, Some i) else (a, b)) = Inr (p, r)"
    by (auto cong: if_cong)
  consider "name = ''.plt''" | "name = ''.rela.plt''" | "name \<noteq> ''.plt''" "name \<noteq> ''.rela.plt''" by blast
  then show ?case
  proof cases
    case 1
    then show ?thesis using n Cons.IH[of "Some i" b] by auto
  next
    case 2
    then show ?thesis using n Cons.IH[of a "Some i"] by auto
  next
    case 3
    then show ?thesis using n Cons.IH[of a b] by auto
  qed
qed simp

lemma plt_loop_addr:
  "plt_loop ef ds syms relocs a i n = Inr es \<Longrightarrow>
    length es = n \<and> (\<forall>k < n. snd (es ! k) = a + 0x10 * (of_nat (i + k) + 1))"
proof (induction n arbitrary: i es)
  case (Suc n)
  then obtain rest x where r: "plt_loop ef ds syms relocs a (Suc i) n = Inr rest"
    "es = (x, a + 0x10 * (of_nat i + 1)) # rest" by auto
  have IH: "length rest = n" "\<And>k. k < n \<Longrightarrow> snd (rest ! k) = a + 0x10 * (of_nat (Suc i + k) + 1)"
    using Suc.IH[OF r(1)] by auto
  have "snd (es ! k) = a + 0x10 * (of_nat (i + k) + 1)" if "k < Suc n" for k
    using that IH r(2) by (cases k) (auto simp: algebra_simps)
  with IH r show ?case by simp
qed simp

section \<open>The function cache\<close>

lemma name_plt_eq:
  "name_plt es = Inr fs \<Longrightarrow>
    fs = map (\<lambda>e. \<lparr>fe_name = the (fst e) @ ''@plt'', fe_addr = snd e, fe_size = 0x10\<rparr>) es"
  by (induction es arbitrary: fs) auto

definition is_func :: "elf_sym \<Rightarrow> bool" where
  "is_func sy \<longleftrightarrow> st_info sy AND 15 = 2 \<and> st_value sy \<noteq> 0"

lemma func_symbols_eq:
  "func_symbols ef si ss = Inr fs \<Longrightarrow>
    fs = map (\<lambda>sy. \<lparr>fe_name = the (ef_strptr ef si (st_name sy)), fe_addr = st_value sy, fe_size = st_size sy\<rparr>)
      (filter is_func ss)"
  by (induction ss arbitrary: fs) (auto simp: is_func_def split: if_splits)

lemma cu_names_eq:
  "length acc \<le> cap \<Longrightarrow> cu_names cap cus acc =
    (if length acc + length (List.map_filter cu_name cus) \<le> cap
     then Inr (acc @ List.map_filter cu_name cus) else Inl OutOfBounds)"
  by (induction cus arbitrary: acc) (auto simp: map_filter_simps split: option.splits)

section \<open>Functions and lines\<close>

definition die_covers :: "u64 \<Rightarrow> func_die \<Rightarrow> bool" where
  "die_covers a die \<longleftrightarrow> (\<exists>lo hi. fd_lowpc die = Some lo \<and> fd_highpc die = Some hi \<and> lo \<le> a \<and> a < hi)"

lemma dwarf_getfuncs_find:
  assumes "\<forall>die \<in> set dies. fd_lowpc die \<noteq> None \<and> fd_highpc die \<noteq> None"
  shows "dwarf_getfuncs a dies = Inr (find (die_covers a) dies)"
  using assms
proof (induction dies)
  case (Cons die dies)
  then obtain lo hi where "fd_lowpc die = Some lo" "fd_highpc die = Some hi" by auto
  then have "function_die_callback a die = Inr (die_covers a die)"
    by (simp add: function_die_callback_def die_covers_def)
  with Cons show ?case by simp
qed simp

lemma find_cu_first:
  assumes "\<forall>cu \<in> set cus. cu_name cu \<noteq> None"
  shows "find_cu (Some f) cus = Inr (map_option (\<lambda>cu. (cu, Some f)) (find (\<lambda>cu. cu_name cu = Some f) cus))"
  using assms
proof (induction cus)
  case (Cons cu cus)
  then obtain name where "cu_name cu = Some name" by auto
  then show ?case using Cons by simp
qed simp

section \<open>A small executable\<close>

text \<open>
  Four sections after the null section, named by their index; one relocation to the one
  dynamic symbol, and two symbols, of which one is a function.
\<close>

definition demo_section :: "nat \<Rightarrow> u32 \<Rightarrow> u64 \<Rightarrow> elf_data option \<Rightarrow> elf_section" where
  "demo_section nm ty addr data = \<lparr>sh_name = nm, sh_type = ty, sh_flags = 0, sh_addr = addr,
     sh_offset = 0, sh_size = 0, sh_link = 0, sh_info = 0, sh_addralign = 0, sh_entsize = 24,
     sec_data = data\<rparr>"

definition demo_sym :: "nat \<Rightarrow> u8 \<Rightarrow> u64 \<Rightarrow> elf_sym" where
  "demo_sym nm info v = \<lparr>st_name = nm, st_info = info, st_other = 0, st_shndx = 0, st_value = v, st_size = 8\<rparr>"

definition demo_elf :: elf_file where
  "demo_elf = \<lparr>ef_ehdr = \<lparr>e_ident = [0x7f, 0x45, 0x4c, 0x46, 2, 1, 1, 0, 0, 0, 0, 0, 0, 0, 0, 0], e_type = 3, e_machine = 62, e_version = 1, e_entry = 0x1040, e_phoff = 64, e_shoff = 0x2000, e_ehsize = 64,
     e_phentsize = 56, e_phnum = 2, e_shentsize = 64, e_shnum = 4, e_shstrndx = 0\<rparr>,
     ef_sections =
       [demo_section 0 0 0 None,
        demo_section 1 1 0x1000 None,
        demo_section 2 4 0 (Some \<lparr>d_size = 24, d_syms = [], d_relas = [\<lparr>r_sym = 0\<rparr>]\<rparr>),
        demo_section 3 11 0 (Some \<lparr>d_size = 24, d_syms = [demo_sym 9 0x12 0], d_relas = []\<rparr>),
        demo_section 4 2 0 (Some \<lparr>d_size = 48, d_syms = [demo_sym 7 0x12 0x1139, demo_sym 8 0x11 0x4000], d_relas = []\<rparr>)],
     ef_strptr = (\<lambda>_ n. Some ([''?'', ''.plt'', ''.rela.plt'', ''.dynsym'', ''.symtab'', ''?'', ''?'',
                               ''main'', ''counter'', ''puts''] ! n))\<rparr>"

definition demo_cache :: cached_data where
  "demo_cache = \<lparr>strtab_idx = 0, dynstr_idx = 0, symbol_table = Some 4, dynamic_symbol_table = Some 3,
     funcs_list = [], file_names = []\<rparr>"

definition demo_die :: func_die where
  "demo_die = \<lparr>fd_name = Some ''main'', fd_lowpc = Some 0x1139, fd_highpc = Some 0x1150\<rparr>"

definition demo_cu :: dw_cu where
  "demo_cu = \<lparr>cu_name = Some ''main.c'', cu_bias = 0,
     cu_funcs = [\<lparr>fd_name = Some ''foo'', fd_lowpc = Some 0x1100, fd_highpc = Some 0x1139\<rparr>, demo_die]\<rparr>"

definition demo_dwarf :: dwarf_info where
  "demo_dwarf = \<lparr>dw_cus = [demo_cu],
     dw_addrmodule = (\<lambda>_ _. True),
     dw_getsrc = (\<lambda>_ pc. Some \<lparr>sl_file = Some ''main.c'', sl_line = 4, sl_comp_dir = None\<rparr>),
     dw_addrdie = (\<lambda>_ _. Some demo_cu),
     dw_getsrc_file = (\<lambda>_ _ n. if n = 4 then Some [0x1140] else None),
     dw_report = (\<lambda>_. True)\<rparr>"

definition demo_syms :: dbg_symbols where
  "demo_syms = \<lparr>sy_elf = demo_elf, sy_dwarf = demo_dwarf, sy_proc = Some 7, sy_has_dwarf = True,
     sy_mtime = 10, sy_cache = demo_cache\<rparr>"

section \<open>Properties\<close>

text \<open>
  \<open>get_sections\<close> returns the matching sections in file order as long as there are at
  most 100 of them; one more is stored past the end of its fixed array.
\<close>

theorem get_sections_capacity:
  assumes "\<forall>i \<in> set (elf_nextscn_all ef). get_section_name_by_index ef i \<noteq> None"
  shows "get_sections ef nm =
    (if length (filter (section_matches ef nm) (elf_nextscn_all ef)) \<le> 100
     then Inr (filter (section_matches ef nm) (elf_nextscn_all ef)) else Inl OutOfBounds)"
  unfolding get_sections_def using collect_sections_eq[OF assms, of "[]"] by simp

theorem get_sections_capacity_witness:
  "get_sections (demo_elf\<lparr>ef_sections := replicate 102 (demo_section 1 1 0 None)\<rparr>) None = Inl OutOfBounds
   \<and> get_sections demo_elf (Some ''plt'') = Inr [1, 2]"
proof
  let ?ef = "demo_elf\<lparr>ef_sections := replicate 102 (demo_section 1 1 0 None)\<rparr>"
  have nn: "get_section_name_by_index e i \<noteq> None" if "ef_strptr e = ef_strptr demo_elf" for e i
    using that by (simp add: get_section_name_by_index_def demo_elf_def)
  have "filter (section_matches ?ef None) (elf_nextscn_all ?ef) = [1..<102]"
    by (simp add: section_matches_def elf_nextscn_all_def)
  then show "get_sections ?ef None = Inl OutOfBounds"
    using get_sections_capacity[of ?ef None] nn by simp
  have "filter (section_matches demo_elf (Some ''plt'')) (elf_nextscn_all demo_elf) = [1, 2]" by code_simp
  then show "get_sections demo_elf (Some ''plt'') = Inr [1, 2]"
    using get_sections_capacity[of demo_elf "Some ''plt''"] nn by simp
qed

text \<open>
  when the linkage table is there, \<open>get_plt_entries\<close> gives one entry per relocation of
  \<open>.rela.plt\<close>, and the address of entry \<open>i\<close> is that of slot \<open>i + 1\<close> of the section \<open>.plt\<close>:
  the addresses are distinct multiples of 16 past its start and never that of slot 0.
\<close>

theorem plt_entries_follow_slot_zero:
  assumes "get_plt_entries ef cache = Inr (Some es)"
  shows "\<exists>scn. get_section_name_by_index ef scn = Some ''.plt'' \<and>
    (\<forall>i < length es. snd (es ! i) = sh_addr (ef_sections ef ! scn) + 0x10 * (of_nat i + 1)) \<and>
    (\<exists>rela. get_section_name_by_index ef rela = Some ''.rela.plt'' \<and>
      (\<exists>data. sec_data (ef_sections ef ! rela) = Some data \<and>
         length es = d_size data div unat (sh_entsize (ef_sections ef ! rela))))"
proof -
  obtain secs p' r' where f0: "get_sections ef (Some ''plt'') = Inr secs"
    "find_plt ef secs (None, None) = Inr (p', r')"
    using assms by (auto simp: get_plt_entries_def)
  from f0 assms obtain p r dynsym where fd: "p' = Some p" "r' = Some r" "dynamic_symbol_table cache = Some dynsym"
    by (cases p'; cases r'; cases "dynamic_symbol_table cache") (auto simp: get_plt_entries_def)
  obtain rela_data dynsym_data where
    d: "elf_getdata ef r = Inr rela_data" "elf_getdata ef dynsym = Inr dynsym_data"
    and loop: "plt_loop ef (nat (dynstr_idx cache)) (d_syms dynsym_data) (d_relas rela_data)
      (sh_addr (ef_sections ef ! p)) 0 (d_size rela_data div unat (sh_entsize (ef_sections ef ! r))) = Inr es"
    using assms f0 fd by (auto simp: get_plt_entries_def Let_def split: if_splits)
  have n': "get_section_name_by_index ef p = Some ''.plt''" "get_section_name_by_index ef r = Some ''.rela.plt''"
    using find_plt_names[OF f0(2)] fd by auto
  have "sec_data (ef_sections ef ! r) = Some rela_data"
    using d(1) by (auto simp: elf_getdata_def split: if_splits)
  then show ?thesis
    using n' plt_loop_addr[OF loop] by (intro exI[of _ p] conjI exI[of _ r] exI[of _ rela_data]) auto
qed

theorem plt_entries_follow_slot_zero_witness:
  "get_plt_entries demo_elf demo_cache = Inr (Some [(Some ''puts'', 0x1010)]) \<and>
   (\<exists>scn. get_section_name_by_index demo_elf scn = Some ''.plt'' \<and>
     0x1010 = sh_addr (ef_sections demo_elf ! scn) + 0x10)"
proof -
  have r: "get_plt_entries demo_elf demo_cache = Inr (Some [(Some ''puts'', 0x1010)])" by code_simp
  show ?thesis using plt_entries_follow_slot_zero[OF r] r by auto
qed

text \<open>
  C32: the function cache is sound and complete: after \<open>symbols_init\<close> has filled it, it holds
  the linkage table entries under their names with \<open>@plt\<close> appended, followed by exactly the
  symbols of type function with a non-zero value, in table order.
\<close>

theorem function_cache_exact:
  assumes "symbol_table cache = Some st" "cache_all_functions_and_filenames ef dw cache = Inr c"
  shows "\<exists>data plt. elf_getdata ef st = Inr data \<and> get_plt_entries ef cache = Inr plt \<and>
    funcs_list c =
      map (\<lambda>e. \<lparr>fe_name = the (fst e) @ ''@plt'', fe_addr = snd e, fe_size = 0x10\<rparr>)
        (case plt of None \<Rightarrow> [] | Some es \<Rightarrow> es) @
      map (\<lambda>sy. \<lparr>fe_name = the (ef_strptr ef (nat (strtab_idx cache)) (st_name sy)),
                fe_addr = st_value sy, fe_size = st_size sy\<rparr>)
        (filter (\<lambda>sy. st_info sy AND 15 = 2 \<and> st_value sy \<noteq> 0) (d_syms data))"
proof -
  obtain data plt plts funcs where r: "elf_getdata ef st = Inr data" "get_plt_entries ef cache = Inr plt"
    "name_plt (case plt of None \<Rightarrow> [] | Some es \<Rightarrow> es) = Inr plts"
    "func_symbols ef (nat (strtab_idx cache)) (d_syms data) = Inr funcs"
    "funcs_list c = plts @ funcs"
    using assms by (auto simp: cache_all_functions_and_filenames_def get_symbols_def)
  have "filter is_func = filter (\<lambda>sy. st_info sy AND 15 = 2 \<and> st_value sy \<noteq> 0)"
    by (rule arg_cong[where f = filter]) (simp add: is_func_def fun_eq_iff)
  with r name_plt_eq[OF r(3)] func_symbols_eq[OF r(4)] show ?thesis by auto
qed

theorem function_cache_exact_witness:
  "\<exists>c. cache_all_functions_and_filenames demo_elf demo_dwarf demo_cache = Inr c \<and>
     map fe_name (funcs_list c) = [''puts@plt'', ''main'']"
proof -
  have r: "cache_all_functions_and_filenames demo_elf demo_dwarf demo_cache =
      Inr (demo_cache\<lparr>funcs_list := [\<lparr>fe_name = ''puts@plt'', fe_addr = 0x1010, fe_size = 0x10\<rparr>,
             \<lparr>fe_name = ''main'', fe_addr = 0x1139, fe_size = 8\<rparr>], file_names := [''main.c'']\<rparr>)"
    by code_simp
  have st: "symbol_table demo_cache = Some 4" by (simp add: demo_cache_def)
  show ?thesis using function_cache_exact[OF st r] r by simp
qed

text \<open>
  the array of file names has as many slots as there are symbols: caching the names of
  the compilation units stores past its end exactly when more of them are named than the
  symbol table has entries, and otherwise keeps them all in order.
\<close>

theorem file_name_cache_capacity:
  "cu_names (length syms) cus [] =
    (if length (List.map_filter cu_name cus) \<le> length syms
     then Inr (List.map_filter cu_name cus) else Inl OutOfBounds)"
  by (simp add: cu_names_eq)

text \<open>
  \<open>get_func_die_from_pc\<close> finds the right function: when every function of the
  compilation unit has bounds, the result is the first one whose half-open range contains
  the address relative to the load address, and nothing when there is none.
\<close>

theorem function_at_pc_contains_it:
  assumes "get_cudie_from_pc syms pc = Inr (Some cu)"
    and "\<forall>die \<in> set (cu_funcs cu). fd_lowpc die \<noteq> None \<and> fd_highpc die \<noteq> None"
  shows "get_func_die_from_pc syms pc load =
    Inr (find (\<lambda>die. the (fd_lowpc die) \<le> pc - load \<and> pc - load < the (fd_highpc die)) (cu_funcs cu))"
proof -
  have "die_covers (pc - load) die \<longleftrightarrow> the (fd_lowpc die) \<le> pc - load \<and> pc - load < the (fd_highpc die)"
    if "die \<in> set (cu_funcs cu)" for die
    using assms(2) that by (auto simp: die_covers_def)
  then have "find (die_covers (pc - load)) (cu_funcs cu) =
      find (\<lambda>die. the (fd_lowpc die) \<le> pc - load \<and> pc - load < the (fd_highpc die)) (cu_funcs cu)"
    by (intro find_cong) auto
  then show ?thesis
    using assms(1) dwarf_getfuncs_find[OF assms(2)] by (simp add: get_func_die_from_pc_def)
qed

theorem function_at_pc_contains_it_witness:
  "get_func_die_from_pc demo_syms 0x5555555551140 0x5555555550000 = Inr (Some demo_die)"
proof -
  have cu: "get_cudie_from_pc demo_syms 0x5555555551140 = Inr (Some demo_cu)"
    by (simp add: get_cudie_from_pc_def dwfl_addrmodule_def demo_syms_def demo_dwarf_def)
  show ?thesis
    using function_at_pc_contains_it[OF cu, of "0x5555555550000"]
    by (simp add: demo_cu_def demo_die_def)
qed

text \<open>
  \<open>get_addr_from_lineno\<close> answers from the first compilation unit of exactly the given
  name: a non-zero address is the first one the line table of that unit has for the line,
  without the bias, and no such unit means 0.
\<close>

theorem line_address_from_named_unit:
  assumes "\<forall>cu \<in> set (dw_cus (sy_dwarf syms)). cu_name cu \<noteq> None"
  shows "\<exists>a. get_addr_from_lineno syms (Some f) n = Inr (a, Some f) \<and>
    (case find (\<lambda>cu. cu_name cu = Some f) (dw_cus (sy_dwarf syms)) of
       None \<Rightarrow> a = 0
     | Some cu \<Rightarrow>
         a = (case dw_getsrc_file (sy_dwarf syms) cu f n of
                Some (addr # _) \<Rightarrow> addr - cu_bias cu | _ \<Rightarrow> 0))"
  using find_cu_first[OF assms, of f]
  by (cases "find (\<lambda>cu. cu_name cu = Some f) (dw_cus (sy_dwarf syms))")
    (auto simp: get_addr_from_lineno_def split: option.splits list.splits)

theorem line_address_from_named_unit_witness:
  "get_addr_from_lineno demo_syms (Some ''main.c'') 4 = Inr (0x1140, Some ''main.c'') \<and>
   get_addr_from_lineno demo_syms (Some ''other.c'') 4 = Inr (0, Some ''other.c'')"
  using line_address_from_named_unit[of demo_syms "''main.c''" 4]
    line_address_from_named_unit[of demo_syms "''other.c''" 4]
  by (simp add: demo_syms_def demo_dwarf_def demo_cu_def)

text \<open>
  C33: the load address of a position-independent executable is read back exactly: for a
  memory map whose first line is a pair of hexadecimal addresses, as the kernel prints
  it, the result is the start address, for every 64-bit value; other file types give 0.
\<close>

theorem load_address_roundtrip:
  fixes a b :: u64
  assumes "env_maps E t = Some ((digits_of 16 (unat a) @ ''-'' @ digits_of 16 (unat b) @ CHR '' '' # perms) # lines)"
  shows "initialize_load_address E t syms = Inr (if e_type (ef_ehdr (sy_elf syms)) = 3 then a else 0)"
proof -
  have nd: "\<not> is_digit_of 16 CHR ''-''" "\<not> is_digit_of 16 CHR '' ''"
    by (simp_all add: is_digit_of_def digit_value_def)
  have lx: "scan_lx (digits_of 16 (unat w) @ c # rest) = Some (w, c # rest)"
    if "c = CHR ''-'' \<or> c = CHR '' ''" for w :: u64 and c rest
  proof -
    have "unat w < 2 ^ 64" using unsigned_less[of w] by simp
    then show ?thesis
      using scan_digits_of[of 16 "c # rest" "unat w"] that nd by (auto simp: scan_lx_def)
  qed
  have "scan_maps_line (digits_of 16 (unat a) @ ''-'' @ digits_of 16 (unat b) @ CHR '' '' # perms) = Some (a, b)"
    using lx[of "CHR ''-''" a] lx[of "CHR '' ''" b perms] by (simp add: scan_maps_line_def)
  then show ?thesis using assms by (simp add: initialize_load_address_def)
qed

definition demo_maps_env :: program_env where
  "demo_maps_env = \<lparr>env_spawn = (\<lambda>_ _. undefined), env_cont = (\<lambda>_ t. t), env_step = (\<lambda>t. t),
     env_maps = (\<lambda>_. Some [''555555554000-555555555000 r--p'']) \<rparr>"

theorem load_address_roundtrip_witness:
  "initialize_load_address demo_maps_env
     \<lparr>t_pid = 7, t_run = Dead, t_mem = (\<lambda>_. None), t_regs = [], t_inner = 0\<rparr> demo_syms = Inr 0x555555554000"
proof -
  have d: "digits_of 16 0x555555554000 = ''555555554000''" "digits_of 16 0x555555555000 = ''555555555000''"
    by (simp_all add: digits_of.simps digit_char_def)
  show ?thesis
    using load_address_roundtrip[of demo_maps_env _ "0x555555554000" "0x555555555000" "''r--p''" "[]" demo_syms] d
    by (simp add: demo_maps_env_def demo_syms_def demo_elf_def)
qed

end
