(* ===== verification/Debugger_Demo.thy ===== *)
theory Debugger_Demo
  imports Debugger_Temp Symbols_Props
begin

text \<open>
  The concrete debugger the witnesses of the debugger's properties use: the process of
  theory Breakpoint_Props with its two breakpoints at the address \<open>0x1000\<close>, the same
  debugger with the location patched and the process about to be continued, the same
  debugger without a tracee, and a system around it.
\<close>

definition demo_map :: "(u64 \<times> nat) list \<Rightarrow> (u64 \<times> nat) list \<Rightarrow> nat umap option" where
  "demo_map c0 c1 = Some \<lparr>m_size = 2, m_shift_bits = 63, m_elements = [c0, c1]\<rparr>"

lemma demo_index:
  "map_index \<lparr>m_size = 2, m_shift_bits = 63, m_elements = es\<rparr> (0 :: u64) = 0"
  "map_index \<lparr>m_size = 2, m_shift_bits = 63, m_elements = es\<rparr> (1 :: u64) = 1"
  "map_index \<lparr>m_size = 2, m_shift_bits = 63, m_elements = es\<rparr> (0x1000 :: u64) = 0"
proof -
  have "drop_bit 63 (0 * 11400714819323198485 :: u64) = 0" "drop_bit 63 (1 * 11400714819323198485 :: u64) = 1"
    "drop_bit 63 (0x1000 * 11400714819323198485 :: u64) = 0" by code_simp+
  then show "map_index \<lparr>m_size = 2, m_shift_bits = 63, m_elements = es\<rparr> (0 :: u64) = 0"
    "map_index \<lparr>m_size = 2, m_shift_bits = 63, m_elements = es\<rparr> (1 :: u64) = 1"
    "map_index \<lparr>m_size = 2, m_shift_bits = 63, m_elements = es\<rparr> (0x1000 :: u64) = 0"
    by (simp_all add: map_index_def)
qed

lemma demo_map_ok:
  assumes "set c0 \<subseteq> {(0, 1), (0x1000, 3)}" "set c1 \<subseteq> {(1, 2)}" "distinct (map fst c0)" "distinct (map fst c1)"
  shows "map_ok (demo_map c0 c1)"
proof -
  have z: "builtin_ctz 2 = 1" by code_simp
  have i0: "unat (map_index \<lparr>m_size = 2, m_shift_bits = 63, m_elements = [c0, c1]\<rparr> k) = 0"
    if "(k, v) \<in> set c0" for k v
    using that assms(1) demo_index[of "[c0, c1]"] by auto
  have i1: "unat (map_index \<lparr>m_size = 2, m_shift_bits = 63, m_elements = [c0, c1]\<rparr> k) = Suc 0"
    if "(k, v) \<in> set c1" for k v
    using that assms(2) demo_index[of "[c0, c1]"] by auto
  show ?thesis
    using assms(3,4) z i0 i1
    by (auto simp: map_ok_def demo_map_def wf_umap_def less_Suc_eq)
qed

text \<open>A key in the chain of its index, and one in no chain.\<close>

lemma demo_map_abs:
  assumes ok: "map_ok (demo_map c0 c1)"
  shows "map_abs (demo_map c0 c1) k = Some v \<longleftrightarrow> (k, v) \<in> set c0 \<or> (k, v) \<in> set c1"
proof -
  let ?ht = "\<lparr>m_size = 2, m_shift_bits = 63, m_elements = [c0, c1]\<rparr> :: nat umap"
  have wf: "wf_umap ?ht" using ok by (simp add: map_ok_def demo_map_def)
  have "umap_abs ?ht k = Some v \<longleftrightarrow> (k, v) \<in> set (umap_entries ?ht)"
    using umap_entries_abs[OF wf] umap_entries_distinct[OF wf] by (metis map_of_eq_Some_iff)
  then show ?thesis by (simp add: demo_map_def map_abs_def umap_entries_def)
qed

definition demo_debugger :: debugger where
  "demo_debugger = \<lparr>w_tracee = demo_tracee, w_id_counter = 2,
     w_bps = [1 \<mapsto> demo_bp 0 ''foo'' True, 2 \<mapsto> demo_bp 1 ''main'' False],
     w_locs = [3 \<mapsto> demo_loc], w_next = 4,
     db_process_name = ''a.out'', db_pid = 7, db_args = [SStr ''a.out'', SNull],
     db_state = ACTIVE, db_breakpoints = demo_map [(0, 1)] [(1, 2)],
     db_bp_locations = demo_map [(0x1000, 3)] [], db_pending_breakpoints = [1, 2],
     db_load_address = 0, db_pending_signal = 0, db_syms = demo_syms, db_out = [], db_answers = []\<rparr>"

lemma demo_debugger_sel [simp]:
  "w_tracee demo_debugger = demo_tracee" "w_id_counter demo_debugger = 2" "w_next demo_debugger = 4"
  "w_bps demo_debugger = [1 \<mapsto> demo_bp 0 ''foo'' True, 2 \<mapsto> demo_bp 1 ''main'' False]"
  "w_locs demo_debugger = [3 \<mapsto> demo_loc]" "db_pid demo_debugger = 7"
  "db_args demo_debugger = [SStr ''a.out'', SNull]" "db_state demo_debugger = ACTIVE"
  "db_breakpoints demo_debugger = demo_map [(0, 1)] [(1, 2)]"
  "db_bp_locations demo_debugger = demo_map [(0x1000, 3)] []"
  "db_pending_breakpoints demo_debugger = [1, 2]" "db_load_address demo_debugger = 0"
  "db_pending_signal demo_debugger = 0" "db_syms demo_debugger = demo_syms" "db_out demo_debugger = []"
  "db_process_name demo_debugger = ''a.out''"
  by (simp_all add: demo_debugger_def)

lemma demo_tracee_sel [simp]:
  "t_pid demo_tracee = 7" "t_run demo_tracee = Stopped 5 128" "t_mem demo_tracee = demo_mem"
  "t_regs demo_tracee = replicate 27 0"
  by (simp_all add: demo_tracee_def)

lemma demo_bp_addr [simp]: "b_instr_addr (demo_bp i s e) = 0x1000"
  by (simp add: demo_bp_def)

lemma demo_maps_ok: "maps_ok demo_debugger"
proof -
  have ok: "map_ok (demo_map [(0, 1)] [(1, 2)])" by (rule demo_map_ok) simp_all
  have "map_abs (demo_map [(0, 1)] [(1, 2)]) i = Some p \<longleftrightarrow> (\<exists>b. w_bps demo_debugger p = Some b \<and> b_id b = i)" for i p
    unfolding demo_map_abs[OF ok] by auto
  then show ?thesis using ok by (auto simp: maps_ok_def)
qed

lemma demo_session: "session_ok demo_mem demo_debugger"
proof -
  have w: "world_ok demo_mem demo_world" by (rule demo_ok)
  have h: "heap_ok demo_debugger" and p: "patch_ok demo_mem demo_debugger"
    using w heap_ok_cong[of demo_debugger demo_world] patch_ok_cong[of demo_debugger demo_world demo_mem]
    by (simp_all add: world_ok_def)
  have ok: "map_ok (demo_map [(0x1000, 3)] [])" by (rule demo_map_ok) simp_all
  have "locs_mapped demo_debugger"
    unfolding locs_mapped_def using ok demo_map_abs[OF ok] by auto
  then show ?thesis
    using h p demo_maps_ok by (auto simp: session_ok_def attached_def core_ok_def located_def)
qed

lemma demo_attached: "attached demo_mem demo_debugger"
  using demo_session by (simp add: session_ok_def)

lemma demo_mapped [simp]: "mapped8 demo_mem a"
  by (simp add: mapped8_def demo_mem_def)

lemma demo_no_temp [simp]: "\<not> temp_at demo_debugger x"
  by (auto simp: temp_at_def split: if_splits)

lemma demo_unarmed [simp]: "\<not> armed demo_debugger x"
  by (auto simp: armed_def split: if_splits)

text \<open>The same debugger with no tracee.\<close>

definition demo_idle :: debugger where
  "demo_idle = demo_debugger\<lparr>w_bps := [1 \<mapsto> (demo_bp 0 ''foo'' True)\<lparr>b_location := None\<rparr>,
       2 \<mapsto> (demo_bp 1 ''main'' False)\<lparr>b_location := None\<rparr>],
     w_locs := (\<lambda>_. None), db_state := NOT_ACTIVE, db_bp_locations := None\<rparr>"

lemma demo_idle_ok: "idle_ok demo_idle"
proof -
  have "heap_ok demo_idle" by (rule heap_okI) (auto simp: demo_idle_def split: if_splits)
  moreover have "maps_ok demo_idle"
  proof -
    have "same_bps demo_debugger demo_idle" by (simp add: same_bps_def demo_idle_def bp_core_def)
    then have "maps_ok demo_idle = maps_ok demo_debugger"
      by (rule maps_ok_cong) (simp_all add: demo_idle_def)
    then show ?thesis using demo_maps_ok by simp
  qed
  ultimately show ?thesis by (simp add: idle_ok_def core_ok_def) (simp add: demo_idle_def)
qed

text \<open>A system: no files, and a program that any step brings to the next address.\<close>

definition demo_step :: "tracee \<Rightarrow> tracee" where
  "demo_step t = t\<lparr>t_run := Running (WStopped 5 2), t_regs := (t_regs t)[16 := t_regs t ! 16 + 1]\<rparr>"

definition demo_system :: "run_state \<Rightarrow> system" where
  "demo_system r = \<lparr>sys_program = \<lparr>env_spawn = (\<lambda>_ _. demo_tracee\<lparr>t_run := Running (WStopped 5 0)\<rparr>),
       env_cont = (\<lambda>_ t. t\<lparr>t_run := r\<rparr>), env_step = demo_step, env_maps = (\<lambda>_. None)\<rparr>,
     sys_files = \<lparr>hf_bytes = (\<lambda>_. None), hf_elf = (\<lambda>_. None), hf_dwarf = (\<lambda>_. None), hf_mtime = (\<lambda>_. 0),
       hf_stat_ok = (\<lambda>_. False)\<rparr>\<rparr>"

text \<open>The debugger with location 3 patched and the program stopped there.\<close>

definition demo_at_bp :: debugger where
  "demo_at_bp = demo_debugger\<lparr>w_tracee := demo_tracee\<lparr>t_mem := demo_mem(0x1000 \<mapsto> 0xCC),
       t_regs := (replicate 27 0)[16 := 0x1000]\<rparr>,
     w_locs := [3 \<mapsto> demo_loc\<lparr>l_saved_data := 0x90, l_patched := True\<rparr>]\<rparr>"

lemma demo_at_bp_armed [simp]: "armed demo_at_bp x \<longleftrightarrow> x = 0x1000"
  by (auto simp: armed_def demo_at_bp_def split: if_splits)

lemma demo_at_bp_session: "session_ok demo_mem demo_at_bp"
proof -
  let ?d = "demo_debugger\<lparr>w_tracee := demo_tracee\<lparr>t_regs := (replicate 27 0)[16 := 0x1000]\<rparr>\<rparr>"
  have att: "attached demo_mem ?d"
  proof -
    have "\<not> armed ?d x" for x by (auto simp: armed_def split: if_splits)
    then have "shows_image demo_mem ?d" by (auto simp: shows_image_def split: if_splits)
    moreover have "sites_ok ?d" by (auto simp: sites_ok_def is_stopped_def split: if_splits)
    ultimately have "patch_ok demo_mem ?d" by (simp add: patch_ok_def)
    then show ?thesis using demo_attached by (simp add: attached_def core_ok_def)
  qed
  have eq: "demo_at_bp = repatch 3 True 0x90 (demo_mem(0x1000 \<mapsto> 0xCC)) ?d"
    by (simp add: demo_at_bp_def repatch_def demo_debugger_def)
  have "patch_ok demo_mem demo_at_bp"
  proof -
    have "shows_image demo_mem demo_at_bp"
    proof -
      have "t_mem (w_tracee demo_at_bp) = demo_mem(0x1000 \<mapsto> 0xCC)"
        "w_locs demo_at_bp = [3 \<mapsto> demo_loc\<lparr>l_saved_data := 0x90, l_patched := True\<rparr>]"
        by (simp_all add: demo_at_bp_def)
      then show ?thesis by (auto simp: shows_image_def demo_mem_def split: if_splits)
    qed
    moreover have "sites_ok demo_at_bp"
      by (auto simp: sites_ok_def demo_at_bp_def is_stopped_def split: if_splits)
    ultimately show ?thesis by (simp add: patch_ok_def)
  qed
  then have "attached demo_mem demo_at_bp"
    unfolding eq by (rule attached_repatch[OF att]) (auto split: if_splits)
  then show ?thesis
    by (auto simp: session_ok_def located_def) (auto simp: demo_at_bp_def split: if_splits)
qed

end
