(* ===== verification/Debugger_Props.thy ===== *)
theory Debugger_Props
  imports Debugger_Demo
begin

text \<open>
  The properties of the debugger object: what setting, switching and removing breakpoints
  does to the memory of the tracee, what survives its death, how a stop at a breakpoint and
  the step past it look to the program, and the calls that go wrong.
\<close>

section \<open>Setting breakpoints\<close>

lemma session_attached: "session_ok orig d \<Longrightarrow> attached orig d"
  by (simp add: session_ok_def)

lemma mem_armed:
  assumes "session_ok orig d" "session_ok orig d'" "\<And>x. armed d' x \<longleftrightarrow> x = a \<or> armed d x"
  shows "t_mem (w_tracee d') = (t_mem (w_tracee d))(a \<mapsto> 0xCC)"
  using attached_mem[OF session_attached[OF assms(1)]] attached_mem[OF session_attached[OF assms(2)]] assms(3)
  by auto

text \<open>
  C1: \<open>set_breakpoint_at_addr\<close> in a stopped tracee appends one breakpoint with the next
  identifier, keeps every invariant of the session, and changes the memory of the tracee in
  exactly one byte, the one at the load address plus the given address.
\<close>

theorem set_breakpoint_at_addr_arms:
  assumes "session_ok orig d" "w_id_counter d \<noteq> - 1"
    and "a = i + db_load_address d" "a \<noteq> 0" "mapped8 orig a" "\<not> temp_at d a"
  shows "\<exists>d' b. set_breakpoint_at_addr i quiet d = Inr d' \<and> session_ok orig d' \<and>
    db_pending_breakpoints d' = db_pending_breakpoints d @ [w_next d] \<and>
    w_bps d' = (w_bps d)(w_next d \<mapsto> b) \<and> bp_core b = (w_id_counter d, BP_ADDR, True, i) \<and>
    t_mem (w_tracee d') = (t_mem (w_tracee d))(a \<mapsto> 0xCC)"
  unfolding set_breakpoint_at_addr_def
  using install_session[OF assms, of BP_ADDR quiet] mem_armed[OF assms(1)] by blast

theorem set_breakpoint_at_addr_arms_witness:
  "\<exists>d'. set_breakpoint_at_addr 0x2000 True demo_debugger = Inr d' \<and> session_ok demo_mem d' \<and>
     db_pending_breakpoints d' = [1, 2, 4] \<and> t_mem (w_tracee d') = demo_mem(0x2000 \<mapsto> 0xCC)"
  using set_breakpoint_at_addr_arms[OF demo_session, where a = "0x2000" and i = "0x2000" and quiet = True]
  by auto

text \<open>The functions of a name, one after the other.\<close>

definition named_addr :: "debugger \<Rightarrow> string \<Rightarrow> u64 \<Rightarrow> bool" where
  "named_addr d s x \<longleftrightarrow> (\<exists>f \<in> set (get_valid_func_symbols (db_syms d)). fe_name f = s \<and>
     x = fe_addr f + db_load_address d)"

lemma install_frame:
  assumes "session_ok orig d" "w_id_counter d \<noteq> - 1"
    and "i + db_load_address d \<noteq> 0" "mapped8 orig (i + db_load_address d)" "\<not> temp_at d (i + db_load_address d)"
    and d': "install_breakpoint data i quiet d = Inr d'"
  shows "w_id_counter d' = w_id_counter d + 1 \<and> db_load_address d' = db_load_address d"
proof -
  have att: "attached orig d" using assms(1) by (rule session_attached)
  then have core: "core_ok d" by (simp add: attached_def)
  obtain m where m: "core_ok (entered data i m d)" "install_breakpoint data i quiet d =
    add_and_set_bp_for_running_tracee i (w_next d)
      (if quiet then entered data i m d
       else say (Out_Set_Breakpoint data i (w_id_counter d)) (entered data i m d))"
    using install_run[OF core assms(2)] by blast
  define e where "e = (if quiet then entered data i m d
       else say (Out_Set_Breakpoint data i (w_id_counter d)) (entered data i m d))"
  let ?b = "\<lparr>b_id = w_id_counter d, b_data = data, b_enable = True, b_instr_addr = i, b_location = None\<rparr>"
  have e: "w_bps e (w_next d) = Some ?b" "db_load_address e = db_load_address d" "attached orig e"
    "w_id_counter e = w_id_counter d + 1" "temp_at e = temp_at d"
    using attached_entered[OF att m(1)] by (auto simp: e_def temp_at_def fun_eq_iff)
  have "\<exists>d'. add_and_set_bp_for_running_tracee (b_instr_addr ?b) (w_next d) e = Inr d' \<and>
      resolve_one (w_next d) e = Inr d' \<and> attached orig d' \<and> placed (w_next d) ?b (i + db_load_address d) e d'"
    by (rule place_breakpoint[OF e(3) e(1)]) (use assms(3,4,5) e in simp_all)
  then have "placed (w_next d) ?b (i + db_load_address d) e d'" using m(2) d' by (auto simp flip: e_def)
  from placed_fields(7,12)[OF this] show ?thesis using e by simp
qed

lemma symbol_fold:
  assumes "session_ok orig d" "unat (w_id_counter d) + length fs < 2 ^ 64 - 1"
    and "\<forall>f \<in> set fs. fe_name f = s \<longrightarrow> fe_addr f + db_load_address d \<noteq> 0 \<and>
      mapped8 orig (fe_addr f + db_load_address d) \<and> \<not> temp_at d (fe_addr f + db_load_address d)"
  shows "\<exists>d'. res_fold (\<lambda>f d. if fe_name f \<noteq> s then Inr d
         else install_breakpoint (BP_SYMBOL s) (fe_addr f) False d) fs d = Inr d' \<and> session_ok orig d' \<and>
    (\<forall>x. armed d' x \<longleftrightarrow> armed d x \<or> (\<exists>f \<in> set fs. fe_name f = s \<and> x = fe_addr f + db_load_address d)) \<and>
    length (db_pending_breakpoints d') =
      length (db_pending_breakpoints d) + length (filter (\<lambda>f. fe_name f = s) fs)"
  using assms
proof (induction fs arbitrary: d)
  case (Cons f fs)
  show ?case
  proof (cases "fe_name f = s")
    case False
    have "unat (w_id_counter d) + length fs < 2 ^ 64 - 1" using Cons.prems(2) by simp
    with Cons False show ?thesis by simp
  next
    case True
    let ?a = "fe_addr f + db_load_address d"
    have c: "w_id_counter d \<noteq> - 1"
    proof
      assume "w_id_counter d = - 1"
      moreover have "unat (- 1 :: u64) = 2 ^ 64 - 1"
        by (simp add: unsigned_minus_1_eq_mask mask_eq_exp_minus_1)
      ultimately show False using Cons.prems(2) by simp
    qed
    have a: "?a \<noteq> 0" "mapped8 orig ?a" "\<not> temp_at d ?a" using Cons.prems(3) True by auto
    obtain d1 where d1: "install_breakpoint (BP_SYMBOL s) (fe_addr f) False d = Inr d1" "session_ok orig d1"
      "db_pending_breakpoints d1 = db_pending_breakpoints d @ [w_next d]"
      "\<forall>x. armed d1 x \<longleftrightarrow> x = ?a \<or> armed d x" "\<forall>x. temp_at d1 x = temp_at d x"
      using install_session[OF Cons.prems(1) c refl a, of "BP_SYMBOL s" False] by blast
    have fr: "w_id_counter d1 = w_id_counter d + 1" "db_load_address d1 = db_load_address d"
      using install_frame[OF Cons.prems(1) c a d1(1)] by simp_all
    have "1 + w_id_counter d \<noteq> 0" using c by (simp add: eq_neg_iff_add_eq_0 add.commute)
    then have "unat (w_id_counter d1) = Suc (unat (w_id_counter d))"
      using unatSuc[of "w_id_counter d"] fr(1) by (simp add: add.commute)
    then have "unat (w_id_counter d1) + length fs < 2 ^ 64 - 1" using Cons.prems(2) by simp
    then obtain d' where d': "res_fold (\<lambda>f d. if fe_name f \<noteq> s then Inr d
         else install_breakpoint (BP_SYMBOL s) (fe_addr f) False d) fs d1 = Inr d'" "session_ok orig d'"
      "\<forall>x. armed d' x \<longleftrightarrow> armed d1 x \<or> (\<exists>f \<in> set fs. fe_name f = s \<and> x = fe_addr f + db_load_address d1)"
      "length (db_pending_breakpoints d') =
        length (db_pending_breakpoints d1) + length (filter (\<lambda>f. fe_name f = s) fs)"
      using Cons.IH[OF d1(2)] Cons.prems(3) fr(2) d1(5) by auto
    show ?thesis using True d1 d' fr(2) by auto
  qed
qed simp

text \<open>
  C18: \<open>break <function>\<close> sets one breakpoint at every cached function of that name, not only at
  the first: the memory of the tracee then shows \<open>0xcc\<close> at the address of each of them, moved by
  the load address, and is otherwise unchanged. A name no function has only gives a message.
\<close>

theorem set_breakpoint_at_func_symbol_arms_all:
  assumes "session_ok orig d" "get_valid_func_symbols (db_syms d) \<noteq> []"
    and "unat (w_id_counter d) + length (get_valid_func_symbols (db_syms d)) < 2 ^ 64 - 1"
    and "\<forall>x. named_addr d s x \<longrightarrow> x \<noteq> 0 \<and> mapped8 orig x \<and> \<not> temp_at d x"
  shows "\<exists>d'. set_breakpoint_at_func_symbol s d = Inr d' \<and> session_ok orig d' \<and>
    length (db_pending_breakpoints d') = length (db_pending_breakpoints d) +
      length (filter (\<lambda>f. fe_name f = s) (get_valid_func_symbols (db_syms d))) \<and>
    (\<forall>x. t_mem (w_tracee d') x = (if named_addr d s x then Some 0xCC else t_mem (w_tracee d) x)) \<and>
    ((\<forall>x. \<not> named_addr d s x) \<longrightarrow> set_breakpoint_at_func_symbol s d = Inr (say (Out_No_Function s) d))"
proof -
  let ?fs = "get_valid_func_symbols (db_syms d)"
  have places: "\<forall>f \<in> set ?fs. fe_name f = s \<longrightarrow> fe_addr f + db_load_address d \<noteq> 0 \<and>
      mapped8 orig (fe_addr f + db_load_address d) \<and> \<not> temp_at d (fe_addr f + db_load_address d)"
    using assms(4) by (auto simp: named_addr_def)
  let ?F = "\<lambda>f d. if fe_name f \<noteq> s then Inr d else install_breakpoint (BP_SYMBOL s) (fe_addr f) False d"
  obtain d1 where d1: "res_fold ?F ?fs d = Inr d1" "session_ok orig d1"
    "\<forall>x. armed d1 x \<longleftrightarrow> armed d x \<or> named_addr d s x"
    "length (db_pending_breakpoints d1) =
      length (db_pending_breakpoints d) + length (filter (\<lambda>f. fe_name f = s) ?fs)"
    using symbol_fold[OF assms(1,3) places] by (auto simp: named_addr_def)
  let ?hit = "\<exists>f \<in> set ?fs. fe_name f = s"
  have run: "set_breakpoint_at_func_symbol s d = Inr (if ?hit then d1 else say (Out_No_Function s) d1)"
    unfolding set_breakpoint_at_func_symbol_def Let_def using assms(2) d1(1) by simp
  have mem: "\<forall>x. t_mem (w_tracee d1) x = (if named_addr d s x then Some 0xCC else t_mem (w_tracee d) x)"
    using attached_mem[OF session_attached[OF assms(1)]] attached_mem[OF session_attached[OF d1(2)]] d1(3)
    by auto
  have "d1 = d" if "\<not> ?hit"
  proof -
    have "res_fold ?F fs e = Inr e" if "\<forall>f \<in> set fs. fe_name f \<noteq> s" for fs and e :: debugger
      using that by (induction fs) simp_all
    from this[of ?fs d] d1(1) that show ?thesis by auto
  qed
  then show ?thesis using run d1(2,4) mem by (auto simp: named_addr_def)
qed

theorem set_breakpoint_at_func_symbol_arms_all_witness:
  "\<exists>d'. set_breakpoint_at_func_symbol ''twin''
      (demo_debugger\<lparr>db_syms := demo_syms\<lparr>sy_cache := demo_cache\<lparr>funcs_list :=
        [\<lparr>fe_name = ''twin'', fe_addr = 0x2000, fe_size = 1\<rparr>, \<lparr>fe_name = ''twin'', fe_addr = 0x3000, fe_size = 1\<rparr>]\<rparr>\<rparr>\<rparr>)
      = Inr d' \<and> t_mem (w_tracee d') 0x2000 = Some 0xCC \<and> t_mem (w_tracee d') 0x3000 = Some 0xCC"
proof -
  define fs where "fs = [\<lparr>fe_name = ''twin'', fe_addr = 0x2000, fe_size = 1\<rparr>, \<lparr>fe_name = ''twin'', fe_addr = 0x3000, fe_size = 1\<rparr>]"
  define sy where "sy = demo_syms\<lparr>sy_cache := demo_cache\<lparr>funcs_list := fs\<rparr>\<rparr>"
  have fs: "get_valid_func_symbols sy = fs" by (simp add: sy_def get_valid_func_symbols_def)
  let ?d = "demo_debugger\<lparr>db_syms := sy\<rparr>"
  have ok: "session_ok demo_mem ?d"
    using demo_session by (simp add: session_ok_def attached_def core_ok_def located_def locs_mapped_def)
  have t: "\<not> temp_at ?d x" for x by (simp add: temp_at_def)
  have n: "named_addr ?d ''twin'' x \<longleftrightarrow> x = 0x2000 \<or> x = 0x3000" for x
    by (auto simp: named_addr_def fs fs_def)
  then have places: "\<forall>x. named_addr ?d ''twin'' x \<longrightarrow> x \<noteq> 0 \<and> mapped8 demo_mem x \<and> \<not> temp_at ?d x"
    using t by auto
  show ?thesis
    unfolding fs_def[symmetric] sy_def[symmetric]
    using set_breakpoint_at_func_symbol_arms_all[OF ok _ _ places] by (auto simp: fs fs_def n)
qed

section \<open>Removing and switching everything\<close>

text \<open>
  C15: \<open>delete breakpoints\<close> in a stopped tracee always succeeds, leaves no breakpoint and no
  pending entry, and, when no temporary location is set, gives the program back exactly the
  memory it has without a debugger, whatever was set, enabled or disabled before.
\<close>

theorem remove_all_breakpoints_restores_image:
  assumes "session_ok orig d" "\<And>x. \<not> temp_at d x"
  shows "\<exists>d'. remove_all_breakpoints d = Inr d' \<and> session_ok orig d' \<and> db_pending_breakpoints d' = [] \<and>
    w_bps d' = (\<lambda>_. None) \<and> t_mem (w_tracee d') = orig"
  using remove_all_session[OF assms(1)] assms(2) by blast

theorem remove_all_breakpoints_restores_image_witness:
  "\<exists>d'. remove_all_breakpoints demo_at_bp = Inr d' \<and> t_mem (w_tracee demo_at_bp) 0x1000 = Some 0xCC \<and>
     t_mem (w_tracee d') 0x1000 = Some 0x90"
proof -
  have t: "\<not> temp_at demo_at_bp x" for x by (auto simp: temp_at_def demo_at_bp_def split: if_splits)
  have m: "t_mem (w_tracee demo_at_bp) 0x1000 = Some 0xCC" by (simp add: demo_at_bp_def)
  then show ?thesis
    using remove_all_breakpoints_restores_image[OF demo_at_bp_session t] by (auto simp: demo_mem_def)
qed

lemma switch_all_alt:
  "enable_all_breakpoints d = res_fold (bp_switch True) (db_pending_breakpoints d) d"
  "disable_all_breakpoints d = res_fold (bp_switch False) (db_pending_breakpoints d) d"
  by (simp_all add: enable_all_breakpoints_def disable_all_breakpoints_def bp_switch_def)

lemma same_sites_shape:
  assumes "same_sites w w'"
  shows "addr_of w' l = addr_of w l"
    "map_option l_is_temp (w_locs w' l) = map_option l_is_temp (w_locs w l)"
  using places_addr places_temp same_sites_places[OF assms] by blast+

lemma session_site_bps:
  assumes ok: "session_ok orig d" and b: "w_bps d p = Some b"
  obtains l where "b_location b = Some l" "addr_of d l = Some (run_addr d p)" "p \<in> bps_at d l"
proof -
  have "located d b" using ok b by (auto simp: session_ok_def)
  then obtain l L where "b_location b = Some l" "w_locs d l = Some L"
    "l_running_addr L = b_instr_addr b + db_load_address d"
    by (auto simp: located_def)
  then show thesis using that[of l] b by (simp add: run_addr_def bps_at_def)
qed

text \<open>
  C14: \<open>disable\<close> without an argument makes the program's own bytes visible at every address,
  and a following \<open>enable\<close> puts \<open>0xcc\<close> at exactly the addresses of the breakpoints, however
  they were mixed at shared addresses before.
\<close>

theorem disable_all_then_enable_all:
  assumes ok: "session_ok orig d" and nt: "\<And>x. \<not> temp_at d x"
  shows "\<exists>d1 d2. disable_all_breakpoints d = Inr d1 \<and> session_ok orig d1 \<and> t_mem (w_tracee d1) = orig \<and>
    enable_all_breakpoints d1 = Inr d2 \<and> session_ok orig d2 \<and>
    (\<forall>x. t_mem (w_tracee d2) x =
      (if \<exists>p. w_bps d p \<noteq> None \<and> run_addr d p = x then Some 0xCC else orig x)) \<and>
    (\<forall>p. enabled d2 p \<longleftrightarrow> w_bps d p \<noteq> None)"
proof -
  obtain d1 where d1: "disable_all_breakpoints d = Inr d1" "session_ok orig d1" "same_sites d d1"
    "w_bps d1 = (\<lambda>p. map_option (\<lambda>b. b\<lparr>b_enable := False\<rparr>) (w_bps d p))"
    "\<forall>k. bps_at d k \<noteq> {} \<longrightarrow> \<not> patch_on d1 k" "\<forall>k. bps_at d1 k = bps_at d k"
    using switch_all_session[OF ok, of False] by (auto simp: switch_all_alt)
  have nt1: "\<not> temp_at d1 x" for x
    using nt[of x] same_sites_shape[OF d1(3)] by (simp add: temp_at_alt)
  have "\<not> armed d1 x" for x
  proof
    assume "armed d1 x"
    then obtain k where "addr_of d1 k = Some x" "patch_on d1 k" "bps_at d1 k \<noteq> {}"
      using armed_needs_bp[of d1 x] d1(2) nt1 by (auto simp: session_ok_def attached_def core_ok_def)
    then show False using d1(5,6) by simp
  qed
  then have image: "t_mem (w_tracee d1) = orig"
    using unarmed_image[OF session_attached[OF d1(2)]] by blast
  obtain d2 where d2: "enable_all_breakpoints d1 = Inr d2" "session_ok orig d2" "same_sites d1 d2"
    "w_bps d2 = (\<lambda>p. map_option (\<lambda>b. b\<lparr>b_enable := True\<rparr>) (w_bps d1 p))"
    "\<forall>k. bps_at d1 k \<noteq> {} \<longrightarrow> patch_on d2 k" "\<forall>k. bps_at d2 k = bps_at d1 k"
    using switch_all_session[OF d1(2), of True] by (auto simp: switch_all_alt)
  have nt2: "\<not> temp_at d2 x" for x
    using nt1[of x] same_sites_shape[OF d2(3)] by (simp add: temp_at_alt)
  have addr: "addr_of d2 l = addr_of d l" for l
    using same_sites_shape[OF d1(3)] same_sites_shape[OF d2(3)] by simp
  have arm: "armed d2 x \<longleftrightarrow> (\<exists>p. w_bps d p \<noteq> None \<and> run_addr d p = x)" for x
  proof
    assume "armed d2 x"
    then obtain k where k: "addr_of d2 k = Some x" "bps_at d2 k \<noteq> {}"
      using armed_needs_bp[of d2 x] d2(2) nt2 by (auto simp: session_ok_def attached_def core_ok_def)
    then obtain p where "p \<in> bps_at d k" using d1(6) d2(6) by auto
    then obtain b where b: "w_bps d p = Some b" "b_location b = Some k" by (auto simp: bps_at_def)
    have "addr_of d k = Some (run_addr d p)" using session_site_bps[OF ok b(1)] b(2) by auto
    then show "\<exists>p. w_bps d p \<noteq> None \<and> run_addr d p = x" using k(1) addr b(1) by auto
  next
    assume "\<exists>p. w_bps d p \<noteq> None \<and> run_addr d p = x"
    then obtain p b where p: "w_bps d p = Some b" "run_addr d p = x" by auto
    then obtain l where l: "addr_of d l = Some x" "p \<in> bps_at d l" using session_site_bps[OF ok] by metis
    then have "patch_on d2 l" using d2(5) d1(6) by auto
    then show "armed d2 x" unfolding armed_addr using l(1) addr by auto
  qed
  have "enabled d2 p \<longleftrightarrow> w_bps d p \<noteq> None" for p
    by (cases "w_bps d p") (simp_all add: enabled_def d2(4) d1(4))
  moreover have "t_mem (w_tracee d2) x =
      (if \<exists>p. w_bps d p \<noteq> None \<and> run_addr d p = x then Some 0xCC else orig x)" for x
    unfolding attached_mem[OF session_attached[OF d2(2)]] arm ..
  ultimately show ?thesis using d1(1,2) image d2(1,2) by blast
qed

theorem disable_all_then_enable_all_witness:
  "\<exists>d1 d2. disable_all_breakpoints demo_at_bp = Inr d1 \<and> t_mem (w_tracee d1) = demo_mem \<and>
     enable_all_breakpoints d1 = Inr d2 \<and> t_mem (w_tracee d2) 0x1000 = Some 0xCC \<and> enabled d2 2"
proof -
  have t: "\<not> temp_at demo_at_bp x" for x by (auto simp: temp_at_def demo_at_bp_def split: if_splits)
  have b: "w_bps demo_at_bp = [1 \<mapsto> demo_bp 0 ''foo'' True, 2 \<mapsto> demo_bp 1 ''main'' False]"
    "db_load_address demo_at_bp = 0" by (simp_all add: demo_at_bp_def)
  then have a: "\<exists>p. w_bps demo_at_bp p \<noteq> None \<and> run_addr demo_at_bp p = 0x1000"
    by (intro exI[of _ 1]) (simp add: run_addr_def)
  obtain d1 d2 where "disable_all_breakpoints demo_at_bp = Inr d1" "t_mem (w_tracee d1) = demo_mem"
    "enable_all_breakpoints d1 = Inr d2"
    "\<forall>x. t_mem (w_tracee d2) x =
      (if \<exists>p. w_bps demo_at_bp p \<noteq> None \<and> run_addr demo_at_bp p = x then Some 0xCC else demo_mem x)"
    "\<forall>p. enabled d2 p \<longleftrightarrow> w_bps demo_at_bp p \<noteq> None"
    using disable_all_then_enable_all[OF demo_at_bp_session t] by blast
  then show ?thesis using a b by (metis fun_upd_same option.distinct(1))
qed

section \<open>The life of a tracee\<close>



lemma arm_all_last:
  "arm_all d ps A x = (let here = filter (\<lambda>p. run_addr d p = x) ps
     in if here = [] then A x else b_enable (the (w_bps d (last here))))"
  by (induction ps rule: rev_induct) (auto simp: arm_all_def Let_def)

text \<open>
  C2: starting the program creates the locations of all pending breakpoints before its first
  instruction runs. At every address the process shows \<open>0xcc\<close> when the last pending breakpoint
  there is enabled, and the byte of the program otherwise.
\<close>

theorem spawn_tracee_arms_pending:
  assumes ok: "idle_ok d" and argv: "read_args (db_args d) = Inr argv"
    and t: "t = env_spawn (sys_program S) (db_process_name d) argv" "t_run t = Running (WStopped 5 0)" "t_pid t \<noteq> 0"
    and la: "initialize_load_address (sys_program S) (t\<lparr>t_run := Stopped 5 0\<rparr>) (db_syms d) = Inr la"
    and rep: "dw_report (sy_dwarf (db_syms d)) (t_pid t)"
    and places: "\<forall>p b. w_bps d p = Some b \<longrightarrow> b_instr_addr b + la \<noteq> 0 \<and> mapped8 (t_mem t) (b_instr_addr b + la)"
  shows "\<exists>d'. spawn_tracee S d = continue_execution S d' \<and> session_ok (t_mem t) d' \<and> same_bps d d' \<and>
    db_pending_breakpoints d' = db_pending_breakpoints d \<and> db_load_address d' = la \<and>
    (\<forall>x. t_mem (w_tracee d') x =
      (let here = filter (\<lambda>p. run_addr d' p = x) (db_pending_breakpoints d')
       in if here \<noteq> [] \<and> b_enable (the (w_bps d' (last here))) then Some 0xCC else t_mem t x))"
proof -
  let ?e = "d\<lparr>db_load_address := la\<rparr>"
  obtain d' where d': "spawn_tracee S d = continue_execution S d'" "session_ok (t_mem t) d'" "same_bps d d'"
    "db_load_address d' = la" "armed d' = arm_all ?e (db_pending_breakpoints d) (\<lambda>_. False)"
    "db_pending_breakpoints d' = db_pending_breakpoints d"
    using spawn_ok[OF assms] by blast
  have dom: "set (db_pending_breakpoints d) = {p. w_bps d p \<noteq> None}"
    using ok by (simp add: idle_ok_def core_ok_def maps_ok_def)
  have same: "run_addr d' p = run_addr ?e p \<and> b_enable (the (w_bps d' p)) = b_enable (the (w_bps ?e p))"
    if "p \<in> set (db_pending_breakpoints d)" for p
    using run_addr_same_bps[OF d'(3), of ?e p] d'(4) dom that by (simp add: run_addr_def)
  have "armed d' x \<longleftrightarrow> (let here = filter (\<lambda>p. run_addr d' p = x) (db_pending_breakpoints d')
       in here \<noteq> [] \<and> b_enable (the (w_bps d' (last here))))" for x
  proof -
    have "filter (\<lambda>p. run_addr d' p = x) (db_pending_breakpoints d) =
        filter (\<lambda>p. run_addr ?e p = x) (db_pending_breakpoints d)" (is "?h = _")
      using same by (intro filter_cong) auto
    moreover have "?h \<noteq> [] \<Longrightarrow> last ?h \<in> set (db_pending_breakpoints d)"
      using last_in_set filter_is_subset by (metis subsetD)
    ultimately show ?thesis using same d'(5,6) by (auto simp: arm_all_last Let_def)
  qed
  then show ?thesis
    using d' attached_mem[OF session_attached[OF d'(2)]] by (intro exI[of _ d']) (simp add: Let_def)
qed

text \<open>The debugger before the start of a program that is loaded where it was linked.\<close>

definition demo_ready :: debugger where
  "demo_ready = demo_idle\<lparr>db_syms := demo_syms\<lparr>sy_elf := demo_elf\<lparr>ef_ehdr := (ef_ehdr demo_elf)\<lparr>e_type := 2\<rparr>\<rparr>\<rparr>\<rparr>"

lemma demo_ready_sel [simp]:
  "w_bps demo_ready = [1 \<mapsto> (demo_bp 0 ''foo'' True)\<lparr>b_location := None\<rparr>,
     2 \<mapsto> (demo_bp 1 ''main'' False)\<lparr>b_location := None\<rparr>]"
  "db_args demo_ready = [SStr ''a.out'', SNull]" "db_pending_breakpoints demo_ready = [1, 2]"
  "db_pending_signal demo_ready = 0"
  "dw_report (sy_dwarf (db_syms demo_ready)) = (\<lambda>_. True)"
  "initialize_load_address E t (db_syms demo_ready) = Inr 0"
  by (simp_all add: demo_ready_def demo_idle_def demo_syms_def demo_dwarf_def initialize_load_address_def)

lemma demo_ready_ok: "idle_ok demo_ready"
  using demo_idle_ok by (simp add: demo_ready_def idle_ok_def core_ok_def)

lemma demo_spawn [simp]:
  "env_spawn (sys_program (demo_system r)) n as = demo_tracee\<lparr>t_run := Running (WStopped 5 0)\<rparr>"
  by (simp add: demo_system_def)

theorem spawn_tracee_arms_pending_witness:
  "\<exists>d'. spawn_tracee (demo_system Dead) demo_ready = continue_execution (demo_system Dead) d' \<and>
     db_pending_breakpoints d' = [1, 2] \<and> t_mem (w_tracee d') 0x2000 = Some 0x90"
proof -
  define t where "t = env_spawn (sys_program (demo_system Dead)) (db_process_name demo_ready) [''a.out'']"
  have places: "\<forall>p b. w_bps demo_ready p = Some b \<longrightarrow> b_instr_addr b + 0 \<noteq> 0 \<and>
      mapped8 (t_mem t) (b_instr_addr b + 0)"
    by (simp add: t_def)
  obtain d' where d': "spawn_tracee (demo_system Dead) demo_ready = continue_execution (demo_system Dead) d'"
    "same_bps demo_ready d'" "db_pending_breakpoints d' = db_pending_breakpoints demo_ready"
    "db_load_address d' = 0" "\<forall>x. t_mem (w_tracee d') x =
      (let here = filter (\<lambda>p. run_addr d' p = x) (db_pending_breakpoints d')
       in if here \<noteq> [] \<and> b_enable (the (w_bps d' (last here))) then Some 0xCC else t_mem t x)"
    using spawn_tracee_arms_pending[OF demo_ready_ok _ t_def _ _ _ _ places] by (auto simp: t_def)
  have "run_addr d' 1 = 0x1000" "run_addr d' 2 = 0x1000"
    using run_addr_same_bps[OF d'(2), of demo_debugger] d'(4) by simp_all
  then have "t_mem (w_tracee d') 0x2000 = Some 0x90" using d'(3,5) by (simp add: t_def demo_mem_def)
  then show ?thesis using d'(1,3) by auto
qed

text \<open>
  a signal that stopped the old process is still pending after \<open>restart\<close>: unless a
  breakpoint stands at its first instruction, the new process is resumed with the signal of
  its predecessor (a \<open>SIGSEGV\<close> kills it before it has executed anything).
\<close>

theorem restart_delivers_stale_signal:
  assumes att: "attached orig d" and argv: "read_args (db_args d) = Inr argv"
    and t: "t = env_spawn (sys_program S) (db_process_name d) argv" "t_run t = Running (WStopped 5 0)" "t_pid t \<noteq> 0"
    and la: "initialize_load_address (sys_program S) (t\<lparr>t_run := Stopped 5 0\<rparr>) (db_syms d) = Inr la"
    and rep: "dw_report (sy_dwarf (db_syms d)) (t_pid t)"
    and places: "\<forall>p b. w_bps d p = Some b \<longrightarrow> b_instr_addr b + la \<noteq> 0 \<and>
      mapped8 (t_mem t) (b_instr_addr b + la) \<and> b_instr_addr b + la \<noteq> t_regs t ! 16"
  shows "\<exists>d'. session_ok (t_mem t) d' \<and> t_regs (w_tracee d') = t_regs t \<and> restart S d = wait_for_signal S
    (d'\<lparr>w_tracee := env_cont (sys_program S) (db_pending_signal d) (w_tracee d'), db_pending_signal := 0\<rparr>)"
proof -
  obtain d1 where d1: "kill_tracee d = Inr d1" "idle_ok d1" "same_bps d d1"
    "db_args d1 = db_args d" "db_pending_signal d1 = db_pending_signal d" "db_syms d1 = db_syms d"
    "db_process_name d1 = db_process_name d"
    using kill_ok[OF att] by blast
  have places1: "b_instr_addr b + la \<noteq> 0 \<and> mapped8 (t_mem t) (b_instr_addr b + la) \<and>
      b_instr_addr b + la \<noteq> t_regs t ! 16" if b: "w_bps d1 p = Some b" for p b
  proof -
    have "map_option bp_core (w_bps d1 p) = map_option bp_core (w_bps d p)"
      using d1(3) by (simp add: same_bps_def)
    then obtain c where c: "w_bps d p = Some c" "bp_core c = bp_core b"
      using b by (cases "w_bps d p") auto
    then have "b_instr_addr c = b_instr_addr b" by (simp add: bp_core_def)
    with places[rule_format, OF c(1)] show ?thesis by simp
  qed
  let ?e = "d1\<lparr>db_load_address := la\<rparr>"
  obtain d2 where d2: "spawn_tracee S d1 = continue_execution S d2" "session_ok (t_mem t) d2"
    "armed d2 = arm_all ?e (db_pending_breakpoints d1) (\<lambda>_. False)"
    "db_pending_signal d2 = db_pending_signal d1" "t_regs (w_tracee d2) = t_regs t"
    using spawn_ok[OF d1(2), of argv t S la] argv t la rep d1(4,6,7) places1 by auto
  have dom: "set (db_pending_breakpoints d1) = {p. w_bps d1 p \<noteq> None}"
    using d1(2) by (simp add: idle_ok_def core_ok_def maps_ok_def)
  have "filter (\<lambda>p. run_addr ?e p = t_regs t ! 16) (db_pending_breakpoints d1) = []"
    using places1 dom by (auto simp: filter_empty_conv run_addr_def)
  then have "\<not> armed d2 (t_regs t ! 16)" unfolding d2(3) arm_all_last by (simp add: Let_def)
  moreover have "get_pc (w_tracee d2) (db_pid d2) = Inr (t_regs t ! 16)"
    using d2(2,5) by (simp add: get_pc_stopped session_ok_def attached_def patch_ok_def sites_ok_def)
  ultimately have "continue_execution S d2 = wait_for_signal S
    (d2\<lparr>w_tracee := env_cont (sys_program S) (db_pending_signal d2) (w_tracee d2), db_pending_signal := 0\<rparr>)"
    using continue_not_at_breakpoint[OF session_attached[OF d2(2)]] by blast
  then show ?thesis using d1(1,5) d2(1,2,4,5) by (auto simp: restart_def)
qed

theorem restart_delivers_stale_signal_witness:
  "\<exists>d'. t_regs (w_tracee d') = replicate 27 0 \<and> restart (demo_system Dead)
      (demo_debugger\<lparr>db_pending_signal := 11, db_syms := db_syms demo_ready\<rparr>) =
    wait_for_signal (demo_system Dead)
      (d'\<lparr>w_tracee := env_cont (sys_program (demo_system Dead)) 11 (w_tracee d'), db_pending_signal := 0\<rparr>)"
proof -
  let ?d = "demo_debugger\<lparr>db_pending_signal := 11, db_syms := db_syms demo_ready\<rparr>"
  define t where "t = env_spawn (sys_program (demo_system Dead)) (db_process_name ?d) [''a.out'']"
  have "attached demo_mem ?d"
    using demo_attached by (simp add: attached_def core_ok_def locs_mapped_def)
  moreover have "\<forall>p b. w_bps ?d p = Some b \<longrightarrow> b_instr_addr b + 0 \<noteq> 0 \<and>
      mapped8 (t_mem t) (b_instr_addr b + 0) \<and> b_instr_addr b + 0 \<noteq> t_regs t ! 16"
    by (simp add: t_def)
  ultimately show ?thesis
    using restart_delivers_stale_signal[of demo_mem ?d "[''a.out'']" t "demo_system Dead" 0] by (auto simp: t_def)
qed

end
