(* ===== verification/Debugger_Stops.thy ===== *)
theory Debugger_Stops
  imports Debugger_Props
begin

text \<open>
  The properties of stops: a breakpoint that is hit, the step past a breakpoint, and the
  program that ends during that step.
\<close>

section \<open>Stopping at a breakpoint\<close>

lemma session_same_sites:
  assumes "session_ok orig d" "attached orig' d'" "w_bps d' = w_bps d" "\<forall>l. addr_of d' l = addr_of d l"
    and "db_load_address d' = db_load_address d"
  shows "session_ok orig' d'"
  using assms by (auto simp: session_ok_def located_addr)

lemma continue_hit_ok:
  assumes ok: "session_ok orig d" and pc: "get_pc (w_tracee d) (db_pid d) = Inr a0" "\<not> armed d a0"
    and t: "t = env_cont (sys_program S) (db_pending_signal d) (w_tracee d)"
      "t_run t = Running (WStopped 5 c)" "c \<in> {1, 0x80}" "code_untouched (armed d) (w_tracee d) t"
    and hit: "t_regs t ! 16 = a + 1" "length (t_regs t) = 27" "armed d a" "\<not> temp_at d a"
    and src: "print_source_at_current_pc (sys_files S) (db_syms d) a 3 = Inr out"
  shows "\<exists>d' p b m. continue_execution S d = Inr d' \<and>
    session_ok (image_after (armed d) orig (t_mem t)) d' \<and> armed d' = armed d \<and> w_bps d' = w_bps d \<and>
    get_pc (w_tracee d') (db_pid d') = Inr a \<and>
    w_bps d p = Some b \<and> run_addr d p = a \<and> Out_Hit m \<in> set (db_out d') \<and>
    hit_id m = b_id b \<and> hit_addr m = b_instr_addr b \<and> (\<forall>x. temp_at d' x = temp_at d x)"
proof -
  let ?e = "d\<lparr>db_pending_signal := 0\<rparr>"
  have ok': "session_ok orig ?e"
    using ok by (simp add: session_ok_def attached_def core_ok_def located_def)
  have att: "attached orig d" "attached orig ?e" using ok ok' by (simp_all add: session_ok_def)
  have pid: "t_pid t = db_pid ?e" using t(4) att(1) by (simp add: code_untouched_def attached_def)
  have arm: "armed ?e = armed d" by (simp add: armed_def fun_eq_iff)
  have nt: "\<not> temp_at ?e a" using hit(4) by (simp add: temp_at_def)
  have un: "code_untouched (armed ?e) (w_tracee ?e) t" using t(4) arm by simp
  have src': "print_source_at_current_pc (sys_files S) (db_syms ?e) a 3 = Inr out" using src by simp
  have arm': "armed ?e a" using hit(3) arm by simp
  obtain d' where d': "wait_for_signal S (?e\<lparr>w_tracee := t\<rparr>) = Inr d'"
    "attached (image_after (armed ?e) orig (t_mem t)) d'" "armed d' = armed ?e" "w_bps d' = w_bps ?e"
    "\<forall>l. addr_of d' l = addr_of ?e l" "db_load_address d' = db_load_address ?e"
    "get_pc (w_tracee d') (db_pid d') = Inr a" "\<forall>x. temp_at d' x = temp_at ?e x"
    "\<not> temp_at ?e a \<longrightarrow> (\<exists>p b m. w_bps ?e p = Some b \<and> b_location b \<noteq> None \<and> Out_Hit m \<in> set (db_out d') \<and>
        hit_id m = b_id b \<and> hit_addr m = b_instr_addr b \<and>
        (\<exists>l. b_location b = Some l \<and> addr_of ?e l = Some a))"
    using breakpoint_hit[OF att(2) pid t(2,3) refl un hit(1,2) arm' src'] by blast
  obtain p b m l where p: "w_bps d p = Some b" "Out_Hit m \<in> set (db_out d')" "hit_id m = b_id b"
    "hit_addr m = b_instr_addr b" "b_location b = Some l" "addr_of d l = Some a"
    using d'(9) nt by auto
  obtain k where k: "b_location b = Some k" "addr_of d k = Some (run_addr d p)"
    by (rule session_site_bps[OF ok p(1)])
  have "k = l" using k(1) p(5) by simp
  then have "run_addr d p = a" using k(2) p(6) by simp
  moreover have "continue_execution S d = Inr d'"
  proof -
    have "?e\<lparr>w_tracee := t\<rparr> = d\<lparr>w_tracee := t, db_pending_signal := 0\<rparr>" by simp
    with d'(1) have "wait_for_signal S (d\<lparr>w_tracee := t, db_pending_signal := 0\<rparr>) = Inr d'" by simp
    then show ?thesis unfolding continue_not_at_breakpoint[OF att(1) pc, of S] t(1)[symmetric] .
  qed
  moreover have "session_ok (image_after (armed d) orig (t_mem t)) d'"
    using session_same_sites[OF ok' d'(2,4,5,6)] arm by simp
  moreover have "\<forall>x. temp_at d' x = temp_at d x" using d'(8) by (simp add: temp_at_def)
  ultimately show ?thesis using d'(3,4,7) p(1-4) arm by (intro exI conjI) simp_all
qed


text \<open>The patched debugger with the program stopped elsewhere, and a system in which it runs into the patch.\<close>

definition demo_run :: "system" where
  "demo_run = (demo_system Dead)\<lparr>sys_program := (sys_program (demo_system Dead))
     \<lparr>env_cont := (\<lambda>_ t. t\<lparr>t_run := Running (WStopped 5 0x80), t_regs := (t_regs t)[16 := 0x1001]\<rparr>)\<rparr>\<rparr>"

lemma demo_at_bp_sel [simp]:
  "t_mem (w_tracee demo_at_bp) = demo_mem(0x1000 \<mapsto> 0xCC)" "demo_mem 0x1000 = Some 0x90"
  "t_regs (w_tracee demo_at_bp) = (replicate 27 0)[16 := 0x1000]" "t_pid (w_tracee demo_at_bp) = 7"
  "t_run (w_tracee demo_at_bp) = Stopped 5 128" "db_pid demo_at_bp = 7" "db_state demo_at_bp = ACTIVE"
  by (simp_all add: demo_at_bp_def demo_mem_def)

definition demo_before_bp :: debugger where
  "demo_before_bp = demo_at_bp\<lparr>w_tracee := (w_tracee demo_at_bp)\<lparr>t_regs := replicate 27 0\<rparr>,
     db_syms := demo_syms\<lparr>sy_has_dwarf := False\<rparr>\<rparr>"

lemma demo_before_bp_session: "session_ok demo_mem demo_before_bp"
proof -
  let ?t = "(w_tracee demo_at_bp)\<lparr>t_regs := replicate 27 0\<rparr>"
  have r: "t_run ?t = Stopped 5 128" by simp
  have "code_untouched (armed demo_at_bp) (w_tracee demo_at_bp) ?t" by (simp add: code_untouched_def)
  from session_run[OF demo_at_bp_session this r]
  have "session_ok (image_after (armed demo_at_bp) demo_mem (t_mem ?t)) (demo_at_bp\<lparr>w_tracee := ?t\<rparr>)" by simp
  moreover have "image_after (armed demo_at_bp) demo_mem (t_mem ?t) = demo_mem"
    by (auto simp: image_after_def fun_eq_iff)
  ultimately show ?thesis
    by (simp add: demo_before_bp_def session_ok_def attached_def core_ok_def located_def locs_mapped_def)
qed

lemma demo_before_bp_sel [simp]:
  "armed demo_before_bp x \<longleftrightarrow> x = 0x1000" "\<not> temp_at demo_before_bp x"
  "t_regs (w_tracee demo_before_bp) = replicate 27 0" "t_pid (w_tracee demo_before_bp) = 7"
  "t_run (w_tracee demo_before_bp) = Stopped 5 128"
  "db_pid demo_before_bp = 7" "sy_has_dwarf (db_syms demo_before_bp) = False"
  "w_bps demo_before_bp = [1 \<mapsto> demo_bp 0 ''foo'' True, 2 \<mapsto> demo_bp 1 ''main'' False]"
  using demo_at_bp_armed[of x]
  by (auto simp: armed_def temp_at_def demo_before_bp_def demo_at_bp_def split: if_splits)


section \<open>The step past a breakpoint\<close>

text \<open>
  C4: stepping past a breakpoint executes the program's own instruction: the program makes
  its step from the memory that has the original byte at the program counter and \<open>0xcc\<close> at all
  other patched addresses, and afterwards the patch is back and nothing else has changed.
\<close>

theorem step_over_breakpoint_runs_original:
  assumes ok: "session_ok orig d" and pc: "get_pc (w_tracee d) (db_pid d) = Inr a" and arm: "armed d a"
    and t: "t = env_step (sys_program S) ((w_tracee d)\<lparr>t_mem := (t_mem (w_tracee d))(a := orig a)\<rparr>)"
    and un: "code_untouched (\<lambda>x. armed d x \<and> x \<noteq> a) ((w_tracee d)\<lparr>t_mem := (t_mem (w_tracee d))(a := orig a)\<rparr>) t"
    and st: "t_run t = Running (WStopped 5 2)"
  shows "\<exists>d'. step_over_breakpoint S d = Inr d' \<and>
    session_ok (image_after (\<lambda>x. armed d x \<and> x \<noteq> a) orig (t_mem t)) d' \<and>
    armed d' = armed d \<and> w_bps d' = w_bps d \<and>
    w_tracee d' = t\<lparr>t_run := Stopped 5 2, t_mem := (t_mem t)(a \<mapsto> 0xCC)\<rparr>"
proof -
  have att: "attached orig d" using ok by (rule session_attached)
  obtain d' where d': "step_over_breakpoint S d = Inr d'"
    "attached (image_after (\<lambda>x. armed d x \<and> x \<noteq> a) orig (t_mem t)) d'"
    "armed d' = armed d" "w_bps d' = w_bps d" "\<forall>l. addr_of d' l = addr_of d l"
    "w_tracee d' = t\<lparr>t_run := Stopped 5 2, t_mem := (t_mem t)(a \<mapsto> 0xCC)\<rparr>"
    "bp_world.more d' = bp_world.more d"
    using step_over_ok[OF att pc arm, of t S] t un st by (auto simp: unpatched_at_def)
  have "db_load_address d' = db_load_address d" using more_fields[OF d'(7)] by simp
  from session_same_sites[OF ok d'(2,4,5) this] show ?thesis using d' by blast
qed

theorem step_over_breakpoint_runs_original_witness:
  "\<exists>d'. step_over_breakpoint (demo_system Dead) demo_at_bp = Inr d' \<and>
     get_pc (w_tracee d') 7 = Inr 0x1001 \<and> t_mem (w_tracee d') 0x1000 = Some 0xCC"
proof -
  let ?t0 = "(w_tracee demo_at_bp)\<lparr>t_mem := (t_mem (w_tracee demo_at_bp))(0x1000 := demo_mem 0x1000)\<rparr>"
  define t where "t = env_step (sys_program (demo_system Dead)) ?t0"
  have pc: "get_pc (w_tracee demo_at_bp) (db_pid demo_at_bp) = Inr 0x1000"
    by (simp add: get_pc_stopped is_stopped_def)
  have t: "t = demo_step ?t0" by (simp add: t_def demo_system_def)
  have un: "code_untouched (\<lambda>x. armed demo_at_bp x \<and> x \<noteq> 0x1000) ?t0 t"
    by (simp add: t demo_step_def code_untouched_def)
  obtain d' where "step_over_breakpoint (demo_system Dead) demo_at_bp = Inr d'"
    "w_tracee d' = t\<lparr>t_run := Stopped 5 2, t_mem := (t_mem t)(0x1000 \<mapsto> 0xCC)\<rparr>"
    using step_over_breakpoint_runs_original[OF demo_at_bp_session pc _ t_def un]
    by (auto simp: t demo_step_def)
  then show ?thesis
    by (simp add: get_pc_stopped is_stopped_def t demo_step_def)
qed

text \<open>
  C39: when the instruction under the breakpoint ends the program, the step past the breakpoint
  frees all locations and then writes through the location it had looked up before.
\<close>

theorem step_over_exit_uses_freed_location:
  assumes "session_ok orig d" and pc: "get_pc (w_tracee d) (db_pid d) = Inr a" and arm: "armed d a"
    and t: "t = env_step (sys_program S) ((w_tracee d)\<lparr>t_mem := (t_mem (w_tracee d))(a := orig a)\<rparr>)"
      "t_run t = Running (WExited code)" "t_pid t = db_pid d"
  shows "step_over_breakpoint S d = Inl UseAfterFree \<and>
    (db_state d = ACTIVE \<longrightarrow> continue_execution S d = Inl UseAfterFree)"
proof -
  have "step_over_breakpoint S d = Inl UseAfterFree"
    using step_over_exit[OF session_attached[OF assms(1)] pc arm] t by (simp add: unpatched_at_def)
  then show ?thesis by (simp add: continue_execution_def)
qed

theorem step_over_exit_uses_freed_location_witness:
  "continue_execution ((demo_system Dead)\<lparr>sys_program := (sys_program (demo_system Dead))
     \<lparr>env_step := \<lambda>t. t\<lparr>t_run := Running (WExited 0)\<rparr>\<rparr>\<rparr>) demo_at_bp = Inl UseAfterFree"
proof -
  let ?S = "(demo_system Dead)\<lparr>sys_program := (sys_program (demo_system Dead))
     \<lparr>env_step := \<lambda>t. t\<lparr>t_run := Running (WExited 0)\<rparr>\<rparr>\<rparr>"
  have pc: "get_pc (w_tracee demo_at_bp) (db_pid demo_at_bp) = Inr 0x1000"
    by (simp add: get_pc_stopped is_stopped_def)
  show ?thesis
    using step_over_exit_uses_freed_location[OF demo_at_bp_session pc _ refl, of ?S 0] by simp
qed

end
