(* ===== verification/Debugger_Life.thy ===== *)
theory Debugger_Life
  imports Debugger_Stops
begin

text \<open>
  What the user's commands can bring the debugger to: the arguments a process is started
  with, temporary locations, and the states that commands reach.
\<close>

section \<open>The argument array\<close>

lemma append_args_in_room:
  assumes "i + length as \<le> length slots"
  shows "append_args slots i as = take i slots @ map SStr as @ drop (i + length as) slots"
  using assms
proof (induction as arbitrary: slots i)
  case (Cons a as)
  then have i: "i < length slots" by simp
  have "append_args slots i (a # as) = append_args (slots[i := SStr a]) (Suc i) as"
    using i by simp
  also have "\<dots> = take (Suc i) (slots[i := SStr a]) @ map SStr as @ drop (Suc i + length as) (slots[i := SStr a])"
    using Cons by simp
  also have "take (Suc i) (slots[i := SStr a]) = take i slots @ [SStr a]"
    using i by (simp add: take_Suc_conv_app_nth)
  finally show ?case by simp
qed simp

lemma append_args_append:
  "append_args slots i (as @ bs) = append_args (append_args slots i as) (i + length as) bs"
  by (induction as arbitrary: slots i) (simp_all add: Let_def)

lemma read_args_strings:
  "read_args (map SStr ss @ SNull # rest) = Inr ss" "read_args (map SStr ss) = Inl OutOfBounds"
  "read_args (map SStr ss @ SUninit # rest) = Inl UninitRead"
  by (induction ss) simp_all

lemma clear_args_strings:
  "clear_args (map SStr ss @ SNull # rest) = Inr (map (\<lambda>_. SNull) ss @ SNull # rest)"
  by (induction ss) simp_all



section \<open>Temporary locations\<close>

text \<open>
  C19: a temporary location puts \<open>0xcc\<close> at its address and taking it back restores the memory,
  the breakpoints and all other locations exactly. Where a location exists already, nothing
  is set: in particular, at the address of a disabled breakpoint the program will not stop.
\<close>

theorem temporary_location_roundtrip:
  assumes att: "attached orig d" and a: "a \<noteq> 0" "mapped8 orig a"
  shows "if \<exists>k. addr_of d k = Some a
    then \<exists>d1. set_temp_bp_location a d = Inr (False, d1) \<and>
      w_tracee d1 = w_tracee d \<and> w_locs d1 = w_locs d \<and> w_bps d1 = w_bps d
    else \<exists>d1 d2. set_temp_bp_location a d = Inr (True, d1) \<and> attached orig d1 \<and>
      t_mem (w_tracee d1) = (t_mem (w_tracee d))(a \<mapsto> 0xCC) \<and>
      unset_temp_bp_location a d1 = Inr d2 \<and> attached orig d2 \<and>
      t_mem (w_tracee d2) = t_mem (w_tracee d) \<and> w_bps d2 = w_bps d \<and> (\<forall>k. addr_of d2 k = addr_of d k)"
proof (cases "\<exists>k. addr_of d k = Some a")
  case True
  then obtain k where "addr_of d k = Some a" by blast
  from set_temp_occupied[OF att a this] True show ?thesis by simp
next
  case False
  then have none: "addr_of d k \<noteq> Some a" for k by blast
  have h: "heap_ok d" using att by (simp add: attached_def core_ok_def)
  obtain d1 where d1: "set_temp_bp_location a d = Inr (True, d1)" "attached orig d1" "w_bps d1 = w_bps d"
    "\<forall>k. map_option loc_place (w_locs d1 k) =
       (if k = w_next d then Some (db_pid d, True, a) else map_option loc_place (w_locs d k))"
    "\<forall>k. patch_on d1 k \<longleftrightarrow> k = w_next d \<or> patch_on d k" "\<forall>x. armed d1 x \<longleftrightarrow> x = a \<or> armed d x"
    using set_temp_fresh[OF att a none] by blast
  let ?l = "w_next d"
  have place: "addr_of w k = map_option (snd \<circ> snd) (map_option loc_place (w_locs w k))" for w :: debugger and k
    by (simp add: option.map_comp loc_place_def comp_def)
  have fresh: "w_locs d ?l = None" using heap_fresh[OF h, of ?l] by simp
  have addr1: "addr_of d1 k = (if k = ?l then Some a else addr_of d k)" for k
    unfolding place[of d1] place[of d] using d1(4) by simp
  obtain m g where u: "unset_temp_bp_location a d1 = Inr ((without_loc ?l m d1)\<lparr>db_bp_locations := g\<rparr>)"
    "attached orig ((without_loc ?l m d1)\<lparr>db_bp_locations := g\<rparr>)"
    using unset_temp_ok[OF d1(2), of ?l a] addr1 by auto
  let ?d2 = "(without_loc ?l m d1)\<lparr>db_bp_locations := g\<rparr>"
  have "clear_of ?l b = b" if b: "w_bps d p = Some b" for p b
  proof -
    have "b_location b \<noteq> Some ?l"
    proof
      assume "b_location b = Some ?l"
      then obtain L where "w_locs d ?l = Some L" using heap_location[OF h b] by metis
      then show False using fresh by simp
    qed
    then show ?thesis by (simp add: clear_of_def)
  qed
  then have "map_option (clear_of ?l) (w_bps d p) = w_bps d p" for p by (cases "w_bps d p") auto
  then have bps: "w_bps ?d2 = w_bps d" using d1(3) by (simp add: fun_eq_iff)
  have addr2: "addr_of ?d2 k = addr_of d k" for k
    using addr1[of k] fresh by simp
  have on: "patch_on ?d2 k \<longleftrightarrow> k \<noteq> ?l \<and> patch_on d1 k" for k by (simp add: patch_on_def)
  have "\<not> patch_on d ?l" using fresh by (simp add: patch_on_def)
  then have "armed ?d2 x = armed d x" for x
    unfolding armed_addr addr2 using on d1(5) by metis
  then have "t_mem (w_tracee ?d2) = t_mem (w_tracee d)"
    using attached_mem[OF u(2)] attached_mem[OF att] by auto
  moreover have "t_mem (w_tracee d1) = (t_mem (w_tracee d))(a \<mapsto> 0xCC)"
    using attached_mem[OF d1(2)] attached_mem[OF att] d1(6) by auto
  ultimately show ?thesis using False d1(1,2) u bps addr2 by auto
qed

theorem temporary_location_roundtrip_witness:
  "\<exists>d1 d2. set_temp_bp_location 0x2000 demo_debugger = Inr (True, d1) \<and>
     t_mem (w_tracee d1) 0x2000 = Some 0xCC \<and> unset_temp_bp_location 0x2000 d1 = Inr d2 \<and>
     t_mem (w_tracee d2) = demo_mem"
proof -
  have n: "\<not> (\<exists>k. addr_of demo_debugger k = Some 0x2000)" by (auto split: if_splits)
  have m: "(0x2000 :: u64) \<noteq> 0" by simp
  obtain d1 d2 where "set_temp_bp_location 0x2000 demo_debugger = Inr (True, d1)"
    "t_mem (w_tracee d1) = (t_mem (w_tracee demo_debugger))(0x2000 \<mapsto> 0xCC)"
    "unset_temp_bp_location 0x2000 d1 = Inr d2" "t_mem (w_tracee d2) = t_mem (w_tracee demo_debugger)"
    using temporary_location_roundtrip[OF demo_attached m demo_mapped] unfolding if_not_P[OF n] by blast
  then show ?thesis by auto
qed

section \<open>The states that commands reach\<close>

text \<open>
  What a resumed program does: it ends, or it runs into a breakpoint without having written
  to patched addresses. Both are statements about the program, which is a parameter.
\<close>

definition program_ends :: "debugger \<Rightarrow> tracee \<Rightarrow> bool" where
  "program_ends d t \<longleftrightarrow> t_pid t = db_pid d \<and>
     (\<exists>code. t_run t = Running (WExited code) \<or> t_run t = Running (WSignaled code))"

definition program_hits :: "system \<Rightarrow> debugger \<Rightarrow> tracee \<Rightarrow> bool" where
  "program_hits S d t \<longleftrightarrow> code_untouched (armed d) (w_tracee d) t \<and> length (t_regs t) = 27 \<and>
     armed d (t_regs t ! 16 - 1) \<and>
     (t_run t = Running (WStopped 5 1) \<or> t_run t = Running (WStopped 5 0x80)) \<and>
     (\<exists>out. print_source_at_current_pc (sys_files S) (db_syms d) (t_regs t ! 16 - 1) 3 = Inr out)"

definition startable :: "system \<Rightarrow> debugger \<Rightarrow> bool" where
  "startable S d \<longleftrightarrow> (\<exists>argv la. read_args (db_args d) = Inr argv \<and>
     (let t = env_spawn (sys_program S) (db_process_name d) argv
      in t_run t = Running (WStopped 5 0) \<and> t_pid t \<noteq> 0 \<and>
         initialize_load_address (sys_program S) (t\<lparr>t_run := Stopped 5 0\<rparr>) (db_syms d) = Inr la \<and>
         dw_report (sy_dwarf (db_syms d)) (t_pid t) \<and>
         (\<forall>p b. w_bps d p = Some b \<longrightarrow> b_instr_addr b + la \<noteq> 0 \<and> mapped8 (t_mem t) (b_instr_addr b + la))))"

text \<open>
  One step of a debugging session. \<open>run\<close> is \<open>start\<close> followed by \<open>resume\<close>
  (lemma \<open>spawn_tracee_loaded\<close>).
\<close>

inductive debugger_step :: "system \<Rightarrow> debugger \<Rightarrow> debugger \<Rightarrow> bool" for S where
  break_here: "w_id_counter d \<noteq> - 1 \<Longrightarrow>
    (db_state d = ACTIVE \<longrightarrow> i + db_load_address d \<noteq> 0 \<and> mapped8 (t_mem (w_tracee d)) (i + db_load_address d)) \<Longrightarrow>
    set_breakpoint_at_addr i quiet d = Inr d' \<Longrightarrow> debugger_step S d d'"
| delete_one: "db_state d = ACTIVE \<Longrightarrow> w_bps d p = Some b \<Longrightarrow> remove_breakpoint p d = Inr d' \<Longrightarrow> debugger_step S d d'"
| delete_all: "db_state d = ACTIVE \<Longrightarrow> remove_all_breakpoints d = Inr d' \<Longrightarrow> debugger_step S d d'"
| switch_one: "db_state d = ACTIVE \<Longrightarrow> w_bps d p = Some b \<Longrightarrow>
    bp_enable p d = Inr d' \<or> bp_disable p d = Inr d' \<Longrightarrow> debugger_step S d d'"
| switch_all: "db_state d = ACTIVE \<Longrightarrow>
    enable_all_breakpoints d = Inr d' \<or> disable_all_breakpoints d = Inr d' \<Longrightarrow> debugger_step S d d'"
| start: "db_state d = NOT_ACTIVE \<Longrightarrow> startable S d \<Longrightarrow> spawn_loaded S d = Inr d' \<Longrightarrow> debugger_step S d d'"
| kill: "db_state d = ACTIVE \<Longrightarrow> kill_tracee d = Inr d' \<Longrightarrow> debugger_step S d d'"
| step_past: "db_state d = ACTIVE \<Longrightarrow> get_pc (w_tracee d) (db_pid d) = Inr a \<Longrightarrow> armed d a \<Longrightarrow>
    (\<And>orig t. session_ok orig d \<Longrightarrow> t = env_step (sys_program S) (unpatched_at a orig (w_tracee d)) \<Longrightarrow>
      code_untouched (\<lambda>x. armed d x \<and> x \<noteq> a) (unpatched_at a orig (w_tracee d)) t \<and> t_run t = Running (WStopped 5 2)) \<Longrightarrow>
    step_over_breakpoint S d = Inr d' \<Longrightarrow> debugger_step S d d'"
| resume: "db_state d = ACTIVE \<Longrightarrow> get_pc (w_tracee d) (db_pid d) = Inr a \<Longrightarrow> \<not> armed d a \<Longrightarrow>
    t = env_cont (sys_program S) (db_pending_signal d) (w_tracee d) \<Longrightarrow>
    program_ends d t \<or> program_hits S d t \<Longrightarrow>
    continue_execution S d = Inr d' \<Longrightarrow> debugger_step S d d'"

inductive_cases debugger_stepE: "debugger_step S d d'"

definition live :: "debugger \<Rightarrow> bool" where
  "live d \<longleftrightarrow> idle_ok d \<or> (\<exists>orig. session_ok orig d \<and> (\<forall>x. \<not> temp_at d x))"

lemma live_active:
  assumes "live d" "db_state d = ACTIVE"
  obtains orig where "session_ok orig d" "\<And>x. \<not> temp_at d x"
  using assms by (auto simp: live_def idle_ok_def)

lemma live_idle:
  assumes "live d" "db_state d = NOT_ACTIVE"
  shows "idle_ok d"
  using assms by (auto simp: live_def session_ok_def attached_def)

lemma liveI_session: "session_ok orig d \<Longrightarrow> (\<And>x. \<not> temp_at d x) \<Longrightarrow> live d"
  by (auto simp: live_def)

lemma liveI_idle: "idle_ok d \<Longrightarrow> live d"
  by (simp add: live_def)

lemma live_break:
  assumes l: "live d" and c: "w_id_counter d \<noteq> - 1"
    and a: "db_state d = ACTIVE \<longrightarrow> i + db_load_address d \<noteq> 0 \<and> mapped8 (t_mem (w_tracee d)) (i + db_load_address d)"
    and d': "set_breakpoint_at_addr i quiet d = Inr d'"
  shows "live d'"
proof (cases "db_state d")
  case ACTIVE
  obtain orig where ok: "session_ok orig d" "\<And>x. \<not> temp_at d x" using live_active[OF l ACTIVE] by blast
  have "mapped8 orig (i + db_load_address d)"
    using mapped_orig[of orig d] ok(1) a ACTIVE by (simp add: session_ok_def attached_def)
  then obtain d1 where d1: "install_breakpoint BP_ADDR i quiet d = Inr d1" "session_ok orig d1"
    "\<forall>x. temp_at d1 x = temp_at d x"
    using install_session[OF ok(1) c refl _ _ ok(2), of i BP_ADDR quiet] a ACTIVE by auto
  moreover have "d1 = d'" using d1(1) d' by (simp add: set_breakpoint_at_addr_def)
  ultimately show ?thesis using ok(2) by (auto intro: liveI_session)
next
  case NOT_ACTIVE
  then show ?thesis
    using install_idle[OF live_idle[OF l] c, of BP_ADDR i quiet] d'
    by (auto simp: set_breakpoint_at_addr_def intro: liveI_idle)
qed

lemma live_switch:
  assumes l: "live d" "db_state d = ACTIVE" and b: "w_bps d p = Some b" and d': "bp_switch v p d = Inr d'"
  shows "live d'"
proof -
  obtain orig where ok: "session_ok orig d" "\<And>x. \<not> temp_at d x" using live_active[OF l] by blast
  have w: "world_ok orig d" by (rule attached_world[OF session_attached[OF ok(1)]])
  obtain w' where w': "bp_switch v p d = Inr w'" "world_ok orig w'" "same_sites d w'"
    "w_bps w' = (w_bps d)(p \<mapsto> b\<lparr>b_enable := v\<rparr>)"
    using bp_switch_ok[OF w b, of v] by blast
  then have "d' = w'" using d' by simp
  moreover have "session_ok orig w'" by (rule switch_session[OF ok(1) b w'(2,3,4)])
  moreover have "\<not> temp_at w' x" for x using ok(2)[of x] same_sites_shape[OF w'(3)] by (simp add: temp_at_alt)
  ultimately show ?thesis by (auto intro: liveI_session)
qed

lemma live_switch_all:
  assumes l: "live d" "db_state d = ACTIVE" and d': "res_fold (bp_switch v) (db_pending_breakpoints d) d = Inr d'"
  shows "live d'"
proof -
  obtain orig where ok: "session_ok orig d" "\<And>x. \<not> temp_at d x" using live_active[OF l] by blast
  obtain w' where w': "res_fold (bp_switch v) (db_pending_breakpoints d) d = Inr w'" "session_ok orig w'"
    "same_sites d w'"
    using switch_all_session[OF ok(1), of v] by blast
  moreover have "\<not> temp_at w' x" for x using ok(2)[of x] same_sites_shape[OF w'(3)] by (simp add: temp_at_alt)
  ultimately show ?thesis using d' by (auto intro: liveI_session)
qed

lemma live_resume:
  assumes l: "live d" "db_state d = ACTIVE" and pc: "get_pc (w_tracee d) (db_pid d) = Inr a" "\<not> armed d a"
    and t: "t = env_cont (sys_program S) (db_pending_signal d) (w_tracee d)"
    and out: "program_ends d t \<or> program_hits S d t" and d': "continue_execution S d = Inr d'"
  shows "live d'"
  using out
proof
  obtain orig where ok: "session_ok orig d" "\<And>x. \<not> temp_at d x" using live_active[OF l] by blast
  assume "program_hits S d t"
  then obtain c out where h: "code_untouched (armed d) (w_tracee d) t" "length (t_regs t) = 27"
    "armed d (t_regs t ! 16 - 1)" "t_run t = Running (WStopped 5 c)" "c \<in> {1, 0x80}"
    "print_source_at_current_pc (sys_files S) (db_syms d) (t_regs t ! 16 - 1) 3 = Inr out"
    by (auto simp: program_hits_def)
  have "t_regs t ! 16 = (t_regs t ! 16 - 1) + 1" by simp
  from continue_hit_ok[OF ok(1) pc t h(4,5,1) this h(2,3) ok(2) h(6)] d' ok(2)
  show ?thesis by (auto intro: liveI_session)
next
  obtain orig where ok: "session_ok orig d" using live_active[OF l] by blast
  have att: "attached orig d" by (rule session_attached[OF ok])
  let ?e = "d\<lparr>w_tracee := t, db_pending_signal := 0\<rparr>"
  assume "program_ends d t"
  then obtain code st msg where e: "t_pid t = db_pid d" "t_run t = Running st"
    "st = WExited code \<and> msg = Out_Exited code \<or> st = WSignaled code \<and> msg = Out_Terminated code"
    by (auto simp: program_ends_def)
  have "core_ok ?e" "locs_mapped ?e" "t_pid (w_tracee ?e) = db_pid ?e" "t_run (w_tracee ?e) = Running st"
    using att e by (simp_all add: attached_def core_ok_def)
  then obtain d1 where "wait_for_signal S ?e = Inr d1" "idle_ok d1"
    using wait_exit[of ?e st code msg S] e(3) by blast
  moreover have "continue_execution S d = wait_for_signal S ?e"
    unfolding continue_not_at_breakpoint[OF att pc, of S] t ..
  ultimately show ?thesis using d' by (auto intro: liveI_idle)
qed

lemma live_step_past:
  assumes l: "live d" "db_state d = ACTIVE" and pc: "get_pc (w_tracee d) (db_pid d) = Inr a" "armed d a"
    and tame: "\<And>orig t. session_ok orig d \<Longrightarrow> t = env_step (sys_program S) (unpatched_at a orig (w_tracee d)) \<Longrightarrow>
      code_untouched (\<lambda>x. armed d x \<and> x \<noteq> a) (unpatched_at a orig (w_tracee d)) t \<and> t_run t = Running (WStopped 5 2)"
    and d': "step_over_breakpoint S d = Inr d'"
  shows "live d'"
proof -
  obtain orig where ok: "session_ok orig d" "\<And>x. \<not> temp_at d x" using live_active[OF l] by blast
  define t where "t = env_step (sys_program S) (unpatched_at a orig (w_tracee d))"
  obtain d1 where d1: "step_over_breakpoint S d = Inr d1"
    "attached (image_after (\<lambda>x. armed d x \<and> x \<noteq> a) orig (t_mem t)) d1"
    "w_bps d1 = w_bps d" "\<forall>l. addr_of d1 l = addr_of d l"
    "bp_world.more d1 = bp_world.more d" "\<forall>x. temp_at d1 x = temp_at d x"
    using step_over_ok[OF session_attached[OF ok(1)] pc t_def] tame[OF ok(1) t_def] by blast
  have "db_load_address d1 = db_load_address d" using more_fields[OF d1(5)] by simp
  from session_same_sites[OF ok(1) d1(2,3,4) this] show ?thesis
    using d1(1,6) d' ok(2) by (auto intro: liveI_session)
qed

lemma live_start:
  assumes l: "live d" "db_state d = NOT_ACTIVE" and s: "startable S d" and d': "spawn_loaded S d = Inr d'"
  shows "live d'"
proof -
  obtain argv la t where a: "read_args (db_args d) = Inr argv"
    "t = env_spawn (sys_program S) (db_process_name d) argv" "t_run t = Running (WStopped 5 0)" "t_pid t \<noteq> 0"
    "initialize_load_address (sys_program S) (t\<lparr>t_run := Stopped 5 0\<rparr>) (db_syms d) = Inr la"
    "dw_report (sy_dwarf (db_syms d)) (t_pid t)"
    "\<forall>p b. w_bps d p = Some b \<longrightarrow> b_instr_addr b + la \<noteq> 0 \<and> mapped8 (t_mem t) (b_instr_addr b + la)"
    using s unfolding startable_def Let_def by metis
  from spawn_ok[OF live_idle[OF l] a] d' show ?thesis by (auto intro: liveI_session)
qed

lemma live_step: "debugger_step S d d' \<Longrightarrow> live d \<Longrightarrow> live d'"
proof (induction rule: debugger_step.induct)
  case (break_here d i quiet d')
  then show ?case using live_break by blast
next
  case (delete_one d p b d')
  obtain orig where ok: "session_ok orig d" "\<And>x. \<not> temp_at d x" using live_active delete_one by metis
  show ?case using remove_session[OF ok(1) delete_one(2)] delete_one(3) ok(2) by (auto intro: liveI_session)
next
  case (delete_all d d')
  obtain orig where ok: "session_ok orig d" "\<And>x. \<not> temp_at d x" using live_active delete_all by metis
  show ?case using remove_all_session[OF ok(1)] delete_all(2) ok(2) by (auto intro: liveI_session)
next
  case (switch_one d p b d')
  then show ?case
    using live_switch[of d p b True d'] live_switch[of d p b False d'] by (auto simp: bp_switch_def)
next
  case (switch_all d d')
  then show ?case
    using live_switch_all[of d True d'] live_switch_all[of d False d'] by (auto simp: switch_all_alt)
next
  case (start d d')
  then show ?case using live_start by blast
next
  case (kill d d')
  obtain orig where ok: "session_ok orig d" using live_active kill by metis
  show ?case using kill_ok[OF session_attached[OF ok]] kill(2) by (auto intro: liveI_idle)
next
  case (step_past d a d')
  then show ?case using live_step_past[of d a S d'] by blast
next
  case (resume d a t d')
  then show ?case using live_resume by blast
qed

lemma reachable_live:
  assumes "idle_ok d" "(debugger_step S)\<^sup>*\<^sup>* d d'"
  shows "live d'"
  using assms(2) by (induction rule: rtranclp_induct) (use assms(1) live_step in \<open>auto intro: liveI_idle\<close>)


lemma demo_startable: "startable (demo_system Dead) demo_ready"
  by (auto simp: startable_def)

lemma demo_started:
  "\<exists>d'. (debugger_step (demo_system Dead))\<^sup>*\<^sup>* demo_ready d' \<and> session_ok demo_mem d'"
proof -
  let ?t = "env_spawn (sys_program (demo_system Dead)) (db_process_name demo_ready) [''a.out'']"
  have places: "\<forall>p b. w_bps demo_ready p = Some b \<longrightarrow> b_instr_addr b + 0 \<noteq> 0 \<and> mapped8 (t_mem ?t) (b_instr_addr b + 0)"
    by simp
  obtain d' where d': "spawn_loaded (demo_system Dead) demo_ready = Inr d'" "session_ok demo_mem d'"
    using spawn_ok[OF demo_ready_ok _ refl _ _ _ _ places] by auto
  have "db_state demo_ready = NOT_ACTIVE" using demo_ready_ok by (simp add: idle_ok_def)
  then have "(debugger_step (demo_system Dead))\<^sup>*\<^sup>* demo_ready d'"
    using debugger_step.start[OF _ demo_startable d'(1)] by blast
  then show ?thesis using d'(2) by blast
qed


text \<open>What every pointer of the debugger leads to.\<close>

definition pointers_ok :: "debugger \<Rightarrow> bool" where
  "pointers_ok d \<longleftrightarrow>
     (\<forall>p b l. w_bps d p = Some b \<longrightarrow> b_location b = Some l \<longrightarrow>
        (\<exists>L ps. w_locs d l = Some L \<and> l_bp_list L = Some ps \<and> p \<in> set ps \<and>
           l_running_addr L = b_instr_addr b + db_load_address d)) \<and>
     (\<forall>l L. w_locs d l = Some L \<longrightarrow>
        (\<exists>ps. l_bp_list L = Some ps \<and> distinct ps \<and>
           (\<forall>p \<in> set ps. \<exists>b. w_bps d p = Some b \<and> b_location b = Some l)) \<and>
        map_abs (db_bp_locations d) (l_running_addr L) = Some l) \<and>
     (\<forall>a l. map_abs (db_bp_locations d) a = Some l \<longrightarrow> (\<exists>L. w_locs d l = Some L \<and> l_running_addr L = a)) \<and>
     (\<forall>i p. map_abs (db_breakpoints d) i = Some p \<longleftrightarrow> (\<exists>b. w_bps d p = Some b \<and> b_id b = i)) \<and>
     distinct (db_pending_breakpoints d) \<and> (\<forall>p. p \<in> set (db_pending_breakpoints d) \<longleftrightarrow> w_bps d p \<noteq> None)"

lemma idle_pointers:
  assumes "idle_ok d"
  shows "pointers_ok d"
proof -
  have h: "heap_ok d" and m: "maps_ok d" and n: "w_locs d = (\<lambda>_. None)" "db_bp_locations d = None"
    using assms by (simp_all add: idle_ok_def core_ok_def)
  have "b_location b = None" if "w_bps d p = Some b" for p b
  proof (rule ccontr)
    assume "b_location b \<noteq> None"
    then obtain l where "b_location b = Some l" by blast
    then have "\<exists>L ps. w_locs d l = Some L \<and> l_bp_list L = Some ps \<and> p \<in> set ps"
      using h that by (simp add: heap_ok_def)
    then show False by (simp add: n(1))
  qed
  then show ?thesis using m n by (auto simp: pointers_ok_def maps_ok_def map_abs_def)
qed

lemma session_pointers:
  assumes ok: "session_ok orig d" and nt: "\<And>x. \<not> temp_at d x"
  shows "pointers_ok d"
proof -
  have h: "heap_ok d" and m: "maps_ok d" and lm: "locs_mapped d"
    using ok by (simp_all add: session_ok_def attached_def core_ok_def)
  have "\<exists>L ps. w_locs d l = Some L \<and> l_bp_list L = Some ps \<and> p \<in> set ps \<and>
      l_running_addr L = b_instr_addr b + db_load_address d"
    if b: "w_bps d p = Some b" "b_location b = Some l" for p b l
  proof -
    have "\<exists>L ps. w_locs d l = Some L \<and> l_bp_list L = Some ps \<and> p \<in> set ps"
      using h b by (simp add: heap_ok_def)
    moreover have "located d b" using ok b(1) by (simp add: session_ok_def)
    ultimately show ?thesis using b(2) by (auto simp: located_def)
  qed
  moreover have "(\<exists>ps. l_bp_list L = Some ps \<and> distinct ps \<and>
      (\<forall>p \<in> set ps. \<exists>b. w_bps d p = Some b \<and> b_location b = Some l)) \<and>
      map_abs (db_bp_locations d) (l_running_addr L) = Some l" if L: "w_locs d l = Some L" for l L
  proof
    have "\<not> l_is_temp L" using nt[of "l_running_addr L"] L by (auto simp: temp_at_def)
    moreover have "if l_is_temp L then l_bp_list L = None else \<exists>ps. l_bp_list L = Some ps \<and> distinct ps \<and>
        (\<forall>p \<in> set ps. \<exists>b. w_bps d p = Some b \<and> b_location b = Some l)"
      using h L unfolding heap_ok_def by blast
    ultimately show "\<exists>ps. l_bp_list L = Some ps \<and> distinct ps \<and>
        (\<forall>p \<in> set ps. \<exists>b. w_bps d p = Some b \<and> b_location b = Some l)" by simp
    show "map_abs (db_bp_locations d) (l_running_addr L) = Some l" using lm L by (auto simp: locs_mapped_def)
  qed
  moreover have "\<exists>L. w_locs d l = Some L \<and> l_running_addr L = a" if "map_abs (db_bp_locations d) a = Some l" for a l
    using lm that by (simp add: locs_mapped_def)
  ultimately show ?thesis using m unfolding pointers_ok_def by (simp add: maps_ok_def)
qed



end
