(* ===== verification/Disassemble.thy ===== *)
theory Disassemble
  imports Debugger_Life
begin

text \<open>
  The disassembly of \<open>src/disassemble.c\<close>. The disassembler itself is the library capstone: what
  \<open>cs_open\<close> and \<open>cs_disasm\<close> return is a parameter, and the text they produce is formatted here.
\<close>

section \<open>Instructions\<close>

datatype x86_op = X86_OP_INVALID | X86_OP_REG | X86_OP_IMM | X86_OP_MEM

text \<open>
  A \<open>cs_insn\<close>: \<open>in_bytes\<close> is its array \<open>bytes[24]\<close>, \<open>in_op_str\<close> the bytes of the structure from
  the array \<open>op_str[160]\<close> on, of which there are fewer than 256, so that the 8-bit indices
  of the code do not wrap in them; \<open>in_detail\<close> has the array of operands and their number.
\<close>

record cs_insn =
  in_address :: u64
  in_size :: nat
  in_bytes :: "u8 list"
  in_mnemonic :: string
  in_op_str :: "char list"
  in_detail :: "(x86_op list \<times> nat) option"

record capstone =
  cs_open_ok :: bool
  cs_disasm :: "u8 list \<Rightarrow> u64 \<Rightarrow> cs_insn list"

definition put :: "string \<Rightarrow> styled list" where
  "put s = map Put s"

text \<open>The text without the escape sequences.\<close>

fun plain :: "styled list \<Rightarrow> string" where
  "plain [] = []"
| "plain (Put c # xs) = c # plain xs"
| "plain (Esc e # xs) = plain xs"

section \<open>The bytes of an instruction\<close>

definition print_bytes :: "u8 list \<Rightarrow> nat \<Rightarrow> nat \<Rightarrow> styled list res" where
  "print_bytes bytes sz max_size =
     (if length bytes < sz then Inl OutOfBounds
      else Inr (Esc HWHT # put (concat (map (\<lambda>b. printf_02x b @ '' '') (take sz bytes)))
                @ put (concat (replicate (Suc max_size - sz) ''   '')) @ [Esc RESET]))"

section \<open>Operands\<close>

text \<open>The inner loop of \<open>print_expression\<close>, up to a space or the closing bracket.\<close>

fun print_word :: "char list \<Rightarrow> (styled list \<times> char list) res" where
  "print_word [] = Inl OutOfBounds"
| "print_word (c # cs) =
     (if c \<noteq> CHR '' '' \<and> c \<noteq> CHR '']''
      then res_bind (print_word cs) (\<lambda>(out, rest). Inr (Put c # out, rest))
      else Inr ([], c # cs))"

lemma print_word_ends:
  "print_word s = Inr (out, rest) \<Longrightarrow> s = plain out @ rest \<and> rest \<noteq> [] \<and> hd rest \<in> {CHR '' '', CHR '']''}"
proof (induction s arbitrary: out)
  case (Cons c cs)
  show ?case
  proof (cases "c \<noteq> CHR '' '' \<and> c \<noteq> CHR '']''")
    case True
    then obtain out' where "print_word cs = Inr (out', rest)" "out = Put c # out'"
      using Cons.prems by auto
    then show ?thesis using Cons.IH by simp
  next
    case False
    then show ?thesis using Cons.prems by auto
  qed
qed simp

definition word_colour :: "char \<Rightarrow> char list \<Rightarrow> style" where
  "word_colour c cs =
     (if (c = CHR ''0'' \<and> cs \<noteq> [] \<and> hd cs = CHR ''x'') \<or> isdigit c then IMM_COLOR
      else if c \<in> {CHR ''+'', CHR ''-'', CHR ''*''} then OPERATOR_COLOR
      else REG_COLOR)"

lemma print_word_shorter:
  assumes w: "print_word (c # cs) = Inr (out, rest)" and c: "c \<noteq> CHR '']''"
  shows "length (if hd rest = CHR '' '' then tl rest else rest) < length (c # cs)"
proof -
  have e: "c # cs = plain out @ rest" "rest \<noteq> []" using print_word_ends[OF w] by simp_all
  show ?thesis
  proof (cases "hd rest = CHR '' ''")
    case True
    have "length (tl rest) < length rest" using e(2) by (cases rest) simp_all
    moreover have "length rest \<le> length (c # cs)" unfolding e(1) by simp
    ultimately show ?thesis using True by simp
  next
    case False
    then have "c \<noteq> CHR '' ''" using w c by (auto split: if_splits)
    then obtain out' where "out = Put c # out'" using w c by auto
    then have "length rest < length (c # cs)" using arg_cong[OF e(1), of length] by simp
    then show ?thesis using False by simp
  qed
qed

text \<open>The text after a \<open>[\<close>: what is printed, and the rest from the \<open>]\<close> on.\<close>

function print_expression :: "char list \<Rightarrow> (styled list \<times> char list) res" where
  "print_expression [] = Inl OutOfBounds"
| "print_expression (c # cs) =
     (if c = CHR '']'' then Inr ([], c # cs)
      else res_bind (print_word (c # cs)) (\<lambda>(word, rest).
             let (blank, rest') = (if hd rest = CHR '' '' then ([Put (hd rest)], tl rest) else ([], rest))
             in res_bind (print_expression rest') (\<lambda>(out, rest''). 
                  Inr (Esc (word_colour c cs) # word @ blank @ out, rest''))))"
  by pat_completeness auto

termination
proof (relation "measure length", goal_cases)
  case (2 c cs x word rest y blank rest')
  then have w: "print_word (c # cs) = Inr (word, rest)" and c: "c \<noteq> CHR '']''" by simp_all
  have "rest' = (if hd rest = CHR '' '' then tl rest else rest)" using 2 by (auto split: if_splits)
  then show ?case using print_word_shorter[OF w c] by simp
qed simp

text \<open>\<open>while (op_str[str_iter] != stop && str_iter < 160) putchar(op_str[str_iter++])\<close>.\<close>

fun put_until :: "char \<Rightarrow> nat \<Rightarrow> char list \<Rightarrow> (styled list \<times> nat \<times> char list) res" where
  "put_until stop str_iter [] = Inl OutOfBounds"
| "put_until stop str_iter (c # cs) =
     (if c \<noteq> stop \<and> str_iter < 160
      then res_bind (put_until stop (Suc str_iter) cs) (\<lambda>(out, r). Inr (Put c # out, r))
      else Inr ([], str_iter, c # cs))"

text \<open>A read of the next character.\<close>

definition next_char :: "char list \<Rightarrow> (char \<times> char list) res" where
  "next_char s = (case s of [] \<Rightarrow> Inl OutOfBounds | c # cs \<Rightarrow> Inr (c, cs))"

text \<open>The case \<open>X86_OP_MEM\<close>.\<close>

definition print_memory_operand :: "nat \<Rightarrow> char list \<Rightarrow> (styled list \<times> nat \<times> char list) res" where
  "print_memory_operand str_iter s =
     res_bind (put_until (CHR ''['') str_iter s) (\<lambda>(before, i1, s1).
     res_bind (next_char s1) (\<lambda>(c, s2).
     res_bind (c_assert (c = CHR ''['') ()) (\<lambda>_.
     res_bind (print_expression s2) (\<lambda>(expr, s3).
     res_bind (next_char s3) (\<lambda>(e, s4).
     res_bind (c_assert (e = CHR '']'') ()) (\<lambda>_.
       Inr (Esc WHT # before @ [Esc BRACKET_COLOR, Put c, Esc RESET] @ expr
              @ [Esc BRACKET_COLOR, Put e, Esc RESET],
            Suc i1 + (length s2 - length s3) + 1, s4)))))))"

definition print_operand :: "x86_op \<Rightarrow> nat \<Rightarrow> char list \<Rightarrow> (styled list \<times> nat \<times> char list) res" where
  "print_operand op str_iter s =
     res_bind (case op of
                 X86_OP_INVALID \<Rightarrow> Inr ([Esc WHT], str_iter, s)
               | X86_OP_REG \<Rightarrow> Inr ([Esc REG_COLOR], str_iter, s)
               | X86_OP_IMM \<Rightarrow> Inr ([Esc IMM_COLOR], str_iter, s)
               | X86_OP_MEM \<Rightarrow> print_memory_operand str_iter s) (\<lambda>(start, i1, s1).
     res_bind (put_until (CHR '','') i1 s1) (\<lambda>(out, i2, s2).
     res_bind (next_char s2) (\<lambda>(c, s3).
       Inr (if c = CHR '','' then (start @ out @ [Esc RESET, Put c], Suc i2, s3)
            else (start @ out @ [Esc RESET], i2, s2)))))"

fun print_operands :: "x86_op list \<Rightarrow> nat \<Rightarrow> char list \<Rightarrow> styled list res" where
  "print_operands [] str_iter s = Inr []"
| "print_operands (op # ops) str_iter s =
     res_bind (print_operand op str_iter s) (\<lambda>(out, i1, s1).
     res_bind (print_operands ops i1 s1) (\<lambda>outs. Inr (out @ outs)))"

definition print_oprand_string :: "char list \<Rightarrow> x86_op list \<Rightarrow> nat \<Rightarrow> styled list res" where
  "print_oprand_string op_str operands op_count =
     (if length operands < op_count then Inl OutOfBounds
      else print_operands (take op_count operands) 0 op_str)"

section \<open>The names of called functions\<close>

text \<open>
  The loop over the functions when the map does not know the address: every match replaces
  \<open>func_name\<close> and is offered to the map.
\<close>

fun name_loop :: "func_entry list \<Rightarrow> u64 \<Rightarrow> string option \<times> string umap option \<Rightarrow>
    (string option \<times> string umap option) res" where
  "name_loop [] imm_val r = Inr r"
| "name_loop (f # fs) imm_val (func_name, m) =
     (if imm_val = fe_addr f
      then res_bind (map_insert m imm_val (Some (fe_name f))) (\<lambda>(_, m'). name_loop fs imm_val (Some (fe_name f), m'))
      else name_loop fs imm_val (func_name, m))"

text \<open>A NUL-terminated string in a buffer.\<close>

definition c_string :: "char list \<Rightarrow> string" where
  "c_string buf = takeWhile (\<lambda>c. c \<noteq> CHR 0x00) buf"

definition call_target :: "cs_insn \<Rightarrow> x86_op list \<Rightarrow> u64 option" where
  "call_target instruction operands =
     (if in_mnemonic instruction = ''call'' \<and> operands \<noteq> [] \<and> hd operands = X86_OP_IMM
      then Some (strtoul 16 (c_string (in_op_str instruction))) else None)"

definition call_name :: "func_entry list \<Rightarrow> u64 option \<Rightarrow> string umap option \<Rightarrow> (string option \<times> string umap option) res" where
  "call_name funcs target m =
     (case target of
        None \<Rightarrow> Inr (None, m)
      | Some imm_val \<Rightarrow>
          res_bind (map_lookup m imm_val) (\<lambda>found.
            if found = None then name_loop funcs imm_val (None, m) else Inr (found, m)))"

section \<open>The rows\<close>

text \<open>A row: the line up to the operands, and the name behind a \<open>call\<close>.\<close>

record disas_row =
  dr_line :: "styled list"
  dr_name :: "string option"

definition row_text :: "disas_row \<Rightarrow> styled list" where
  "row_text r = dr_line r
     @ (case dr_name r of None \<Rightarrow> [] | Some n \<Rightarrow> Esc RESET # put '' <'' @ Esc GRN # put n @ Esc RESET # put ''>'')
     @ [Esc RESET, Put newline]"

definition pad6 :: "string \<Rightarrow> string" where
  "pad6 s = s @ replicate (6 - length s) (CHR '' '')"

definition instruction_line :: "cs_insn \<Rightarrow> x86_op list \<Rightarrow> nat \<Rightarrow> nat \<Rightarrow> u64 \<Rightarrow> u64 \<Rightarrow> styled list res" where
  "instruction_line instruction operands op_count max_size load_address pc =
     (let curr_addr = in_address instruction + load_address
      in res_bind (print_bytes (in_bytes instruction) (in_size instruction) max_size) (\<lambda>bytes.
         res_bind (print_oprand_string (in_op_str instruction) operands op_count) (\<lambda>oprands.
           Inr ((if curr_addr = pc then Esc BGRN # put '' > '' else put ''   '' @ [Esc BWHT])
                @ put (printf_lx curr_addr) @ Esc RESET # put '': '' @ bytes
                @ Esc YEL # put (pad6 (in_mnemonic instruction) @ '' '') @ Esc RESET # oprands))))"

fun instruction_rows :: "cs_insn list \<Rightarrow> nat \<Rightarrow> u64 \<Rightarrow> u64 \<Rightarrow> func_entry list \<Rightarrow> string umap option \<Rightarrow>
    disas_row list res" where
  "instruction_rows [] max_size load_address pc funcs m = Inr []"
| "instruction_rows (instruction # is) max_size load_address pc funcs m =
     (case in_detail instruction of
        None \<Rightarrow> Inl AssertFailed
      | Some (operands, op_count) \<Rightarrow>
          res_bind (instruction_line instruction operands op_count max_size load_address pc) (\<lambda>line.
          res_bind (call_name funcs (call_target instruction operands) m) (\<lambda>(func_name, m').
          res_bind (instruction_rows is max_size load_address pc funcs m') (\<lambda>rows.
            Inr (\<lparr>dr_line = line, dr_name = func_name\<rparr> # rows)))))"

definition print_instruction_disas ::
    "cs_insn list \<Rightarrow> u64 \<Rightarrow> u64 \<Rightarrow> func_entry list \<Rightarrow> disas_row list res" where
  "print_instruction_disas instructions load_address pc funcs =
     res_bind (map_init (of_nat (length funcs))) (\<lambda>funcs_map.
       instruction_rows instructions (foldl (\<lambda>n i. max n (in_size i)) 0 instructions) load_address pc funcs funcs_map)"

text \<open>
  \<open>disassemble\<close>: \<open>None\<close> when capstone or the file cannot be opened. A file that ends before
  \<open>addr + size\<close> leaves the rest of the buffer as \<open>malloc\<close> returned it.
\<close>

definition disassemble ::
    "capstone \<Rightarrow> host_files \<Rightarrow> string \<Rightarrow> u64 \<Rightarrow> u64 \<Rightarrow> u64 \<Rightarrow> u64 \<Rightarrow> func_entry list \<Rightarrow> disas_row list option res" where
  "disassemble K H tracee addr sz load_address pc funcs =
     (if \<not> cs_open_ok K then Inr None
      else case hf_bytes H tracee of
             None \<Rightarrow> Inr None
           | Some contents \<Rightarrow>
               (let buf = take (unat sz) (drop (unat addr) contents)
                in if length buf < unat sz then Inl UninitRead
                   else res_bind (print_instruction_disas (cs_disasm K (map of_char buf) addr) load_address pc funcs)
                          (\<lambda>rows. Inr (Some rows))))"

text \<open>One iteration of the loop of \<open>print_disassembly_of_function\<close>.\<close>

definition disassemble_entry ::
    "capstone \<Rightarrow> system \<Rightarrow> string \<Rightarrow> u64 \<Rightarrow> u64 \<Rightarrow> func_entry \<Rightarrow> debugger \<Rightarrow> debugger res" where
  "disassemble_entry K S function_name load_address pc f d =
     (if fe_name f \<noteq> function_name then Inr d
      else res_bind (disassemble K (sys_files S) (dbg_get_tracee_name d) (fe_addr f) (fe_size f) load_address pc
                       (get_valid_func_symbols (dbg_get_symbols d))) (\<lambda>rows.
             Inr (let d1 = say (Out_Text (''Disassembly of '' @ function_name)) d
                  in case rows of None \<Rightarrow> d1 | Some rs \<Rightarrow> say (Out_Styled (concat (map row_text rs) @ [Put newline])) d1)))"

text \<open>The start: the name, the load address and the program counter to work with.\<close>

definition function_to_disassemble :: "string option \<Rightarrow> debugger \<Rightarrow> ((string \<times> u64 \<times> u64) option \<times> debugger) res" where
  "function_to_disassemble function_name d =
     (case function_name of
        Some f \<Rightarrow> Inr (Some (f, 0, 0), d)
      | None \<Rightarrow>
          if \<not> dbg_is_active d
          then Inr (None, say (Out_Text ''to print disassembly, pls specify the function name'') d)
          else res_bind (get_pc (w_tracee d) (dbg_get_pid d)) (\<lambda>pc.
               res_bind (get_func_die_from_pc (dbg_get_symbols d) pc (dbg_get_load_address d)) (\<lambda>func_die.
                 Inr (case (case func_die of None \<Rightarrow> None | Some die \<Rightarrow> fd_name die) of
                        None \<Rightarrow> (None, say (Out_Text ''no function symbol found at current pc'') d)
                      | Some func_name \<Rightarrow> (Some (func_name, dbg_get_load_address d, pc), d)))))"

definition print_disassembly_of_function ::
    "capstone \<Rightarrow> system \<Rightarrow> string option \<Rightarrow> debugger \<Rightarrow> debugger res" where
  "print_disassembly_of_function K S function_name d =
     res_bind (function_to_disassemble function_name d) (\<lambda>(start, d1).
       case start of
         None \<Rightarrow> Inr d1
       | Some (name, load_address, pc) \<Rightarrow>
           (let load_address' = (if load_address = 0 \<and> dbg_is_active d1 then dbg_get_load_address d1 else load_address);
                functions = get_valid_func_symbols (dbg_get_symbols d1)
            in if functions = [] then Inr (say (Out_Text ''No functions found in this file'') d1)
               else res_bind (res_fold (disassemble_entry K S name load_address' pc) functions d1) (\<lambda>d2.
                      Inr (if \<exists>f \<in> set functions. fe_name f = name then d2
                           else say (Out_Text (''No function found with name '' @ name)) d2))))"

end
