(* ===== verification/Disassemble_Props.thy ===== *)
theory Disassemble_Props
  imports Disassemble
begin

text \<open>
  The properties of the disassembly: the colouring of the operands keeps their text but reads
  past the operand array, and the names behind calls are those of the function table, the last
  alias at the first call of an address and the first alias at every later one.
\<close>

section \<open>The text of the operands\<close>

lemma plain_append [simp]: "plain (xs @ ys) = plain xs @ plain ys"
  by (induction xs rule: plain.induct) simp_all

lemma plain_put [simp]: "plain (put s) = s"
  by (induction s) (simp_all add: put_def)

lemma put_until_text:
  "put_until stop i s = Inr (out, i', s') \<Longrightarrow>
     s = plain out @ s' \<and> i' = i + length (plain out) \<and> s' \<noteq> [] \<and> (hd s' = stop \<or> 160 \<le> i')"
proof (induction stop i s arbitrary: out rule: put_until.induct)
  case (2 stop i c cs)
  show ?case
  proof (cases "c \<noteq> stop \<and> i < 160")
    case True
    then obtain out' where o: "put_until stop (Suc i) cs = Inr (out', i', s')" "out = Put c # out'"
      using "2.prems" by auto
    show ?thesis using "2.IH"[OF True o(1)] o(2) by auto
  next
    case False
    then show ?thesis using "2.prems" by auto
  qed
qed simp

lemma print_expression_text:
  "print_expression s = Inr (out, rest) \<Longrightarrow> s = plain out @ rest \<and> rest \<noteq> [] \<and> hd rest = CHR '']''"
proof (induction s arbitrary: out rule: print_expression.induct)
  case (2 c cs)
  show ?case
  proof (cases "c = CHR '']''")
    case True
    then show ?thesis using "2.prems" by auto
  next
    case False
    then obtain word r1 where w: "print_word (c # cs) = Inr (word, r1)"
      using "2.prems" by (cases "print_word (c # cs)") auto
    define r2 where "r2 = (if hd r1 = CHR '' '' then tl r1 else r1)"
    define blank where "blank = (if hd r1 = CHR '' '' then [Put (hd r1)] else [])"
    have split: "(if hd r1 = CHR '' '' then ([Put (hd r1)], tl r1) else ([], r1)) = (blank, r2)"
      by (simp add: r2_def blank_def)
    obtain out' where o: "print_expression r2 = Inr (out', rest)" "out = Esc (word_colour c cs) # word @ blank @ out'"
      using "2.prems" False w by (auto simp: split simp del: print_word.simps)
    have IH: "r2 = plain out' @ rest \<and> rest \<noteq> [] \<and> hd rest = CHR '']''"
      using "2.IH"[OF False w refl split[symmetric] refl] o(1) by blast
    have "c # cs = plain word @ r1" "r1 \<noteq> []" using print_word_ends[OF w] by simp_all
    moreover have "r1 = plain blank @ r2" using \<open>r1 \<noteq> []\<close> by (cases r1) (simp_all add: r2_def blank_def)
    ultimately show ?thesis using IH o(2) by simp
  qed
qed simp

lemma next_char_eq [simp]: "next_char s = Inr (c, cs) \<longleftrightarrow> s = c # cs"
  by (cases s) (auto simp: next_char_def)

lemma print_memory_operand_text:
  assumes "print_memory_operand i s = Inr (out, i', s')"
  shows "s = plain out @ s' \<and> i' = i + length (plain out)"
proof -
  obtain before i1 s1 c s2 expr s3 e s4 where r: "put_until (CHR ''['') i s = Inr (before, i1, s1)" "s1 = c # s2"
    "print_expression s2 = Inr (expr, s3)" "s3 = e # s4" "s' = s4" "i' = Suc i1 + (length s2 - length s3) + 1"
    "out = Esc WHT # before @ [Esc BRACKET_COLOR, Put c, Esc RESET] @ expr @ [Esc BRACKET_COLOR, Put e, Esc RESET]"
    using assms by (auto simp: print_memory_operand_def)
  show ?thesis using put_until_text[OF r(1)] print_expression_text[OF r(3)] r by simp
qed

lemma print_operand_text:
  assumes "print_operand op i s = Inr (out, i', s')"
  shows "s = plain out @ s' \<and> i' = i + length (plain out) \<and>
    (1 \<le> count_list (plain out) (CHR '','') \<or> 160 \<le> i + length (plain out) \<and> 160 < i + length s)"
proof -
  define r where "r = (case op of
      X86_OP_INVALID \<Rightarrow> Inr ([Esc WHT], i, s) | X86_OP_REG \<Rightarrow> Inr ([Esc REG_COLOR], i, s)
    | X86_OP_IMM \<Rightarrow> Inr ([Esc IMM_COLOR], i, s) | X86_OP_MEM \<Rightarrow> print_memory_operand i s)"
  obtain start i1 s1 out1 i2 s2 c s3 where o: "r = Inr (start, i1, s1)"
    "put_until (CHR '','') i1 s1 = Inr (out1, i2, s2)" "s2 = c # s3"
    "(out, i', s') = (if c = CHR '','' then (start @ out1 @ [Esc RESET, Put c], Suc i2, s3)
        else (start @ out1 @ [Esc RESET], i2, s2))"
    using assms by (auto simp: print_operand_def r_def)
  have 1: "s = plain start @ s1 \<and> i1 = i + length (plain start)"
    using o(1) print_memory_operand_text by (cases op) (auto simp: r_def)
  have 2: "s1 = plain out1 @ s2" "i2 = i1 + length (plain out1)" "hd s2 = CHR '','' \<or> 160 \<le> i2"
    using put_until_text[OF o(2)] by blast+
  show ?thesis
  proof (cases "c = CHR '',''")
    case True
    then show ?thesis using o 1 2 by simp
  next
    case False
    then have "160 \<le> i2" using 2(3) o(3) by simp
    then show ?thesis using o 1 2 False by simp
  qed
qed

lemma print_operands_text:
  "print_operands ops i s = Inr out \<Longrightarrow> \<exists>s'. s = plain out @ s' \<and>
    (length ops \<le> count_list (plain out) (CHR '','') \<or> 160 \<le> i + length (plain out) \<and> 160 < i + length s)"
proof (induction ops arbitrary: i s out)
  case (Cons op ops)
  obtain out1 i1 s1 outs where o: "print_operand op i s = Inr (out1, i1, s1)"
    "print_operands ops i1 s1 = Inr outs" "out = out1 @ outs"
    using Cons.prems by auto
  from Cons.IH[OF o(2)] obtain s' where IH: "s1 = plain outs @ s'"
    "length ops \<le> count_list (plain outs) (CHR '','') \<or> 160 \<le> i1 + length (plain outs) \<and> 160 < i1 + length s1"
    by blast
  from print_operand_text[OF o(1)] IH o(3) show ?case by (auto simp: count_list_append)
qed simp

text \<open>A single operand without a comma and without a memory reference.\<close>

lemma put_until_all:
  "stop \<notin> set s \<Longrightarrow> i \<le> 160 \<Longrightarrow> 160 < i + length s \<Longrightarrow>
     put_until stop i s = Inr (map Put (take (160 - i) s), 160, drop (160 - i) s)"
proof (induction stop i s rule: put_until.induct)
  case (2 stop i c cs)
  show ?case
  proof (cases "i < 160")
    case True
    then have d: "160 - i = Suc (160 - Suc i)" by simp
    show ?thesis using 2 True unfolding d by auto
  qed (use 2 in simp)
qed simp

lemma print_one_operand:
  assumes "CHR '','' \<notin> set s" "160 < length s" "op = X86_OP_REG \<or> op = X86_OP_IMM"
  shows "print_oprand_string s [op] 1 =
    Inr (Esc (if op = X86_OP_REG then REG_COLOR else IMM_COLOR) # map Put (take 160 s) @ [Esc RESET])"
proof -
  obtain c cs where d: "drop 160 s = c # cs" using assms(2) by (cases "drop 160 s") auto
  then have "c \<in> set s" using in_set_dropD[of c 160 s] by simp
  then have "c \<noteq> CHR '',''" using assms(1) by blast
  then show ?thesis
    using assms(3) put_until_all[OF assms(1), of 0] assms(2) d
    by (elim disjE) (simp_all add: print_oprand_string_def print_operand_def next_char_def del: res_bind_eq_Inr next_char_eq)
qed

section \<open>The names of called functions\<close>

definition name_pairs :: "func_entry list \<Rightarrow> (u64 \<times> string) list" where
  "name_pairs funcs = map (\<lambda>f. (fe_addr f, fe_name f)) funcs"

definition target_of :: "cs_insn \<Rightarrow> u64 option" where
  "target_of i = (case in_detail i of None \<Rightarrow> None | Some (ops, _) \<Rightarrow> call_target i ops)"

lemma name_loop_names:
  assumes "map_ok m"
  shows "\<exists>m'. name_loop funcs a (n, m) =
      Inr (case map_of (rev (name_pairs funcs)) a of None \<Rightarrow> n | Some x \<Rightarrow> Some x, m') \<and> map_ok m' \<and>
    map_abs m' = (map_abs m)(a := (case map_abs m a of None \<Rightarrow> map_of (name_pairs funcs) a | Some x \<Rightarrow> Some x))"
  using assms
proof (induction funcs arbitrary: n m)
  case Nil
  then show ?case by (auto simp: name_pairs_def fun_eq_iff split: option.splits)
next
  case (Cons f fs)
  show ?case
  proof (cases "a = fe_addr f")
    case True
    obtain m1 where m1: "map_insert m a (Some (fe_name f)) = Inr (map_abs m a = None, m1)" "map_ok m1"
      "map_abs m1 = (if map_abs m a = None then (map_abs m)(a \<mapsto> fe_name f) else map_abs m)"
      using hm.insert_any[OF Cons.prems, of a "fe_name f"] by blast
    obtain m' where m': "name_loop fs a (Some (fe_name f), m1) =
        Inr (case map_of (rev (name_pairs fs)) a of None \<Rightarrow> Some (fe_name f) | Some x \<Rightarrow> Some x, m')" "map_ok m'"
      "map_abs m' = (map_abs m1)(a := (case map_abs m1 a of None \<Rightarrow> map_of (name_pairs fs) a | Some x \<Rightarrow> Some x))"
      using Cons.IH[OF m1(2)] by blast
    have r: "name_loop (f # fs) a (n, m) = Inr (case map_of (rev (name_pairs (f # fs))) a of None \<Rightarrow> n | Some x \<Rightarrow> Some x, m')"
      using True m1(1) m'(1) by (simp add: name_pairs_def map_add_def split: option.splits)
    have "map_abs m' = (map_abs m)(a := (case map_abs m a of None \<Rightarrow> map_of (name_pairs (f # fs)) a | Some x \<Rightarrow> Some x))"
    proof
      fix b
      show "map_abs m' b = ((map_abs m)(a := (case map_abs m a of None \<Rightarrow> map_of (name_pairs (f # fs)) a | Some x \<Rightarrow> Some x))) b"
        using True m'(3) m1(3) by (cases "map_abs m a"; cases "b = a") (simp_all add: name_pairs_def)
    qed
    then show ?thesis using r m'(2) by blast
  next
    case False
    then have eqs: "map_of (name_pairs (f # fs)) a = map_of (name_pairs fs) a"
      "map_of (rev (name_pairs (f # fs))) a = map_of (rev (name_pairs fs)) a"
      "name_loop (f # fs) a (n, m) = name_loop fs a (n, m)"
      by (simp_all add: name_pairs_def map_add_def split: option.splits)
    show ?thesis unfolding eqs by (rule Cons.IH[OF Cons.prems])
  qed
qed

definition target_name :: "func_entry list \<Rightarrow> u64 set \<Rightarrow> u64 option \<Rightarrow> string option" where
  "target_name funcs seen target =
     (case target of None \<Rightarrow> None
      | Some a \<Rightarrow> if a \<in> seen then map_of (name_pairs funcs) a else map_of (rev (name_pairs funcs)) a)"

definition seen_names :: "func_entry list \<Rightarrow> u64 set \<Rightarrow> u64 \<Rightarrow> string option" where
  "seen_names funcs seen a = (if a \<in> seen then map_of (name_pairs funcs) a else None)"

lemma map_of_rev_None: "map_of xs a = None \<Longrightarrow> map_of (rev xs) a = None"
  by (simp add: map_of_eq_None_iff)

lemma call_name_seen:
  assumes ok: "map_ok m" and abs: "map_abs m = seen_names funcs seen"
  shows "\<exists>m'. call_name funcs target m = Inr (target_name funcs seen target, m') \<and> map_ok m' \<and>
    map_abs m' = seen_names funcs (seen \<union> set_option target)"
proof (cases target)
  case None
  then show ?thesis using ok abs by (simp add: call_name_def target_name_def)
next
  case (Some a)
  show ?thesis
  proof (cases "seen_names funcs seen a")
    case (Some v)
    then show ?thesis
      using ok abs \<open>target = Some a\<close>
      by (auto simp: call_name_def target_name_def hm.lookup_law[OF ok] seen_names_def insert_absorb split: if_splits)
  next
    case None
    obtain m' where m': "name_loop funcs a (None, m) =
        Inr (case map_of (rev (name_pairs funcs)) a of None \<Rightarrow> None | Some x \<Rightarrow> Some x, m')" "map_ok m'"
      "map_abs m' = (map_abs m)(a := (case map_abs m a of None \<Rightarrow> map_of (name_pairs funcs) a | Some x \<Rightarrow> Some x))"
      using name_loop_names[OF ok] by blast
    have "call_name funcs target m = Inr (map_of (rev (name_pairs funcs)) a, m')"
      using m'(1) Some None by (simp add: call_name_def hm.lookup_law[OF ok] abs split: option.splits)
    moreover have "target_name funcs seen target = map_of (rev (name_pairs funcs)) a"
      using None Some map_of_rev_None[of "name_pairs funcs" a] by (auto simp: target_name_def seen_names_def)
    moreover have "map_abs m' = seen_names funcs (seen \<union> set_option target)"
      using m'(3) None Some abs by (auto simp: seen_names_def fun_eq_iff)
    ultimately show ?thesis using m'(2) by simp
  qed
qed

lemma instruction_rows_names:
  assumes "map_ok m" "map_abs m = seen_names funcs seen"
    and "instruction_rows is mx la pc funcs m = Inr rows"
  shows "length rows = length is \<and> (\<forall>i < length is. dr_name (rows ! i) =
    target_name funcs (seen \<union> {a. Some a \<in> target_of ` set (take i is)}) (target_of (is ! i)))"
  using assms
proof (induction "is" arbitrary: m seen rows)
  case (Cons insn "is")
  obtain ops n where det: "in_detail insn = Some (ops, n)"
    using Cons.prems(3) by (auto split: option.splits)
  then have tgt: "target_of insn = call_target insn ops" by (simp add: target_of_def)
  obtain m' where c: "call_name funcs (call_target insn ops) m = Inr (target_name funcs seen (target_of insn), m')"
    "map_ok m'" "map_abs m' = seen_names funcs (seen \<union> set_option (target_of insn))"
    using call_name_seen[OF Cons.prems(1,2), of "target_of insn"] tgt by auto
  obtain line rs where r: "instruction_rows is mx la pc funcs m' = Inr rs"
    "rows = \<lparr>dr_line = line, dr_name = target_name funcs seen (target_of insn)\<rparr> # rs"
    using Cons.prems(3) det c(1) by auto
  note IH = Cons.IH[OF c(2,3) r(1)]
  have "dr_name (rows ! i) = target_name funcs (seen \<union> {a. Some a \<in> target_of ` set (take i (insn # is))})
      (target_of ((insn # is) ! i))" if "i < Suc (length is)" for i
  proof (cases i)
    case (Suc j)
    have "seen \<union> set_option (target_of insn) \<union> {a. Some a \<in> target_of ` set (take j is)} =
        seen \<union> {a. Some a \<in> target_of ` set (take i (insn # is))}"
      using Suc by (cases "target_of insn") auto
    then show ?thesis using IH that r(2) Suc by simp
  qed (simp add: r(2))
  then show ?case using IH r(2) by simp
qed simp

section \<open>Properties\<close>

text \<open>
  C36: apart from the colours, the operands are printed exactly as capstone wrote them, from
  the first character on; and unless a comma follows each of them, the loop prints all 160
  bytes of the array and then reads the byte behind it.
\<close>

theorem operand_colouring_keeps_text:
  assumes "print_oprand_string op_str operands op_count = Inr out"
  shows "(\<exists>k. plain out = take k op_str) \<and>
    (op_count \<le> count_list (plain out) (CHR '','') \<or> 160 \<le> length (plain out) \<and> 160 < length op_str)"
proof -
  have n: "op_count \<le> length operands" and r: "print_operands (take op_count operands) 0 op_str = Inr out"
    using assms by (simp_all add: print_oprand_string_def split: if_splits)
  obtain s' where s': "op_str = plain out @ s'"
    "length (take op_count operands) \<le> count_list (plain out) (CHR '','') \<or>
      160 \<le> 0 + length (plain out) \<and> 160 < 0 + length op_str"
    using print_operands_text[OF r] by blast
  have "plain out = take (length (plain out)) op_str" using s'(1) by simp
  then show ?thesis using s'(2) n by (metis add_0 length_take min.absorb2)
qed

theorem operand_colouring_keeps_text_witness:
  "(\<exists>out. print_oprand_string (''rax'' @ replicate 158 (CHR 0x00)) [X86_OP_REG] 1 = Inr out \<and>
      160 \<le> length (plain out)) \<and>
   (\<forall>out. print_oprand_string (''rax'' @ replicate 157 (CHR 0x00)) [X86_OP_REG] 1 \<noteq> Inr out)"
proof
  have none: "CHR '','' \<notin> set (''rax'' @ replicate n (CHR 0x00))" for n by (simp add: set_replicate_conv_if)
  let ?s = "''rax'' @ replicate 158 (CHR 0x00)"
  obtain out where out: "print_oprand_string ?s [X86_OP_REG] 1 = Inr out"
    using print_one_operand[OF none, of 158 X86_OP_REG] by auto
  obtain k where k: "plain out = take k ?s" "1 \<le> count_list (plain out) (CHR '','') \<or> 160 \<le> length (plain out)"
    using operand_colouring_keeps_text[OF out] by blast
  have "CHR '','' \<notin> set (plain out)" unfolding k(1) using none[of 158] by (meson in_set_takeD)
  then have "count_list (plain out) (CHR '','') = 0" by (simp add: count_list_0_iff)
  then show "\<exists>out. print_oprand_string ?s [X86_OP_REG] 1 = Inr out \<and> 160 \<le> length (plain out)"
    using out k(2) by auto
  let ?t = "''rax'' @ replicate 157 (CHR 0x00)"
  show "\<forall>out. print_oprand_string ?t [X86_OP_REG] 1 \<noteq> Inr out"
  proof (intro allI notI)
    fix out assume "print_oprand_string ?t [X86_OP_REG] 1 = Inr out"
    then obtain k where k: "plain out = take k ?t" "1 \<le> count_list (plain out) (CHR '','')"
      using operand_colouring_keeps_text by fastforce
    have "CHR '','' \<in> set (plain out)" using k(2) by (metis count_list_0_iff not_one_le_zero)
    then have "CHR '','' \<in> set ?t" unfolding k(1) by (meson in_set_takeD)
    then show False using none[of 157] by blast
  qed
qed

text \<open>
  C35: a row has a name exactly when it calls an address of the function table. The first
  call of an address is shown with the last name the table has for it, every later one with
  the first, because only the first insertion into the map counts; with one name for each
  address these are the same.
\<close>

theorem call_names_from_function_table:
  assumes "print_instruction_disas instructions load_address pc funcs = Inr rows"
    and "funcs \<noteq> []" "length funcs < 2 ^ 32 - 1"
  shows "length rows = length instructions \<and> (\<forall>i < length instructions. dr_name (rows ! i) =
    (case target_of (instructions ! i) of
       None \<Rightarrow> None
     | Some a \<Rightarrow> if Some a \<in> target_of ` set (take i instructions)
                 then map_of (name_pairs funcs) a else map_of (rev (name_pairs funcs)) a))"
proof -
  have "of_nat (length funcs) \<noteq> (0 :: u32)" "of_nat (length funcs) \<noteq> (- 1 :: u32)"
  proof -
    have u: "unat (of_nat (length funcs) :: u32) = length funcs"
      using assms(3) by (simp add: unat_of_nat take_bit_nat_eq_self_iff)
    show "of_nat (length funcs) \<noteq> (0 :: u32)" using u assms(2) by auto
    have "unat (- 1 :: u32) = 2 ^ 32 - 1" by (simp add: unsigned_minus_1_eq_mask mask_eq_exp_minus_1)
    then show "of_nat (length funcs) \<noteq> (- 1 :: u32)" using u assms(3) by (metis less_irrefl)
  qed
  from map_init_wf[OF this, where ?'a = string] obtain ht :: "string umap" where
    ht: "map_init (of_nat (length funcs)) = Inr (Some ht)" "wf_umap ht" "umap_abs ht = (\<lambda>_. None)" by blast
  have "map_ok (Some ht)" "map_abs (Some ht) = seen_names funcs {}"
    using ht by (simp_all add: map_ok_def map_abs_def seen_names_def fun_eq_iff)
  from instruction_rows_names[OF this] assms(1) ht(1)
  have "length rows = length instructions \<and> (\<forall>i < length instructions. dr_name (rows ! i) =
      target_name funcs {a. Some a \<in> target_of ` set (take i instructions)} (target_of (instructions ! i)))"
    by (simp add: print_instruction_disas_def)
  then show ?thesis unfolding target_name_def mem_Collect_eq .
qed

definition demo_call :: cs_insn where
  "demo_call = \<lparr>in_address = 0x1040, in_size = 5, in_bytes = replicate 24 0x90, in_mnemonic = ''call'',
     in_op_str = ''0x1139'' @ replicate 155 (CHR 0x00), in_detail = Some ([X86_OP_IMM], 1)\<rparr>"

theorem call_names_from_function_table_witness:
  "\<exists>rows. print_instruction_disas [demo_call, demo_call] 0 0x1040
      [\<lparr>fe_name = ''a'', fe_addr = 0x1139, fe_size = 8\<rparr>, \<lparr>fe_name = ''b'', fe_addr = 0x1139, fe_size = 8\<rparr>] = Inr rows \<and>
    map dr_name rows = [Some ''b'', Some ''a'']"
proof -
  define fs where "fs = [\<lparr>fe_name = ''a'', fe_addr = 0x1139, fe_size = 8\<rparr>, \<lparr>fe_name = ''b'', fe_addr = 0x1139, fe_size = 8\<rparr>]"
  have fs_len: "length fs = 2" "fs \<noteq> []" by (simp_all add: fs_def)
  obtain m :: "string umap option" where m: "map_init 2 = Inr m" "map_ok m" "map_abs m = seen_names fs {}"
    using map_init_wf[of 2, where ?'a = string] by (auto simp: map_ok_def map_abs_def seen_names_def fun_eq_iff)
  obtain out where "print_oprand_string (in_op_str demo_call) [X86_OP_IMM] 1 = Inr out"
    using print_one_operand[of "in_op_str demo_call" X86_OP_IMM] by (auto simp: demo_call_def set_replicate_conv_if)
  then obtain line where line: "instruction_line demo_call [X86_OP_IMM] 1 5 0 0x1040 = Inr line"
    by (simp add: instruction_line_def print_bytes_def) (simp add: demo_call_def)
  have size: "in_size demo_call = 5" "in_detail demo_call = Some ([X86_OP_IMM], 1)" by (simp_all add: demo_call_def)
  obtain n1 m1 n2 m2 where "call_name fs (call_target demo_call [X86_OP_IMM]) m = Inr (n1, m1)"
    "call_name fs (call_target demo_call [X86_OP_IMM]) m1 = Inr (n2, m2)"
    using call_name_seen[OF m(2,3)] call_name_seen by blast
  note c = this
  have "instruction_rows [demo_call] 5 0 0x1040 fs m1 = Inr [\<lparr>dr_line = line, dr_name = n2\<rparr>]"
    by (simp only: instruction_rows.simps size option.case prod.case line c res_bind_Inr)
  then have "instruction_rows [demo_call, demo_call] 5 0 0x1040 fs m =
      Inr [\<lparr>dr_line = line, dr_name = n1\<rparr>, \<lparr>dr_line = line, dr_name = n2\<rparr>]"
    by (simp only: instruction_rows.simps(2)[of demo_call "[demo_call]"] size option.case prod.case line c res_bind_Inr)
  moreover have "of_nat (length fs) = (2 :: u32)" "foldl (\<lambda>n i. max n (in_size i)) 0 [demo_call, demo_call] = 5"
    by (simp_all add: fs_len size)
  ultimately obtain rows where r: "print_instruction_disas [demo_call, demo_call] 0 0x1040 fs = Inr rows"
    unfolding print_instruction_disas_def by (simp only: m(1) res_bind_Inr)
  have "scan_number 16 ''0x1139'' = Some (False, 0x1139, [])" by code_simp
  then have "strtoul 16 ''0x1139'' = 0x1139" by (simp add: strtoul_def)
  moreover have "c_string (in_op_str demo_call) = ''0x1139''" by (simp add: c_string_def demo_call_def)
  ultimately have "call_target demo_call [X86_OP_IMM] = Some 0x1139" by (simp add: call_target_def) (simp add: demo_call_def)
  then have t: "target_of demo_call = Some 0x1139" by (simp add: target_of_def size)
  have p: "map_of (name_pairs fs) 0x1139 = Some ''a''" "map_of (rev (name_pairs fs)) 0x1139 = Some ''b''"
    by (simp_all add: name_pairs_def fs_def)
  have h: "length rows = 2 \<and> (\<forall>i < 2. dr_name (rows ! i) = (case target_of ([demo_call, demo_call] ! i) of
       None \<Rightarrow> None
     | Some a \<Rightarrow> if Some a \<in> target_of ` set (take i [demo_call, demo_call])
                 then map_of (name_pairs fs) a else map_of (rev (name_pairs fs)) a))"
    using call_names_from_function_table[OF r] fs_len by simp
  have "dr_name (rows ! 0) = Some ''b''"
    using h[THEN conjunct2, rule_format, of 0] by (simp add: t p(2))
  moreover have "dr_name (rows ! 1) = Some ''a''"
    using h[THEN conjunct2, rule_format, of 1] by (simp add: t p(1))
  moreover obtain x y where "rows = [x, y]"
    using conjunct1[OF h] by (auto simp: numeral_2_eq_2 length_Suc_conv)
  ultimately have "map dr_name rows = [Some ''b'', Some ''a'']" by simp
  with r show ?thesis unfolding fs_def by (intro exI[of _ rows] conjI)
qed

end
