(* ===== verification/Stepping.thy ===== *)
theory Stepping
  imports Debugger_Life
begin

text \<open>
  The rest of \<open>src/stepping.c\<close>: stepping by instruction, into and over lines, out of a
  function, and the backtrace. Loops whose length the debugged program decides take fuel;
  \<open>None\<close> says that it ran out.
\<close>

section \<open>Instructions\<close>

definition single_step_instruction_with_breakpoint_check :: "system \<Rightarrow> debugger \<Rightarrow> debugger res" where
  "single_step_instruction_with_breakpoint_check S d =
     res_bind (get_pc (w_tracee d) (dbg_get_pid d)) (\<lambda>pc.
     res_bind (map_lookup (db_bp_locations d) pc) (\<lambda>loc.
       if loc \<noteq> None then execute_step_over_loc S loc d else single_step_instruction S d))"

section \<open>Out of a function\<close>

text \<open>The return address above the saved frame pointer.\<close>

definition return_address :: "debugger \<Rightarrow> u64 res" where
  "return_address d =
     res_bind (get_register_value RBP (w_tracee d) (dbg_get_pid d)) (\<lambda>frame_pointer.
       Inr (read_memory (w_tracee d) (dbg_get_pid d) (frame_pointer + 8)))"

definition step_out :: "system \<Rightarrow> debugger \<Rightarrow> debugger res" where
  "step_out S d =
     res_bind (return_address d) (\<lambda>ra.
     res_bind (set_temp_bp_location ra d) (\<lambda>(should_remove_breakpoint, d1).
     res_bind (continue_execution S d1) (\<lambda>d2.
       if should_remove_breakpoint then unset_temp_bp_location ra d2 else Inr d2)))"

section \<open>Into the next line\<close>

definition line_no :: "line_info option \<Rightarrow> int" where
  "line_no info = (case info of None \<Rightarrow> 0 | Some li \<Rightarrow> li_line li)"

text \<open>The loop of \<open>step_in\<close>; \<open>file\<close> keeps its value when there is no line.\<close>

fun step_in_loop :: "system \<Rightarrow> nat \<Rightarrow> int \<Rightarrow> string \<Rightarrow> debugger \<Rightarrow> (int \<times> string \<times> debugger) option res" where
  "step_in_loop S 0 line file d = Inr None"
| "step_in_loop S (Suc fuel) line file d =
     res_bind (get_pc (w_tracee d) (dbg_get_pid d)) (\<lambda>pc.
     res_bind (get_line_from_pc (sys_files S) (dbg_get_symbols d) pc) (\<lambda>info.
       let next_line = line_no info;
           file' = (case info of None \<Rightarrow> file | Some li \<Rightarrow> li_file li)
       in if next_line = line
          then res_bind (single_step_instruction_with_breakpoint_check S d) (step_in_loop S fuel line file')
          else Inr (Some (next_line, file', d))))"

definition step_in :: "system \<Rightarrow> nat \<Rightarrow> debugger \<Rightarrow> debugger option res" where
  "step_in S fuel d =
     res_bind (get_pc (w_tracee d) (dbg_get_pid d)) (\<lambda>pc.
     res_bind (get_line_from_pc (sys_files S) (dbg_get_symbols d) pc) (\<lambda>info.
       if line_no info = 0 then Inr (Some (say (Out_Text ''Can't do this!'') d))
       else case info of
              None \<Rightarrow> Inr (Some d)
            | Some li \<Rightarrow>
                res_bind (step_in_loop S fuel (li_line li) (li_file li) d) (\<lambda>r.
                  case r of
                    None \<Rightarrow> Inr None
                  | Some (next_line, file, d1) \<Rightarrow>
                      res_bind (if has_dwarf_symbols (dbg_get_symbols d1)
                                then print_source (hf_bytes (sys_files S) file) (word_of_int next_line) 3
                                else Inr None) (\<lambda>items.
                        Inr (Some (case print_src_file_outdated_warning (li_is_old li) items of
                                     None \<Rightarrow> d1 | Some is \<Rightarrow> say (Out_Source is) d1))))))"

section \<open>Over the next line\<close>

lemma next_addr_closer:
  fixes p e :: u64
  assumes "p < e"
  shows "unat e - unat (p + 1) < unat e - unat p"
proof -
  have "p \<noteq> - 1" using assms word_n1_ge[of e] by auto
  then have "1 + p \<noteq> 0" by (simp add: eq_neg_iff_add_eq_0 add.commute)
  then have "unat (p + 1) = Suc (unat p)" using unatSuc[of p] by (simp add: add.commute)
  moreover have "unat p < unat e" using assms by (simp add: word_less_nat_alt)
  ultimately show ?thesis by simp
qed

text \<open>
  The loop of \<open>step_over\<close> from \<open>pc\<close> to the end of the function: a temporary location at
  every address where the line changes. \<open>dwfl_lineinfo\<close> stores nothing for an address
  without a line, so \<open>line\<close> keeps its value there. The array of addresses to delete is grown
  before it is full.
\<close>

function set_line_breakpoints ::
    "dwarf_info \<Rightarrow> int \<Rightarrow> u64 \<Rightarrow> u64 \<Rightarrow> int \<Rightarrow> int \<Rightarrow> u64 list \<Rightarrow> debugger \<Rightarrow> (u64 list \<times> debugger) res" where
  "set_line_breakpoints dw pid func_end pc line current_line to_delete d =
     (if pc < func_end
      then let line' = (case dw_getsrc dw pid pc of None \<Rightarrow> line | Some src \<Rightarrow> sl_line src)
           in if line' \<noteq> current_line
              then res_bind (set_temp_bp_location pc d) (\<lambda>(ok, d1).
                     set_line_breakpoints dw pid func_end (pc + 1) line' line'
                       (if ok then to_delete @ [pc] else to_delete) d1)
              else set_line_breakpoints dw pid func_end (pc + 1) line' current_line to_delete d
      else Inr (to_delete, d))"
  by pat_completeness auto
termination
  by (relation "measure (\<lambda>(dw, pid, func_end, pc, r). unat func_end - unat pc)")
    (auto simp: next_addr_closer)

declare set_line_breakpoints.simps [simp del]

text \<open>The return address of any function but \<open>main\<close> gets one, too.\<close>

definition set_return_breakpoint :: "string \<Rightarrow> u64 list \<Rightarrow> debugger \<Rightarrow> (u64 list \<times> debugger) res" where
  "set_return_breakpoint func_name to_delete d =
     (if func_name = ''main'' then Inr (to_delete, d)
      else res_bind (return_address d) (\<lambda>ra.
           res_bind (set_temp_bp_location ra d) (\<lambda>(ok, d1).
             Inr (if ok then to_delete @ [ra] else to_delete, d1))))"

text \<open>
  \<open>step_over\<close> up to the call of \<open>continue_execution\<close>: the addresses at which it has set a
  temporary location. \<open>None\<close>: it has given up with a message.
\<close>

definition step_over_targets :: "system \<Rightarrow> debugger \<Rightarrow> (u64 list \<times> debugger) option res" where
  "step_over_targets S d =
     (let syms = dbg_get_symbols d
      in res_bind (get_pc (w_tracee d) (dbg_get_pid d)) (\<lambda>pc.
         res_bind (get_func_die_from_pc syms pc (dbg_get_load_address d)) (\<lambda>die.
           case (case die of None \<Rightarrow> None | Some func_die \<Rightarrow> map_option (Pair func_die) (fd_name func_die)) of
             None \<Rightarrow> Inr None
           | Some (func_die, func_name) \<Rightarrow>
               (case fd_highpc func_die of
                  None \<Rightarrow> Inl UninitRead
                | Some high \<Rightarrow>
                    res_bind (dwfl_addrmodule syms pc) (\<lambda>pid.
                      case dw_getsrc (sy_dwarf syms) pid pc of
                        None \<Rightarrow> Inl Aborted
                      | Some src \<Rightarrow>
                          res_bind (c_assert (sl_line src \<noteq> 0) d) (\<lambda>d.
                          res_bind (set_line_breakpoints (sy_dwarf syms) pid (high + dbg_get_load_address d) pc 0
                                      (sl_line src) [] d) (\<lambda>(to_delete, d1).
                          res_bind (set_return_breakpoint func_name to_delete d1) (\<lambda>r. Inr (Some r)))))))))"

definition step_over :: "system \<Rightarrow> debugger \<Rightarrow> debugger res" where
  "step_over S d =
     res_bind (step_over_targets S d) (\<lambda>targets.
       case targets of
         None \<Rightarrow> Inr (say (Out_Text ''can't perform this!'') d)
       | Some (to_delete, d1) \<Rightarrow>
           res_bind (continue_execution S d1) (res_fold unset_temp_bp_location to_delete))"

section \<open>The backtrace\<close>

text \<open>
  The common prefix of the path of the file and of the compilation directory is cut off; two
  equal strings are compared past their terminators.
\<close>

fun relative_path :: "string \<Rightarrow> string \<Rightarrow> string res" where
  "relative_path [] [] = Inl OutOfBounds"
| "relative_path [] (d # ds) = Inr []"
| "relative_path (c # cs) [] = Inr (c # cs)"
| "relative_path (c # cs) (d # ds) = (if c = d then relative_path cs ds else Inr (c # cs))"

definition drop_slash :: "string \<Rightarrow> string" where
  "drop_slash s = (if s \<noteq> [] \<and> hd s = CHR ''/'' then tl s else s)"

text \<open>
  \<open>print_frame\<close> gives the name of the function, \<open>None\<close> after its message. Without a line for
  the address nothing is stored in \<open>compilation_dir\<close>, which is then read.
\<close>

definition print_frame :: "system \<Rightarrow> u64 \<Rightarrow> bool \<Rightarrow> debugger \<Rightarrow> (string option \<times> debugger) res" where
  "print_frame S pc is_first d =
     (let syms = dbg_get_symbols d; load_address = dbg_get_load_address d
      in res_bind (get_func_die_from_pc syms pc load_address) (\<lambda>die.
         case (case die of None \<Rightarrow> None | Some func_die \<Rightarrow> map_option (Pair func_die) (fd_name func_die)) of
           None \<Rightarrow> Inr (None, say (Out_Text ''something is wrong!'') d)
         | Some (func_die, func_name) \<Rightarrow>
             res_bind
               (if \<not> is_first then Inr (pc, d)
                else case fd_lowpc func_die of
                       None \<Rightarrow> Inl UninitRead
                     | Some func_start \<Rightarrow>
                         res_bind
                           (if func_start = pc - load_address
                            then res_bind (set_temp_bp_location (pc + 4) d) (\<lambda>(to_delete_temp_bp, d1).
                                 res_bind (continue_execution S d1) (\<lambda>d2.
                                 res_bind (if to_delete_temp_bp then unset_temp_bp_location (pc + 4) d2 else Inr d2) (\<lambda>d3.
                                 res_bind (get_pc (w_tracee d3) (dbg_get_pid d)) (\<lambda>new_pc.
                                 res_bind (c_assert (new_pc = pc + 4) d3) (\<lambda>d3. Inr (new_pc, d3))))))
                            else Inr (pc, d)) (\<lambda>(pc', d').
                         res_bind (c_assert (func_start \<noteq> pc' - load_address) d') (\<lambda>d'. Inr (pc', d')))) (\<lambda>(pc', d').
             res_bind (get_line_from_pc (sys_files S) syms pc') (\<lambda>info.
               case info of
                 None \<Rightarrow> Inl UninitRead
               | Some li \<Rightarrow>
                   res_bind (case li_comp_dir li of
                               None \<Rightarrow> Inr (li_file li)
                             | Some dir \<Rightarrow> res_bind (relative_path (li_file li) dir) (\<lambda>rel. Inr (drop_slash rel))) (\<lambda>filename.
                   let d2 = (if is_first \<and> li_is_old li then say (Out_Source [Outdated]) d' else d')
                   in Inr (Some func_name, say (Out_Frame pc' func_name filename (li_line li)) d2))))))"

text \<open>
  The loop over the frames: \<open>func_name\<close> is that of the frame just printed.
\<close>

fun backtrace_loop :: "system \<Rightarrow> nat \<Rightarrow> string \<Rightarrow> u64 \<Rightarrow> u64 \<Rightarrow> debugger \<Rightarrow> debugger option res" where
  "backtrace_loop S 0 func_name frame_pointer ra d = Inr None"
| "backtrace_loop S (Suc fuel) func_name frame_pointer ra d =
     (if func_name = ''main'' then Inr (Some d)
      else res_bind (print_frame S ra False d) (\<lambda>(name, d1).
             case name of
               None \<Rightarrow> Inr (Some d1)
             | Some func_name' \<Rightarrow>
                 let frame_pointer' = read_memory (w_tracee d1) (dbg_get_pid d1) frame_pointer;
                     ra' = read_memory (w_tracee d1) (dbg_get_pid d1) (frame_pointer' + 8)
                 in backtrace_loop S fuel func_name' frame_pointer' ra' d1))"

definition print_backtrace :: "system \<Rightarrow> nat \<Rightarrow> debugger \<Rightarrow> debugger option res" where
  "print_backtrace S fuel d =
     (if \<not> has_dwarf_symbols (dbg_get_symbols d) then Inr (Some (say (Out_Text ''this function hasn't been implemented yet bro'') d))
      else res_bind (get_pc (w_tracee d) (dbg_get_pid d)) (\<lambda>pc.
           res_bind (print_frame S pc True d) (\<lambda>(name, d1).
             case name of
               None \<Rightarrow> Inr (Some d1)
             | Some func_name \<Rightarrow>
                 res_bind (get_register_value RBP (w_tracee d1) (dbg_get_pid d)) (\<lambda>frame_pointer.
                 let ra = read_memory (w_tracee d1) (dbg_get_pid d) (frame_pointer + 8)
                 in backtrace_loop S fuel func_name frame_pointer ra d1))))"

end
