(* ===== verification/Commands.thy ===== *)
theory Commands
  imports Stepping Disassemble
begin

text \<open>
  The command line of \<open>src/commands.c\<close>: the table of commands, their handlers, scripts, and
  the dispatch of an input line; then the prompt loop \<open>dbg_start\<close> of \<open>src/debugger.c\<close>.
  Commands that run as long as the debugged program or a script lets them take fuel, and
  \<open>None\<close> says that it ran out.
\<close>

section \<open>The table\<close>

datatype cmd_handler =
    H_arguments | H_break | H_backtrace | H_continue | H_clear | H_context | H_delete | H_disable
  | H_disassemble | H_exit | H_enable | H_finish | H_files | H_functions | H_help | H_header
  | H_list | H_ls | H_mem | H_next | H_plt | H_run | H_restart | H_reg | H_step | H_stepi
  | H_source | H_sections | H_symbols | H_vmmap

datatype arg_completer_fn =
    Complete_break | Complete_delete | Complete_disable | Complete_disassemble | Complete_enable
  | Complete_memory | Complete_register | Complete_source

record command_entry =
  ce_name :: string
  ce_handler :: cmd_handler
  ce_requires_running_pid :: bool
  ce_requires_dwarf_symbols :: bool
  ce_help_text :: string
  ce_completer :: "arg_completer_fn option"

definition commands :: "command_entry list" where
  "commands = map (\<lambda>(n, h, pid, dwarf, help, c). \<lparr>ce_name = n, ce_handler = h, ce_requires_running_pid = pid,
       ce_requires_dwarf_symbols = dwarf, ce_help_text = help, ce_completer = c\<rparr>)
    [(''arguments'', H_arguments, False, False, ''Pass arguments to the tracee'', None),
     (''break'', H_break, False, False, ''Set breakpoint'', Some Complete_break),
     (''backtrace'', H_backtrace, True, False, ''Pring backtrace'', None),
     (''continue'', H_continue, True, False, ''Resume execution'', None),
     (''clear'', H_clear, False, False, ''Clears the screen'', None),
     (''context'', H_context, True, True, ''Print the source code at the current instruction'', None),
     (''delete'', H_delete, False, False, ''Delete a bp or all if not specified'', Some Complete_delete),
     (''disable'', H_disable, False, False, ''Disable any breakpoint'', Some Complete_disable),
     (''disassemble'', H_disassemble, False, False, ''Print the disassembly'', Some Complete_disassemble),
     (''exit'', H_exit, False, False, ''Exit the debugger'', None),
     (''enable'', H_enable, False, False, ''Enable any breakpoint'', Some Complete_enable),
     (''finish'', H_finish, True, True, ''Skip the current function'', None),
     (''files'', H_files, False, False, ''List all the source files'', None),
     (''functions'', H_functions, False, False, ''List all the functions'', None),
     (''help'', H_help, False, False, ''Show this menu'', None),
     (''header'', H_header, False, False, ''Print ELF header'', None),
     (''list'', H_list, False, False, ''List all the breakpoints'', None),
     (''ls'', H_ls, False, False, ''List current directory'', None),
     (''memory'', H_mem, True, False, ''Manipulate memory at address'', Some Complete_memory),
     (''next'', H_next, True, True, ''Step over current instruction'', None),
     (''plt'', H_plt, False, False, ''Print the procedure linkage table'', None),
     (''run'', H_run, False, False, ''Start tracee'', None),
     (''restart'', H_restart, True, False, ''Restart tracee'', None),
     (''register'', H_reg, True, False, ''Manage CPU registers'', Some Complete_register),
     (''step'', H_step, True, True, ''Single step throught source code'', None),
     (''stepi'', H_stepi, True, False, ''Single step through instructions'', None),
     (''source'', H_source, False, False, ''Source your script'', Some Complete_source),
     (''sections'', H_sections, False, False, ''List all the matching section headers'', None),
     (''symbols'', H_symbols, False, False, ''List all the matching symbols'', None),
     (''vmmap'', H_vmmap, True, False, ''Print the virtual memory layout of program'', None)]"

text \<open>
  What surrounds the command line: the system, capstone, \<open>dwelf_elf_e_machine_string\<close>, the
  sorted entries of the current directory and the width of the terminal, if it is one.
\<close>

record cli =
  cli_system :: system
  cli_capstone :: capstone
  cli_machine_string :: "u16 \<Rightarrow> string"
  cli_dir :: "string list"
  cli_width :: "nat option"

text \<open>
  \<open>args[i]\<close> of the array that \<open>split\<close> returns: a null pointer behind the last word, and
  memory that nothing wrote behind that.
\<close>

definition arg :: "string list \<Rightarrow> nat \<Rightarrow> string option res" where
  "arg args i = (if i < length args then Inr (Some (args ! i))
     else if i = length args then Inr None else Inl UninitRead)"

section \<open>Handlers without arguments\<close>

definition cmd_help :: "debugger \<Rightarrow> debugger res" where
  "cmd_help d = Inr (say (Out_Help (map (\<lambda>c. (ce_name c, ce_help_text c)) commands)) d)"

definition cmd_ls :: "cli \<Rightarrow> debugger \<Rightarrow> debugger res" where
  "cmd_ls X d = res_bind (list_current_dir (cli_width X) (cli_dir X)) (\<lambda>rows. Inr (say (Out_Dir rows) d))"

definition cmd_clear :: "debugger \<Rightarrow> debugger res" where
  "cmd_clear d = Inr (say (Out_Text [CHR 0x1b, CHR ''['', CHR ''2'', CHR ''J'', CHR 0x1b, CHR ''['', CHR ''H'']) d)"

definition cmd_run :: "cli \<Rightarrow> debugger \<Rightarrow> debugger res" where
  "cmd_run X d = run (cli_system X) d"

definition cmd_restart :: "cli \<Rightarrow> debugger \<Rightarrow> debugger res" where
  "cmd_restart X d = restart (cli_system X) d"

definition cmd_continue :: "cli \<Rightarrow> debugger \<Rightarrow> debugger res" where
  "cmd_continue X d = continue_execution (cli_system X) d"

text \<open>The source around the program counter with \<open>lines_context\<close> lines on each side.\<close>

definition source_at_pc :: "cli \<Rightarrow> u32 \<Rightarrow> debugger \<Rightarrow> debugger res" where
  "source_at_pc X lines_context d =
     res_bind (get_pc (w_tracee d) (dbg_get_pid d)) (\<lambda>pc.
     res_bind (print_source_at_current_pc (sys_files (cli_system X)) (dbg_get_symbols d) pc lines_context) (\<lambda>out.
       Inr (case out of None \<Rightarrow> d | Some items \<Rightarrow> say (Out_Source items) d)))"

definition cmd_stepi :: "cli \<Rightarrow> debugger \<Rightarrow> debugger res" where
  "cmd_stepi X d =
     res_bind (single_step_instruction_with_breakpoint_check (cli_system X) d) (source_at_pc X 3)"

definition cmd_step :: "cli \<Rightarrow> nat \<Rightarrow> debugger \<Rightarrow> debugger option res" where
  "cmd_step X fuel d = step_in (cli_system X) fuel d"

definition cmd_finish :: "cli \<Rightarrow> debugger \<Rightarrow> debugger res" where
  "cmd_finish X d = step_out (cli_system X) d"

definition cmd_next :: "cli \<Rightarrow> debugger \<Rightarrow> debugger res" where
  "cmd_next X d = step_over (cli_system X) d"

definition cmd_header :: "cli \<Rightarrow> debugger \<Rightarrow> debugger res" where
  "cmd_header X d =
     res_bind (print_elf_header (cli_machine_string X) (ef_ehdr (sy_elf (dbg_get_symbols d)))) (\<lambda>rows.
       Inr (say (Out_Header rows) d))"

definition cmd_backtrace :: "cli \<Rightarrow> nat \<Rightarrow> debugger \<Rightarrow> debugger option res" where
  "cmd_backtrace X fuel d = print_backtrace (cli_system X) fuel d"

definition cmd_list :: "debugger \<Rightarrow> debugger res" where
  "cmd_list d =
     res_bind (print_breakpoint_list (dbg_get_pending_list d) d) (\<lambda>rows. Inr (say (Out_Breakpoints rows) d))"

definition cmd_files :: "debugger \<Rightarrow> debugger res" where
  "cmd_files d = Inr (fold (\<lambda>f. say (Out_Text f)) (get_source_files (dbg_get_symbols d)) d)"

definition cmd_exit :: "debugger \<Rightarrow> debugger res" where
  "cmd_exit d =
     res_bind (dbg_kill_tracee d) (\<lambda>(killed, d1).
       if killed then res_bind (dbg_free (say (Out_Text ''Exiting....'') d1)) (\<lambda>_. Inl (Exits 0))
       else Inr (say (Out_Text ''You told not to exit, so let's continue..'') d1))"

text \<open>\<open>print_memory_map\<close>: a map that cannot be opened only gives an error message.\<close>

definition cmd_vmmap :: "cli \<Rightarrow> debugger \<Rightarrow> debugger res" where
  "cmd_vmmap X d =
     Inr (case env_maps (sys_program (cli_system X)) (w_tracee d) of
            None \<Rightarrow> say (Out_Text ''open'') d | Some lines \<Rightarrow> say (Out_Maps lines) d)"

section \<open>Handlers with optional arguments\<close>

definition plt_row :: "string option \<Rightarrow> string option \<times> u64 \<Rightarrow> debugger \<Rightarrow> debugger res" where
  "plt_row func_name entry d =
     (case func_name of
        None \<Rightarrow> Inr (say (Out_Function (snd entry) (fst entry)) d)
      | Some f \<Rightarrow> res_bind (not_null (fst entry)) (\<lambda>name.
                    Inr (if strstr name f then say (Out_Function (snd entry) (Some name)) d else d)))"

definition cmd_plt :: "string list \<Rightarrow> debugger \<Rightarrow> debugger res" where
  "cmd_plt args d =
     res_bind (arg args 1) (\<lambda>func_name.
     res_bind (get_plt_entries (sy_elf (dbg_get_symbols d)) (sy_cache (dbg_get_symbols d))) (\<lambda>list.
       case list of
         None \<Rightarrow> Inr (say (Out_Text ''can't print plt'') d)
       | Some es \<Rightarrow>
           res_fold (plt_row func_name) es (if es = [] then say (Out_Text ''no plt entry found'') d else d)))"

definition cmd_arguments :: "string list \<Rightarrow> debugger \<Rightarrow> debugger res" where
  "cmd_arguments args d = add_arguments_for_tracee args d"

definition cmd_context :: "cli \<Rightarrow> string list \<Rightarrow> debugger \<Rightarrow> debugger res" where
  "cmd_context X args d =
     res_bind (arg args 1) (\<lambda>context.
       source_at_pc X (word_of_int (case context of None \<Rightarrow> 3 | Some c \<Rightarrow> atoi c)) d)"

definition cmd_sections :: "string list \<Rightarrow> debugger \<Rightarrow> debugger res" where
  "cmd_sections args d =
     res_bind (arg args 1) (\<lambda>name.
     res_bind (print_section_headers (sy_elf (dbg_get_symbols d)) name) (\<lambda>rows. Inr (say (Out_Sections rows) d)))"

definition cmd_symbols :: "string list \<Rightarrow> debugger \<Rightarrow> debugger res" where
  "cmd_symbols args d =
     res_bind (arg args 1) (\<lambda>name.
     res_bind (print_symbols_table (dbg_get_symbols d) name) (\<lambda>rows. Inr (say (Out_Symbols rows) d)))"

definition cmd_functions :: "string list \<Rightarrow> debugger \<Rightarrow> debugger res" where
  "cmd_functions args d =
     res_bind (arg args 1) (\<lambda>func_name.
       let funcs_list = get_valid_func_symbols (dbg_get_symbols d)
       in if funcs_list = [] then Inr (say (Out_Text ''no functions found! what's wrong with your executable'') d)
          else Inr (fold (\<lambda>f d.
                 if (case func_name of None \<Rightarrow> True | Some n \<Rightarrow> strstr (fe_name f) n)
                 then say (Out_Function (fe_addr f + dbg_get_load_address d) (Some (fe_name f))) d else d) funcs_list d))"

definition cmd_disassemble :: "cli \<Rightarrow> string list \<Rightarrow> debugger \<Rightarrow> debugger res" where
  "cmd_disassemble X args d =
     res_bind (arg args 1) (\<lambda>function_name.
       print_disassembly_of_function (cli_capstone X) (cli_system X) function_name d)"

section \<open>Breakpoints\<close>

text \<open>One argument of \<open>break\<close>; \<open>False\<close> is the early return.\<close>

definition is_hex_address :: "string \<Rightarrow> bool" where
  "is_hex_address a \<longleftrightarrow> take 2 a = ''0x''"

definition no_line_numbers :: "debugger \<Rightarrow> debugger" where
  "no_line_numbers d = say (Out_Text ''the executable doesn't contain dwarf symbols'')
     (say (Out_Text ''can't set breakpoint at line number'') d)"

definition break_arg :: "string \<Rightarrow> debugger \<Rightarrow> (bool \<times> debugger) res" where
  "break_arg a d =
     (if is_hex_address a
      then res_bind (set_breakpoint_at_addr (strtoul 16 a) False d) (\<lambda>d1. Inr (True, d1))
      else if is_number a then
        if \<not> has_dwarf_symbols (dbg_get_symbols d) then Inr (False, no_line_numbers d)
        else res_bind (set_breakpoint_at_lineno None (atoi a) d) (\<lambda>d1. Inr (True, d1))
      else case strchr a (CHR '':'') of
             Some (file, lineno) \<Rightarrow>
               if \<not> has_dwarf_symbols (dbg_get_symbols d) then Inr (False, no_line_numbers d)
               else res_bind (set_breakpoint_at_lineno (Some file) (atoi lineno) d) (\<lambda>d1. Inr (True, d1))
           | None \<Rightarrow> res_bind (set_breakpoint_at_func_symbol a d) (\<lambda>d1. Inr (True, d1)))"

fun break_args :: "string list \<Rightarrow> debugger \<Rightarrow> debugger res" where
  "break_args [] d = Inr d"
| "break_args (a # as) d =
     res_bind (break_arg a d) (\<lambda>(go_on, d1). if go_on then break_args as d1 else Inr d1)"

definition cmd_break :: "string list \<Rightarrow> debugger \<Rightarrow> debugger res" where
  "cmd_break args d =
     (if length args < 2 then Inr (say (Out_Text ''usage: break <address/symbol/file:lineno>'') d)
      else break_args (tl args) d)"

text \<open>
  \<open>parse_arg_bp\<close> on an argument that is not null: the breakpoint, and the argument as it is
  left: a \<open>:\<close> is overwritten with NUL.
\<close>

definition parse_arg_bp :: "string \<Rightarrow> debugger \<Rightarrow> (nat option \<times> string \<times> debugger) res" where
  "parse_arg_bp a d =
     (if is_number a
      then let i = strtoul 10 a
           in res_bind (get_breakpoint_by_id d i) (\<lambda>bp.
                Inr (bp, a, if bp = None then say (Out_Text (''no such bp found with id '' @ printf_lu i)) d else d))
      else if is_hex_address a
      then let addr = strtoul 16 a
           in if addr = - 1 \<or> addr = 0
              then Inr (None, a, say (Out_Text (''Invalid argument '' @ a)) d)
              else res_bind (find_breakpoint_from_pending (dbg_get_pending_list d) (Q_ADDR addr) d) (\<lambda>bp.
                     Inr (bp, a, if bp = None then say (Out_Text (''no such bp found with addr '' @ printf_alt_lx addr)) d else d))
      else case strchr a (CHR '':'') of
             Some (file, lineno) \<Rightarrow>
               if \<not> has_dwarf_symbols (dbg_get_symbols d)
               then Inr (None, a, say (Out_Text ''what are you doing with line numbers when the executable doesn't even contain dwarf symbols'') d)
               else if atoi lineno = 0
               then Inr (None, file, say (Out_Text (''Invalid argument '' @ file)) d)
               else res_bind (find_breakpoint_from_pending (dbg_get_pending_list d) (Q_LINENO file (atoi lineno)) d) (\<lambda>bp.
                      Inr (bp, file, if bp = None then say (Out_Text (''no such bp found with file '' @ file @ '' and line '' @ printf_d (atoi lineno))) d else d))
           | None \<Rightarrow>
               res_bind (find_breakpoint_from_pending (dbg_get_pending_list d) (Q_SYMBOL a) d) (\<lambda>bp.
                 Inr (bp, a, if bp = None then say (Out_Text (''no such bp found with symbol '' @ a)) d else d)))"

text \<open>The loop that \<open>delete\<close>, \<open>enable\<close> and \<open>disable\<close> share: look the breakpoint up and act on it.\<close>

definition bp_arg :: "(nat \<Rightarrow> debugger \<Rightarrow> debugger res) \<Rightarrow> string \<Rightarrow> string \<Rightarrow> debugger \<Rightarrow> debugger res" where
  "bp_arg act done a d =
     res_bind (parse_arg_bp a d) (\<lambda>(bp, a', d1).
       case bp of
         None \<Rightarrow> Inr d1
       | Some p \<Rightarrow> res_bind (act p d1) (\<lambda>d2. Inr (say (Out_Text (done @ '' bp: '' @ a')) d2)))"

definition cmd_delete :: "string list \<Rightarrow> debugger \<Rightarrow> debugger res" where
  "cmd_delete args d =
     (if length args < 2 then remove_all_breakpoints d
      else res_fold (bp_arg remove_breakpoint ''removed'') (tl args) d)"

definition cmd_enable :: "string list \<Rightarrow> debugger \<Rightarrow> debugger res" where
  "cmd_enable args d =
     (if length args < 2 then enable_all_breakpoints d
      else res_fold (bp_arg bp_enable ''enabled'') (tl args) d)"

definition cmd_disable :: "string list \<Rightarrow> debugger \<Rightarrow> debugger res" where
  "cmd_disable args d =
     (if length args < 2 then disable_all_breakpoints d
      else res_fold (bp_arg bp_disable ''disabled'') (tl args) d)"

section \<open>Registers and memory\<close>

text \<open>A name or a number given as an argument must not be missing.\<close>

definition reg_arg :: "string list \<Rightarrow> nat \<Rightarrow> reg res" where
  "reg_arg args i = res_bind (arg args i) (\<lambda>a. res_bind (not_null a) (\<lambda>name. Inr (get_register_from_name name)))"

definition hex_arg :: "string list \<Rightarrow> nat \<Rightarrow> u64 res" where
  "hex_arg args i = res_bind (arg args i) (\<lambda>a. res_bind (not_null a) (\<lambda>s. Inr (strtoul 16 s)))"

definition cmd_reg :: "string list \<Rightarrow> debugger \<Rightarrow> debugger res" where
  "cmd_reg args d =
     res_bind (arg args 1) (\<lambda>sub.
       if is_prefix sub (Some ''dump'')
       then res_bind (dump_registers (w_tracee d) (dbg_get_pid d)) (\<lambda>rows. Inr (say (Out_Registers rows) d))
       else if is_prefix sub (Some ''read'')
       then res_bind (reg_arg args 2) (\<lambda>r.
            res_bind (get_register_value r (w_tracee d) (dbg_get_pid d)) (\<lambda>v. Inr (say (Out_Value v) d)))
       else if is_prefix sub (Some ''write'')
       then res_bind (hex_arg args 3) (\<lambda>v.
            res_bind (reg_arg args 2) (\<lambda>r.
            res_bind (set_register_value r (w_tracee d) (dbg_get_pid d) v) (\<lambda>t. Inr (d\<lparr>w_tracee := t\<rparr>))))
       else Inr (say (Out_Invalid ''register'' sub) d))"

definition cmd_mem :: "string list \<Rightarrow> debugger \<Rightarrow> debugger res" where
  "cmd_mem args d =
     res_bind (hex_arg args 2) (\<lambda>address.
     res_bind (arg args 1) (\<lambda>sub.
       if is_prefix sub (Some ''read'')
       then Inr (say (Out_Value (read_memory (w_tracee d) (dbg_get_pid d) address)) d)
       else if is_prefix sub (Some ''write'')
       then res_bind (hex_arg args 3) (\<lambda>v.
              Inr (d\<lparr>w_tracee := write_memory (w_tracee d) (dbg_get_pid d) address v\<rparr>))
       else Inr (say (Out_Invalid ''memory'' sub) d)))"

section \<open>Scripts\<close>

text \<open>What the calls of \<open>getline\<close> on a file return: the lines with their newlines.\<close>

fun getline_all :: "string \<Rightarrow> string list" where
  "getline_all [] = []"
| "getline_all (c # cs) =
     (if c = newline then [c] # getline_all cs
      else case getline_all cs of [] \<Rightarrow> [[c]] | l # ls \<Rightarrow> (c # l) # ls)"

fun source_lines :: "(string \<Rightarrow> debugger \<Rightarrow> debugger option res) \<Rightarrow> string list \<Rightarrow> debugger \<Rightarrow> debugger option res" where
  "source_lines handle [] d = Inr (Some d)"
| "source_lines handle (l # ls) d =
     (let line = takeWhile (\<lambda>c. c \<noteq> newline \<and> c \<noteq> CHR 0x00) l
      in if take 1 l = ''#'' \<or> line = [] then source_lines handle ls d
         else res_bind (handle line d) (\<lambda>r.
                case r of None \<Rightarrow> Inr None | Some d1 \<Rightarrow> source_lines handle ls d1))"

text \<open>Without a path the message is printed and \<open>fopen\<close> gets the null pointer all the same.\<close>

definition cmd_source :: "cli \<Rightarrow> (string \<Rightarrow> debugger \<Rightarrow> debugger option res) \<Rightarrow> string list \<Rightarrow> debugger \<Rightarrow>
    debugger option res" where
  "cmd_source X handle args d =
     res_bind (arg args 1) (\<lambda>path.
     res_bind (not_null path) (\<lambda>script_path.
       case hf_bytes (sys_files (cli_system X)) script_path of
         None \<Rightarrow> Inr (Some (say (Out_Text (''Invalid script path: '' @ script_path)) d))
       | Some contents \<Rightarrow> source_lines handle (getline_all contents) d))"

section \<open>Dispatch\<close>

definition lift_res :: "debugger res \<Rightarrow> debugger option res" where
  "lift_res m = res_bind m (\<lambda>d. Inr (Some d))"

definition call_handler :: "cli \<Rightarrow> nat \<Rightarrow> (string \<Rightarrow> debugger \<Rightarrow> debugger option res) \<Rightarrow> cmd_handler \<Rightarrow> string list \<Rightarrow>
    debugger \<Rightarrow> debugger option res" where
  "call_handler X fuel handle h args d =
     (case h of
        H_arguments \<Rightarrow> lift_res (cmd_arguments args d)
      | H_break \<Rightarrow> lift_res (cmd_break args d)
      | H_backtrace \<Rightarrow> cmd_backtrace X fuel d
      | H_continue \<Rightarrow> lift_res (cmd_continue X d)
      | H_clear \<Rightarrow> lift_res (cmd_clear d)
      | H_context \<Rightarrow> lift_res (cmd_context X args d)
      | H_delete \<Rightarrow> lift_res (cmd_delete args d)
      | H_disable \<Rightarrow> lift_res (cmd_disable args d)
      | H_disassemble \<Rightarrow> lift_res (cmd_disassemble X args d)
      | H_exit \<Rightarrow> lift_res (cmd_exit d)
      | H_enable \<Rightarrow> lift_res (cmd_enable args d)
      | H_finish \<Rightarrow> lift_res (cmd_finish X d)
      | H_files \<Rightarrow> lift_res (cmd_files d)
      | H_functions \<Rightarrow> lift_res (cmd_functions args d)
      | H_help \<Rightarrow> lift_res (cmd_help d)
      | H_header \<Rightarrow> lift_res (cmd_header X d)
      | H_list \<Rightarrow> lift_res (cmd_list d)
      | H_ls \<Rightarrow> lift_res (cmd_ls X d)
      | H_mem \<Rightarrow> lift_res (cmd_mem args d)
      | H_next \<Rightarrow> lift_res (cmd_next X d)
      | H_plt \<Rightarrow> lift_res (cmd_plt args d)
      | H_run \<Rightarrow> lift_res (cmd_run X d)
      | H_restart \<Rightarrow> lift_res (cmd_restart X d)
      | H_reg \<Rightarrow> lift_res (cmd_reg args d)
      | H_step \<Rightarrow> cmd_step X fuel d
      | H_stepi \<Rightarrow> lift_res (cmd_stepi X d)
      | H_source \<Rightarrow> cmd_source X handle args d
      | H_sections \<Rightarrow> lift_res (cmd_sections args d)
      | H_symbols \<Rightarrow> lift_res (cmd_symbols args d)
      | H_vmmap \<Rightarrow> lift_res (cmd_vmmap X d))"

text \<open>The two loops over the table: an exact match, then the first entry with the prefix.\<close>

definition find_command :: "string \<Rightarrow> command_entry option" where
  "find_command command =
     (case find (\<lambda>c. command = ce_name c) commands of
        Some c \<Rightarrow> Some c
      | None \<Rightarrow> find (\<lambda>c. is_prefix (Some command) (Some (ce_name c))) commands)"

definition run_command :: "cli \<Rightarrow> nat \<Rightarrow> (string \<Rightarrow> debugger \<Rightarrow> debugger option res) \<Rightarrow> string list \<Rightarrow> debugger \<Rightarrow>
    debugger option res" where
  "run_command X fuel handle args d =
     (case args of
        [] \<Rightarrow> Inr (Some d)
      | command # _ \<Rightarrow>
          (case find_command command of
             None \<Rightarrow> Inr (Some (say (Out_Invalid command None) d))
           | Some c \<Rightarrow>
               if \<not> dbg_is_active d \<and> ce_requires_running_pid c
               then Inr (Some (say (Out_Requires (ce_name c) ''running tracee'') d))
               else if ce_requires_dwarf_symbols c \<and> \<not> has_dwarf_symbols (dbg_get_symbols d)
               then Inr (Some (say (Out_Requires (ce_name c) ''dwarf symbols'') d))
               else call_handler X fuel handle (ce_handler c) args d))"

fun handle_command :: "cli \<Rightarrow> nat \<Rightarrow> string \<Rightarrow> debugger \<Rightarrow> debugger option res" where
  "handle_command X 0 input d = Inr None"
| "handle_command X (Suc fuel) input d =
     res_bind (split input (CHR '' '')) (\<lambda>args. run_command X fuel (handle_command X fuel) args d)"

section \<open>The prompt\<close>

text \<open>
  The loop of \<open>dbg_start\<close>: an input line comes from the same terminal as the answers to
  questions. An empty line repeats the last one; the end of the input kills the tracee and
  leaves the loop, unless the user refuses.
\<close>

fun prompt_loop :: "cli \<Rightarrow> nat \<Rightarrow> string option \<Rightarrow> debugger \<Rightarrow> debugger option res" where
  "prompt_loop X 0 last_input d = Inr None"
| "prompt_loop X (Suc fuel) last_input d =
     (case ask d of
        (None, d1) \<Rightarrow>
          res_bind (dbg_kill_tracee d1) (\<lambda>(killed, d2).
            if killed then Inr (Some (say (Out_Text ''Bye..'') d2)) else prompt_loop X fuel last_input d2)
      | (Some input, d1) \<Rightarrow>
          (let last_input' = (if input = [] then last_input else Some input)
           in case last_input' of
                None \<Rightarrow> prompt_loop X fuel None d1
              | Some line \<Rightarrow>
                  res_bind (handle_command X fuel line d1) (\<lambda>r.
                    case r of None \<Rightarrow> Inr None | Some d2 \<Rightarrow> prompt_loop X fuel last_input' d2)))"

definition dbg_start :: "cli \<Rightarrow> nat \<Rightarrow> debugger \<Rightarrow> debugger option res" where
  "dbg_start X fuel d =
     prompt_loop X fuel None
       (if has_dwarf_symbols (dbg_get_symbols d) then d
        else say (Out_Text ''Warning: this executable doesn't contain debug symbols'') d)"

end
