(* ===== verification/Completion.thy ===== *)
theory Completion
  imports Commands
begin

text \<open>
  The tab completion of \<open>src/completion.c\<close>. The line under the cursor is readline's; so is
  \<open>rl_completion_matches\<close>, which calls a generator until it returns a null pointer and
  returns the matches behind the text they have in common, and the completion of file names.
  A generator is modelled here by the list of everything it generates; theory Generators has
  the calls with their static variables and shows that they give these lists.
\<close>

section \<open>The words of the line\<close>

definition blank :: "char \<Rightarrow> bool" where
  "blank c \<longleftrightarrow> c = CHR '' '' \<or> c = CHR 0x09"

text \<open>The loop of \<open>get_word_index_at_start\<close>; the terminating NUL counts as a letter.\<close>

fun count_words :: "string \<Rightarrow> bool \<Rightarrow> nat \<Rightarrow> nat" where
  "count_words [] in_token words = words"
| "count_words (c # cs) in_token words =
     (if blank c then count_words cs False words
      else if \<not> in_token then count_words cs True (Suc words)
      else count_words cs True words)"

definition get_word_index_at_start :: "string \<Rightarrow> nat \<Rightarrow> nat res" where
  "get_word_index_at_start rl_line_buffer start =
     (if Suc (length rl_line_buffer) < start then Inl OutOfBounds
      else Inr (count_words (take start (rl_line_buffer @ [CHR 0x00])) False 0))"

text \<open>The local variables of \<open>get_word_at_index\<close>, and its loop from index \<open>i\<close> on.\<close>

record word_scan =
  ws_words :: nat
  ws_in_token :: bool
  ws_token_start :: nat
  ws_token_end :: nat

fun scan_word :: "nat \<Rightarrow> nat \<Rightarrow> string \<Rightarrow> word_scan \<Rightarrow> word_scan" where
  "scan_word target_idx i [] w = w"
| "scan_word target_idx i (c # cs) w =
     (if blank c
      then if ws_in_token w
           then if ws_words w = Suc target_idx
                then w\<lparr>ws_in_token := False, ws_token_end := i\<rparr>
                else scan_word target_idx (Suc i) cs (w\<lparr>ws_in_token := False\<rparr>)
           else scan_word target_idx (Suc i) cs w
      else if \<not> ws_in_token w
           then scan_word target_idx (Suc i) cs
                  (w\<lparr>ws_in_token := True, ws_words := Suc (ws_words w),
                     ws_token_start := (if ws_words w = target_idx then i else ws_token_start w)\<rparr>)
           else scan_word target_idx (Suc i) cs w)"

definition word_found :: "nat \<Rightarrow> nat \<Rightarrow> string \<Rightarrow> word_scan \<Rightarrow> string option" where
  "word_found target_idx buf_len line w =
     (let token_end = (if ws_in_token w \<and> ws_words w = Suc target_idx then length line else ws_token_end w)
      in if target_idx < ws_words w \<and> ws_token_start w < token_end
         then let len = token_end - ws_token_start w
              in Some (take (if buf_len \<le> len then buf_len - 1 else len) (drop (ws_token_start w) line))
         else None)"

text \<open>\<open>Some\<close> is the return value true with the contents of the buffer.\<close>

definition get_word_at_index :: "nat \<Rightarrow> nat \<Rightarrow> string \<Rightarrow> string option" where
  "get_word_at_index target_idx buf_len rl_line_buffer =
     (if buf_len = 0 then None
      else word_found target_idx buf_len rl_line_buffer
             (scan_word target_idx 0 rl_line_buffer
                \<lparr>ws_words = 0, ws_in_token = False, ws_token_start = 0, ws_token_end = 0\<rparr>))"

section \<open>Generators\<close>

text \<open>
  The loop that all generators have: from index \<open>idx\<close> to the next item with the prefix
  \<open>word\<close>, and the index where the next call goes on.
\<close>

function next_match :: "string \<Rightarrow> string list \<Rightarrow> nat \<Rightarrow> (string \<times> nat) option" where
  "next_match word items idx =
     (if idx < length items
      then if strncmp_eq (items ! idx) word (length word) then Some (items ! idx, Suc idx)
           else next_match word items (Suc idx)
      else None)"
  by pat_completeness auto
termination by (relation "measure (\<lambda>(word, items, idx). length items - idx)") auto

declare next_match.simps [simp del]

lemma next_match_less: "next_match word items idx = Some (s, idx') \<Longrightarrow> idx < idx' \<and> idx' \<le> length items"
proof (induction word items idx rule: next_match.induct)
  case (1 word items idx)
  show ?case
  proof (cases "idx < length items \<and> \<not> strncmp_eq (items ! idx) word (length word)")
    case True
    then have "next_match word items (Suc idx) = Some (s, idx')"
      using "1.prems" by (subst (asm) next_match.simps) simp
    then show ?thesis using "1.IH" True by simp
  next
    case False
    then show ?thesis using "1.prems" by (subst (asm) next_match.simps) (auto split: if_splits)
  qed
qed

text \<open>The calls with state 0, 1, 2, \<dots> until the null pointer.\<close>

function generate :: "string \<Rightarrow> string list \<Rightarrow> nat \<Rightarrow> string list" where
  "generate word items idx =
     (case next_match word items idx of None \<Rightarrow> [] | Some (s, idx') \<Rightarrow> s # generate word items idx')"
  by pat_completeness auto
termination
  by (relation "measure (\<lambda>(word, items, idx). length items - idx)") (auto dest: next_match_less)

declare generate.simps [simp del]

definition strlist_generator :: "string \<Rightarrow> string list \<Rightarrow> string list" where
  "strlist_generator text strlist = generate text strlist 0"

definition function_generator :: "string \<Rightarrow> debugger \<Rightarrow> string list" where
  "function_generator text d = generate text (map fe_name (get_valid_func_symbols (dbg_get_symbols d))) 0"

text \<open>The file names only come up when no function matches; \<open>snprintf\<close> keeps 255 characters.\<close>

definition break_target_generator :: "string \<Rightarrow> debugger \<Rightarrow> string list" where
  "break_target_generator text d =
     (let funcs = map fe_name (get_valid_func_symbols (dbg_get_symbols d));
          has_func_match = (\<exists>f \<in> set funcs. strncmp_eq f text (length text))
      in generate text funcs 0
         @ (if has_func_match then []
            else generate text (map (\<lambda>name. take 255 (name @ '':'')) (get_source_files (dbg_get_symbols d))) 0))"

text \<open>The candidates for one breakpoint, then those of the whole list.\<close>

definition bp_candidates :: "breakpoint \<Rightarrow> string list" where
  "bp_candidates b =
     (let sym = bp_get_symbol b; fl = bp_get_flpair b
      in [take 31 (printf_lu (b_id b))]
         @ (case sym of None \<Rightarrow> [] | Some s \<Rightarrow> [s])
         @ (case fl of None \<Rightarrow> [] | Some (fname, lineno) \<Rightarrow> [take 255 (fname @ '':'' @ printf_d lineno)])
         @ (if sym = None \<and> fl = None then [take 31 (printf_alt_lx (b_instr_addr b))] else []))"

definition bp_generator :: "string \<Rightarrow> debugger \<Rightarrow> string list res" where
  "bp_generator text d =
     res_bind (deref_all (w_bps d) (dbg_get_pending_list d)) (\<lambda>bs.
       Inr (generate text (concat (map bp_candidates bs)) 0))"

definition command_generator :: "string \<Rightarrow> string list" where
  "command_generator text = generate text (map ce_name commands) 0"

section \<open>Completers\<close>

text \<open>\<open>rl_completion_matches\<close> on what a generator gives, and the generator of file names.\<close>

record readline =
  rl_completion_matches :: "string \<Rightarrow> string list \<Rightarrow> string list option"
  rl_filenames :: "string \<Rightarrow> string list"

text \<open>The result: the matches, and whether \<open>rl_completion_suppress_append\<close> is set.\<close>

type_synonym completion = "string list option \<times> bool"

definition complete_from_strlist :: "readline \<Rightarrow> string \<Rightarrow> string list \<Rightarrow> completion res" where
  "complete_from_strlist R text list = Inr (rl_completion_matches R text (strlist_generator text list), False)"

definition complete_break :: "readline \<Rightarrow> string \<Rightarrow> nat \<Rightarrow> debugger \<Rightarrow> completion res" where
  "complete_break R text word_index d =
     (if word_index < 1 then Inr (None, False)
      else case rl_completion_matches R text (break_target_generator text d) of
             None \<Rightarrow> Inr (None, False)
           | Some [] \<Rightarrow> Inr (Some [], False)
           | Some (m # ms) \<Rightarrow> if m = [] then Inl OutOfBounds else Inr (Some (m # ms), last m = CHR '':''))"

definition complete_delete :: "readline \<Rightarrow> string \<Rightarrow> nat \<Rightarrow> debugger \<Rightarrow> completion res" where
  "complete_delete R text word_index d =
     (if word_index < 1 then Inr (None, False)
      else res_bind (bp_generator text d) (\<lambda>ms. Inr (rl_completion_matches R text ms, False)))"

definition complete_disable :: "readline \<Rightarrow> string \<Rightarrow> nat \<Rightarrow> debugger \<Rightarrow> completion res" where
  "complete_disable R text word_index d =
     (if word_index < 1 then Inr (None, False)
      else res_bind (bp_generator text d) (\<lambda>ms. Inr (rl_completion_matches R text ms, False)))"

definition complete_enable :: "readline \<Rightarrow> string \<Rightarrow> nat \<Rightarrow> debugger \<Rightarrow> completion res" where
  "complete_enable R text word_index d =
     (if word_index < 1 then Inr (None, False)
      else res_bind (bp_generator text d) (\<lambda>ms. Inr (rl_completion_matches R text ms, False)))"

definition complete_disassemble :: "readline \<Rightarrow> string \<Rightarrow> nat \<Rightarrow> debugger \<Rightarrow> completion res" where
  "complete_disassemble R text word_index d =
     (if word_index = 1 then Inr (rl_completion_matches R text (function_generator text d), False) else Inr (None, False))"

definition complete_memory :: "readline \<Rightarrow> string \<Rightarrow> nat \<Rightarrow> completion res" where
  "complete_memory R text word_index =
     (if word_index = 1 then complete_from_strlist R text [''read'', ''write''] else Inr (None, False))"

definition complete_register :: "readline \<Rightarrow> string \<Rightarrow> string \<Rightarrow> nat \<Rightarrow> completion res" where
  "complete_register R rl_line_buffer text word_index =
     (if word_index = 1 then complete_from_strlist R text [''dump'', ''read'', ''write'']
      else if word_index = 2
      then (case get_word_at_index 1 32 rl_line_buffer of
              None \<Rightarrow> Inr (None, False)
            | Some subcmd \<Rightarrow>
                if is_prefix (Some subcmd) (Some ''read'') \<or> is_prefix (Some subcmd) (Some ''write'')
                then complete_from_strlist R text
                  [''r15'', ''r14'', ''r13'', ''r12'', ''rbp'', ''rbx'', ''r11'', ''r10'', ''r9'', ''r8'',
                   ''rax'', ''rcx'', ''rdx'', ''rsi'', ''rdi'', ''orig_rax'', ''rip'', ''cs'', ''eflags'', ''rsp'',
                   ''ss'', ''fs_base'', ''gs_base'', ''ds'', ''es'', ''fs'', ''gs'']
                else Inr (None, False))
      else Inr (None, False))"

definition complete_source :: "readline \<Rightarrow> string \<Rightarrow> nat \<Rightarrow> completion res" where
  "complete_source R text word_index =
     (if word_index = 1 then Inr (rl_completion_matches R text (rl_filenames R text), False) else Inr (None, False))"

definition call_completer ::
    "readline \<Rightarrow> string \<Rightarrow> debugger \<Rightarrow> arg_completer_fn \<Rightarrow> string \<Rightarrow> nat \<Rightarrow> completion res" where
  "call_completer R rl_line_buffer d f text word_index =
     (case f of
        Complete_break \<Rightarrow> complete_break R text word_index d
      | Complete_delete \<Rightarrow> complete_delete R text word_index d
      | Complete_disable \<Rightarrow> complete_disable R text word_index d
      | Complete_disassemble \<Rightarrow> complete_disassemble R text word_index d
      | Complete_enable \<Rightarrow> complete_enable R text word_index d
      | Complete_memory \<Rightarrow> complete_memory R text word_index
      | Complete_register \<Rightarrow> complete_register R rl_line_buffer text word_index
      | Complete_source \<Rightarrow> complete_source R text word_index)"

text \<open>The exact match and the prefix match are searched for as in \<open>handle_command\<close>.\<close>

definition dbg_completion :: "readline \<Rightarrow> string \<Rightarrow> string \<Rightarrow> nat \<Rightarrow> debugger \<Rightarrow> completion res" where
  "dbg_completion R rl_line_buffer text start d =
     res_bind (get_word_index_at_start rl_line_buffer start) (\<lambda>word_index.
       if word_index = 0 \<or> start = 0
       then Inr (rl_completion_matches R text (command_generator text), False)
       else case get_word_at_index 0 128 rl_line_buffer of
              None \<Rightarrow> Inr (None, False)
            | Some cmd_name \<Rightarrow>
                (case find_command cmd_name of
                   None \<Rightarrow> Inr (None, False)
                 | Some c \<Rightarrow>
                     (case ce_completer c of
                        None \<Rightarrow> Inr (None, False)
                      | Some f \<Rightarrow> call_completer R rl_line_buffer d f text word_index)))"

end
