(* ===== verification/Stepping_Props.thy ===== *)
theory Stepping_Props
  imports Stepping
begin

text \<open>
  The properties of stepping: the commands that set temporary locations remove every trace of
  them when the program stops, they abort the debugger when the program ends, and stepping
  does not get past a location that is switched off.
\<close>

section \<open>Temporary locations on top of a session\<close>

text \<open>\<open>d'\<close> is \<open>d\<close> with temporary locations at the addresses \<open>xs\<close>, and perhaps run on since.\<close>

definition with_temps :: "(u64 \<Rightarrow> u8 option) \<Rightarrow> debugger \<Rightarrow> u64 list \<Rightarrow> debugger \<Rightarrow> bool" where
  "with_temps orig d xs d' \<longleftrightarrow> attached orig d' \<and> w_bps d' = w_bps d \<and> distinct xs \<and>
     (\<forall>x. x \<in> set xs \<longrightarrow> (\<forall>k. addr_of d k \<noteq> Some x) \<and> (\<exists>k. addr_of d' k = Some x)) \<and>
     (\<forall>x. armed d' x \<longleftrightarrow> armed d x \<or> x \<in> set xs) \<and>
     (\<forall>x. temp_at d' x \<longleftrightarrow> temp_at d x \<or> x \<in> set xs) \<and>
     (\<forall>k. w_locs d k \<noteq> None \<longrightarrow> addr_of d' k = addr_of d k) \<and>
     (\<forall>k x. w_locs d k = None \<longrightarrow> addr_of d' k = Some x \<longrightarrow> x \<in> set xs) \<and>
     db_load_address d' = db_load_address d"

lemma with_temps_attached: "with_temps orig d xs d' \<Longrightarrow> attached orig d'"
  unfolding with_temps_def by blast

lemma with_temps_at: "with_temps orig d xs d' \<Longrightarrow> x \<in> set xs \<Longrightarrow> \<exists>k. addr_of d' k = Some x"
  unfolding with_temps_def by blast

lemma with_temps_new: "with_temps orig d xs d' \<Longrightarrow> x \<in> set xs \<Longrightarrow> addr_of d k \<noteq> Some x"
  unfolding with_temps_def by blast

lemma with_temps_nil: "attached orig d \<Longrightarrow> with_temps orig d [] d"
  unfolding with_temps_def by simp

lemma without_temps_session:
  assumes ok: "session_ok orig d" and w: "with_temps orig' d [] d'"
  shows "session_ok orig' d' \<and> armed d' = armed d \<and> (\<forall>x. temp_at d' x = temp_at d x) \<and> w_bps d' = w_bps d"
proof -
  have f: "attached orig' d'" "w_bps d' = w_bps d" "armed d' = armed d" "\<forall>x. temp_at d' x = temp_at d x"
    "db_load_address d' = db_load_address d"
    using w unfolding with_temps_def by (blast, blast, force simp: fun_eq_iff, force, blast)
  have "\<forall>l. addr_of d' l = addr_of d l"
  proof
    fix l
    have "w_locs d l \<noteq> None \<Longrightarrow> addr_of d' l = addr_of d l" using w unfolding with_temps_def by blast
    moreover have "w_locs d l = None \<Longrightarrow> addr_of d' l = None"
      using w unfolding with_temps_def by (metis empty_iff empty_set option.exhaust)
    ultimately show "addr_of d' l = addr_of d l" by (cases "w_locs d l") simp_all
  qed
  from session_same_sites[OF ok f(1,2) this f(5)] show ?thesis using f by blast
qed

text \<open>One more temporary location, or none where a location exists already.\<close>

lemma set_temp_nonzero: "set_temp_bp_location a d = Inr r \<Longrightarrow> a \<noteq> 0"
  by (auto simp: set_temp_bp_location_def loc_init_def c_assert_def split: if_splits)

lemma loc_init_temp_more:
  "loc_init p a None True w = Inr (l, w') \<Longrightarrow> bp_world.more w' = bp_world.more w"
  by (auto simp: loc_init_def Let_def loc_enable_def set_loc_def deref_def c_assert_def split: if_splits)

lemma set_temp_fresh_true:
  assumes att: "attached orig d" and none: "\<And>k. addr_of d k \<noteq> Some a"
    and s: "set_temp_bp_location a d = Inr (ok, d')"
  shows "ok"
proof -
  have mok: "map_ok (db_bp_locations d)" and act: "db_state d = ACTIVE" using att by (simp_all add: attached_def locs_mapped_addr)
  have n: "map_abs (db_bp_locations d) a = None"
  proof (rule ccontr)
    assume "map_abs (db_bp_locations d) a \<noteq> None"
    then obtain l where "map_abs (db_bp_locations d) a = Some l" by blast
    then have "addr_of d l = Some a" using att unfolding attached_def locs_mapped_addr by blast
    then show False using none by blast
  qed
  obtain l d1 where i: "loc_init (db_pid d) a None True d = Inr (l, d1)"
    using s act by (auto simp: set_temp_bp_location_def)
  have "db_bp_locations d1 = db_bp_locations d" by (rule more_fields[OF loc_init_temp_more[OF i]])
  then obtain h where "map_insert (db_bp_locations d1) a (Some l) = Inr (True, h)"
    using hm.insert_fresh_law[OF mok n, of l] by auto
  then show ?thesis using s act i by (simp add: set_temp_bp_location_def)
qed

lemma attached_next: "attached orig d \<Longrightarrow> attached orig (d\<lparr>w_next := Suc (w_next d)\<rparr>)"
proof -
  assume att: "attached orig d"
  let ?d = "d\<lparr>w_next := Suc (w_next d)\<rparr>"
  have h: "heap_ok d" and p: "patch_ok orig d" using att by (simp_all add: attached_def core_ok_def)
  have "heap_ok ?d" using h by (simp add: heap_ok_def)
  moreover have "patch_ok orig ?d" using p patch_ok_cong[of ?d d orig] by simp
  moreover have "maps_ok ?d = maps_ok d" by (rule maps_ok_cong) (simp_all add: same_bps_def)
  moreover have "locs_mapped ?d = locs_mapped d" by (simp add: locs_mapped_def)
  ultimately show ?thesis using att by (simp add: attached_def core_ok_def)
qed

lemma site_mapped: "attached orig d \<Longrightarrow> addr_of d k = Some a \<Longrightarrow> mapped8 orig a"
  using mapped_orig[of orig d a] by (auto simp: attached_def patch_ok_def sites_ok_def)

text \<open>What a new temporary location changes.\<close>

lemma set_temp_places:
  assumes att: "attached orig d1" and s: "set_temp_bp_location a d1 = Inr (True, d2)"
    and m: "mapped8 orig a" and free: "\<And>k. addr_of d1 k \<noteq> Some a"
  obtains l where "w_locs d1 l = None" "\<And>k. addr_of d2 k = (if k = l then Some a else addr_of d1 k)"
    "\<And>x. temp_at d2 x \<longleftrightarrow> x = a \<or> temp_at d1 x" "\<And>x. armed d2 x \<longleftrightarrow> x = a \<or> armed d1 x"
    "attached orig d2" "w_bps d2 = w_bps d1" "db_load_address d2 = db_load_address d1"
proof -
  let ?l = "w_next d1"
  have h: "heap_ok d1" using att by (simp add: attached_def core_ok_def)
  have d2: "attached orig d2" "w_bps d2 = w_bps d1"
    "\<forall>k. map_option loc_place (w_locs d2 k) =
       (if k = ?l then Some (db_pid d1, True, a) else map_option loc_place (w_locs d1 k))"
    "\<forall>x. armed d2 x \<longleftrightarrow> x = a \<or> armed d1 x"
    "rest_same (d1\<lparr>db_bp_locations := db_bp_locations d2\<rparr>) d2"
    using set_temp_fresh[OF att set_temp_nonzero[OF s] m free] s by auto
  have new: "w_locs d1 ?l = None" using heap_fresh[OF h, of ?l] by simp
  have place: "addr_of v k = map_option (snd \<circ> snd) (map_option loc_place (w_locs v k))"
    "map_option l_is_temp (w_locs v k) = map_option (fst \<circ> snd) (map_option loc_place (w_locs v k))"
    for v :: debugger and k
    by (simp_all add: option.map_comp loc_place_def comp_def)
  have addr: "addr_of d2 k = (if k = ?l then Some a else addr_of d1 k)" for k
    unfolding place(1) using d2(3) by simp
  have temps: "map_option l_is_temp (w_locs d2 k) = (if k = ?l then Some True else map_option l_is_temp (w_locs d1 k))" for k
    unfolding place(2) using d2(3) by simp
  have temp: "temp_at d2 x \<longleftrightarrow> x = a \<or> temp_at d1 x" for x
  proof -
    have "temp_at d2 x \<longleftrightarrow> (\<exists>k. (if k = ?l then Some a else addr_of d1 k) = Some x \<and>
        (if k = ?l then Some True else map_option l_is_temp (w_locs d1 k)) = Some True)"
      unfolding temp_at_alt addr temps ..
    also have "\<dots> \<longleftrightarrow> x = a \<or> (\<exists>k. addr_of d1 k = Some x \<and> map_option l_is_temp (w_locs d1 k) = Some True)"
      using new by (metis option.distinct(1) option.map_disc_iff option.sel)
    finally show ?thesis unfolding temp_at_alt .
  qed
  have "db_load_address d2 = db_load_address d1" using more_fields(8)[OF rest_same_more[OF d2(5)]] by simp
  then show ?thesis using that[OF new addr temp] d2(1,2,4) by blast
qed

lemma with_temps_add:
  assumes w: "with_temps orig d xs d1" and l: "w_locs d1 l = None" and free: "\<And>k. addr_of d1 k \<noteq> Some a"
    and addr: "\<And>k. addr_of d2 k = (if k = l then Some a else addr_of d1 k)"
    and temp: "\<And>x. temp_at d2 x \<longleftrightarrow> x = a \<or> temp_at d1 x" and arm: "\<And>x. armed d2 x \<longleftrightarrow> x = a \<or> armed d1 x"
    and same: "attached orig d2" "w_bps d2 = w_bps d1" "db_load_address d2 = db_load_address d1"
  shows "with_temps orig d (xs @ [a]) d2"
proof -
  have was: "w_locs d k \<noteq> None \<Longrightarrow> addr_of d1 k = addr_of d k" for k using w unfolding with_temps_def by blast
  have notin: "addr_of d k \<noteq> Some a" for k
  proof
    assume k: "addr_of d k = Some a"
    then have "w_locs d k \<noteq> None" by (cases "w_locs d k") simp_all
    from was[OF this] k free[of k] show False by metis
  qed
  have a: "a \<notin> set xs" using w free unfolding with_temps_def by blast
  have at: "\<exists>k. addr_of d2 k = Some x" if x: "x \<in> set (xs @ [a])" for x
  proof (cases "x = a")
    case True
    then show ?thesis using addr[of l] by metis
  next
    case False
    then have "x \<in> set xs" using x by simp
    then obtain k where "addr_of d1 k = Some x" using with_temps_at[OF w] by blast
    moreover from this have "k \<noteq> l" using l by auto
    ultimately show ?thesis using addr[of k] by metis
  qed
  have old: "addr_of d2 k = addr_of d k" if k: "w_locs d k \<noteq> None" for k
  proof -
    have "k \<noteq> l" using was[OF k] k l by auto
    then show ?thesis using addr[of k] was[OF k] by simp
  qed
  have new: "x \<in> set (xs @ [a])" if k: "w_locs d k = None" "addr_of d2 k = Some x" for k x
  proof (cases "k = l")
    case True
    then have "Some a = Some x" using addr[of k] k(2) by metis
    then show ?thesis by simp
  next
    case False
    then have "addr_of d1 k = Some x" using addr[of k] k(2) by metis
    then show ?thesis using w k(1) unfolding with_temps_def by auto
  qed
  have fresh: "addr_of d k \<noteq> Some x" if x: "x \<in> set (xs @ [a])" for x k
  proof (cases "x = a")
    case True
    show ?thesis unfolding True by (rule notin)
  next
    case False
    then have "x \<in> set xs" using x by simp
    then show ?thesis by (rule with_temps_new[OF w])
  qed
  have "armed d2 x \<longleftrightarrow> armed d x \<or> x \<in> set (xs @ [a])" "temp_at d2 x \<longleftrightarrow> temp_at d x \<or> x \<in> set (xs @ [a])" for x
    using w unfolding with_temps_def arm temp by auto
  moreover have "w_bps d2 = w_bps d" "db_load_address d2 = db_load_address d" "distinct (xs @ [a])"
    using w same(2,3) a unfolding with_temps_def by simp_all
  ultimately show ?thesis using same(1) at old new fresh unfolding with_temps_def by blast
qed

lemma with_temps_set:
  assumes w: "with_temps orig d xs d1" and s: "set_temp_bp_location a d1 = Inr (ok, d2)"
    and m: "ok \<Longrightarrow> mapped8 orig a"
  shows "with_temps orig d (if ok then xs @ [a] else xs) d2"
proof (cases "\<exists>k. addr_of d1 k = Some a")
  case True
  then obtain k where k: "addr_of d1 k = Some a" by blast
  have att: "attached orig d1" by (rule with_temps_attached[OF w])
  have r: "\<not> ok" "d2 = d1\<lparr>w_next := Suc (w_next d1)\<rparr>"
    using set_temp_occupied[OF att set_temp_nonzero[OF s] site_mapped[OF att k] k] s by auto
  have "attached orig d2" using attached_next[OF att] r(2) by simp
  moreover have "armed d2 = armed d1" "temp_at d2 = temp_at d1" "w_locs d2 = w_locs d1" "w_bps d2 = w_bps d1"
    "db_load_address d2 = db_load_address d1"
    by (simp_all add: r(2) armed_def temp_at_def fun_eq_iff)
  ultimately show ?thesis using w r(1) unfolding with_temps_def by simp
next
  case False
  then have free: "\<And>k. addr_of d1 k \<noteq> Some a" by blast
  have att: "attached orig d1" by (rule with_temps_attached[OF w])
  have ok: "ok" using set_temp_fresh_true[OF att _ s] False by blast
  from att s[unfolded eq_True[THEN iffD2, OF ok]] m[OF ok] free show ?thesis
    by (rule set_temp_places) (simp add: ok with_temps_add[OF w _ free])
qed

text \<open>Taking the first of them back.\<close>

text \<open>What taking back the location \<open>l\<close> changes, and that this is the temporary location of \<open>a\<close>.\<close>

lemma unset_temp_places:
  assumes att: "attached orig d1" and l: "addr_of d1 l = Some a"
    and e: "d2 = (without_loc l m d1)\<lparr>db_bp_locations := g\<rparr>"
  shows "addr_of d2 k = (if k = l then None else addr_of d1 k)"
    and "armed d2 x \<longleftrightarrow> armed d1 x \<and> x \<noteq> a" and "temp_at d2 x \<longleftrightarrow> temp_at d1 x \<and> x \<noteq> a"
    and "db_load_address d2 = db_load_address d1" and "db_pid d2 = db_pid d1"
    and "t_regs (w_tracee d2) = t_regs (w_tracee d1)"
proof -
  have pok: "patch_ok orig d1" using att by (simp add: attached_def)
  have addr: "addr_of d2 k = (if k = l then None else addr_of d1 k)" for k by (simp add: e)
  have uniq: "addr_of d1 k = Some a \<Longrightarrow> k = l" for k using addr_unique[OF pok l, of k] by blast
  have on: "patch_on d2 k \<longleftrightarrow> k \<noteq> l \<and> patch_on d1 k" for k by (simp add: e patch_on_def)
  have temps: "map_option l_is_temp (w_locs d2 k) = (if k = l then None else map_option l_is_temp (w_locs d1 k))" for k
    by (simp add: e)
  show "addr_of d2 k = (if k = l then None else addr_of d1 k)" by (rule addr)
  have "armed d2 x \<longleftrightarrow> (\<exists>k. k \<noteq> l \<and> addr_of d1 k = Some x \<and> patch_on d1 k)"
    unfolding armed_addr addr on by auto
  also have "\<dots> \<longleftrightarrow> (\<exists>k. addr_of d1 k = Some x \<and> patch_on d1 k) \<and> x \<noteq> a"
    using uniq l by (metis option.inject)
  finally show "armed d2 x \<longleftrightarrow> armed d1 x \<and> x \<noteq> a" unfolding armed_addr .
  have "temp_at d2 x \<longleftrightarrow> (\<exists>k. k \<noteq> l \<and> addr_of d1 k = Some x \<and> map_option l_is_temp (w_locs d1 k) = Some True)"
    unfolding temp_at_alt addr temps by auto
  also have "\<dots> \<longleftrightarrow> (\<exists>k. addr_of d1 k = Some x \<and> map_option l_is_temp (w_locs d1 k) = Some True) \<and> x \<noteq> a"
    using uniq l by (metis option.inject)
  finally show "temp_at d2 x \<longleftrightarrow> temp_at d1 x \<and> x \<noteq> a" unfolding temp_at_alt .
  show "db_load_address d2 = db_load_address d1" "db_pid d2 = db_pid d1"
    using more_fields(8,2)[of "without_loc l m d1" d1] by (simp_all add: e)
  show "t_regs (w_tracee d2) = t_regs (w_tracee d1)" by (simp add: e without_loc_def)
qed

lemma with_temps_drop:
  assumes nt: "\<And>x. x \<in> set (a # xs) \<Longrightarrow> \<not> temp_at d x \<and> \<not> armed d x"
    and w: "with_temps orig d (a # xs) d1" and l: "addr_of d1 l = Some a" "w_locs d l = None"
    and addr: "\<And>k. addr_of d2 k = (if k = l then None else addr_of d1 k)"
    and arm: "\<And>x. armed d2 x \<longleftrightarrow> armed d1 x \<and> x \<noteq> a" and temp: "\<And>x. temp_at d2 x \<longleftrightarrow> temp_at d1 x \<and> x \<noteq> a"
    and same: "attached orig d2" "w_bps d2 = w_bps d1" "db_load_address d2 = db_load_address d1"
  shows "with_temps orig d xs d2"
proof -
  have a: "a \<notin> set xs" "distinct xs" using w unfolding with_temps_def by auto
  have pok: "patch_ok orig d1" using with_temps_attached[OF w] by (simp add: attached_def)
  have "\<exists>k. addr_of d2 k = Some x" if x: "x \<in> set xs" for x
  proof -
    obtain k where "addr_of d1 k = Some x" using with_temps_at[OF w, of x] x by auto
    moreover have "x \<noteq> a" using x a(1) by blast
    ultimately show ?thesis using addr[of k] l(1) by (metis option.inject)
  qed
  moreover have "addr_of d2 k = addr_of d k" if k: "w_locs d k \<noteq> None" for k
  proof -
    have "k \<noteq> l" using k l(2) by auto
    then show ?thesis using addr[of k] w k unfolding with_temps_def by simp
  qed
  moreover have "x \<in> set xs" if k: "w_locs d k = None" "addr_of d2 k = Some x" for k x
  proof -
    have "k \<noteq> l" "addr_of d1 k = Some x" using k(2) unfolding addr by (auto split: if_splits)
    moreover from this have "x \<in> set (a # xs)" using w k(1) unfolding with_temps_def by blast
    ultimately show ?thesis using addr_unique[OF pok l(1), of k] by auto
  qed
  moreover have "armed d2 x \<longleftrightarrow> armed d x \<or> x \<in> set xs" for x
  proof -
    have "armed d1 x \<longleftrightarrow> armed d x \<or> x \<in> set (a # xs)" using w unfolding with_temps_def by blast
    then show ?thesis unfolding arm using nt[of x] a(1) by auto
  qed
  moreover have "temp_at d2 x \<longleftrightarrow> temp_at d x \<or> x \<in> set xs" for x
  proof -
    have "temp_at d1 x \<longleftrightarrow> temp_at d x \<or> x \<in> set (a # xs)" using w unfolding with_temps_def by blast
    then show ?thesis unfolding temp using nt[of x] a(1) by auto
  qed
  moreover have "addr_of d k \<noteq> Some x" if "x \<in> set xs" for k x
    using with_temps_new[OF w, of x] that by simp
  moreover have "w_bps d2 = w_bps d" "db_load_address d2 = db_load_address d"
    using w same(2,3) unfolding with_temps_def by simp_all
  ultimately show ?thesis using same(1) a(2) unfolding with_temps_def by blast
qed

lemma with_temps_unset:
  assumes h: "heap_ok d" and nt: "\<And>x. x \<in> set (a # xs) \<Longrightarrow> \<not> temp_at d x \<and> \<not> armed d x"
    and w: "with_temps orig d (a # xs) d1"
  shows "\<exists>d2. unset_temp_bp_location a d1 = Inr d2 \<and> with_temps orig d xs d2 \<and> db_pid d2 = db_pid d1 \<and>
    t_regs (w_tracee d2) = t_regs (w_tracee d1)"
proof -
  have att: "attached orig d1" by (rule with_temps_attached[OF w])
  have a: "a \<in> set (a # xs)" by simp
  obtain l where l: "addr_of d1 l = Some a" using w a unfolding with_temps_def by blast
  have fresh: "addr_of d k \<noteq> Some a" for k using w a unfolding with_temps_def by blast
  have new: "w_locs d l = None"
  proof (rule ccontr)
    assume "w_locs d l \<noteq> None"
    then have "addr_of d1 l = addr_of d l" using w unfolding with_temps_def by blast
    then show False using l fresh[of l] by metis
  qed
  obtain m g where u: "unset_temp_bp_location a d1 = Inr ((without_loc l m d1)\<lparr>db_bp_locations := g\<rparr>)"
    "attached orig ((without_loc l m d1)\<lparr>db_bp_locations := g\<rparr>)"
    using unset_temp_ok[OF att l] by blast
  define d2 where "d2 = (without_loc l m d1)\<lparr>db_bp_locations := g\<rparr>"
  have "map_option (clear_of l) (w_bps d p) = w_bps d p" for p
  proof (cases "w_bps d p")
    case (Some b)
    have "b_location b \<noteq> Some l" using heap_location[OF h Some] new by (metis option.distinct(1))
    then show ?thesis using Some by (simp add: clear_of_def)
  qed simp
  moreover have "w_bps d1 = w_bps d" using w unfolding with_temps_def by blast
  ultimately have bps: "w_bps d2 = w_bps d1" by (simp add: d2_def fun_eq_iff)
  note p = unset_temp_places[OF att l d2_def]
  have "with_temps orig d xs d2"
    by (rule with_temps_drop[OF nt w l new p(1-3) u(2)[folded d2_def] bps p(4)])
  then show ?thesis using u(1) p(5,6) unfolding d2_def by blast
qed

lemma with_temps_unset_all:
  assumes ok: "session_ok orig0 d" and nt: "\<And>x. \<not> temp_at d x" and w: "with_temps orig d xs d1"
  shows "\<exists>d2. res_fold unset_temp_bp_location xs d1 = Inr d2 \<and> with_temps orig d [] d2 \<and> db_pid d2 = db_pid d1 \<and>
    t_regs (w_tracee d2) = t_regs (w_tracee d1)"
  using w
proof (induction xs arbitrary: d1)
  case (Cons a xs)
  have h: "heap_ok d" using ok by (simp add: session_ok_def attached_def core_ok_def)
  have "\<not> temp_at d x \<and> \<not> armed d x" if "x \<in> set (a # xs)" for x
    using nt Cons.prems that unfolding with_temps_def armed_addr by blast
  from with_temps_unset[OF h this Cons.prems] obtain d2 where d2: "unset_temp_bp_location a d1 = Inr d2"
    "with_temps orig d xs d2" "db_pid d2 = db_pid d1" "t_regs (w_tracee d2) = t_regs (w_tracee d1)" by blast
  with Cons.IH[OF d2(2)] show ?case by auto
qed simp

text \<open>The program runs into one of the patches, temporary or not.\<close>

lemma with_temps_hit:
  assumes w: "with_temps orig d xs d1" and pc: "get_pc (w_tracee d1) (db_pid d1) = Inr a0" "\<not> armed d1 a0"
    and t: "t = env_cont (sys_program S) (db_pending_signal d1) (w_tracee d1)" and hits: "program_hits S d1 t"
  shows "\<exists>d2. continue_execution S d1 = Inr d2 \<and> with_temps (image_after (armed d1) orig (t_mem t)) d xs d2 \<and>
    get_pc (w_tracee d2) (db_pid d2) = Inr (t_regs t ! 16 - 1)"
proof -
  let ?a = "t_regs t ! 16 - 1" and ?e = "d1\<lparr>db_pending_signal := 0\<rparr>"
  have att: "attached orig d1" by (rule with_temps_attached[OF w])
  have atte: "attached orig ?e" using att by (simp add: attached_def core_ok_def)
  have arm: "armed ?e = armed d1" "temp_at ?e = temp_at d1" by (simp_all add: armed_def temp_at_def fun_eq_iff)
  obtain c out where h: "code_untouched (armed d1) (w_tracee d1) t" "length (t_regs t) = 27" "armed d1 ?a"
    "t_run t = Running (WStopped 5 c)" "c \<in> {1, 0x80}"
    "print_source_at_current_pc (sys_files S) (db_syms d1) ?a 3 = Inr out"
    using hits by (auto simp: program_hits_def)
  have pid: "t_pid t = db_pid ?e" using h(1) att by (simp add: code_untouched_def attached_def)
  have un: "code_untouched (armed ?e) (w_tracee ?e) t" using h(1) arm by simp
  have at: "t_regs t ! 16 = ?a + 1" "armed ?e ?a" "print_source_at_current_pc (sys_files S) (db_syms ?e) ?a 3 = Inr out"
    using h(3,6) arm by simp_all
  obtain d2 where d2: "wait_for_signal S (?e\<lparr>w_tracee := t\<rparr>) = Inr d2"
    "attached (image_after (armed ?e) orig (t_mem t)) d2" "armed d2 = armed ?e" "w_bps d2 = w_bps ?e"
    "\<forall>l. addr_of d2 l = addr_of ?e l" "db_load_address d2 = db_load_address ?e"
    "get_pc (w_tracee d2) (db_pid d2) = Inr ?a" "\<forall>x. temp_at d2 x = temp_at ?e x"
    using breakpoint_hit[OF atte pid h(4,5) refl un at(1) h(2) at(2,3)] by blast
  have "?e\<lparr>w_tracee := t\<rparr> = d1\<lparr>w_tracee := t, db_pending_signal := 0\<rparr>" by simp
  with d2(1) have "wait_for_signal S (d1\<lparr>w_tracee := t, db_pending_signal := 0\<rparr>) = Inr d2" by simp
  then have "continue_execution S d1 = Inr d2"
    unfolding continue_not_at_breakpoint[OF att pc, of S] t[symmetric] .
  moreover have "with_temps (image_after (armed d1) orig (t_mem t)) d xs d2"
  proof -
    have f: "attached (image_after (armed d1) orig (t_mem t)) d2" "armed d2 = armed d1" "w_bps d2 = w_bps d1"
      "\<And>l. addr_of d2 l = addr_of d1 l" "temp_at d2 = temp_at d1" "db_load_address d2 = db_load_address d1"
      using d2 arm by (simp_all add: fun_eq_iff)
    show ?thesis using w f(1) unfolding with_temps_def f(2-6) by blast
  qed
  ultimately show ?thesis using d2(7) by blast
qed

lemma set_line_breakpoints_grows:
  "set_line_breakpoints dw pid e pc line cur td d1 = Inr (td', d2) \<Longrightarrow> set td \<subseteq> set td'"
proof (induction dw pid e pc line cur td d1 rule: set_line_breakpoints.induct)
  case (1 dw pid e pc line cur td d1)
  let ?line = "case dw_getsrc dw pid pc of None \<Rightarrow> line | Some src \<Rightarrow> sl_line src"
  show ?case
  proof (cases "pc < e")
    case False
    then show ?thesis using 1(3) by (simp add: set_line_breakpoints.simps)
  next
    case pc: True
    show ?thesis
    proof (cases "?line = cur")
      case True
      then have "set_line_breakpoints dw pid e (pc + 1) ?line cur td d1 = Inr (td', d2)"
        using 1(3) pc by (subst (asm) set_line_breakpoints.simps) (simp add: Let_def)
      then show ?thesis using 1(2)[OF pc refl] True by simp
    next
      case False
      then obtain ok d where s: "set_temp_bp_location pc d1 = Inr (ok, d)"
        "set_line_breakpoints dw pid e (pc + 1) ?line ?line (if ok then td @ [pc] else td) d = Inr (td', d2)"
        using 1(3) pc by (subst (asm) set_line_breakpoints.simps) (auto simp: Let_def)
      then have "set (if ok then td @ [pc] else td) \<subseteq> set td'" using 1(1)[OF pc refl False s(1) refl] by simp
      then show ?thesis by (auto split: if_splits)
    qed
  qed
qed

lemma set_line_breakpoints_temps:
  "with_temps orig d td d1 \<Longrightarrow> set_line_breakpoints dw pid e pc line cur td d1 = Inr (td', d2) \<Longrightarrow>
   \<forall>x \<in> set td'. mapped8 orig x \<Longrightarrow> with_temps orig d td' d2"
proof (induction dw pid e pc line cur td d1 rule: set_line_breakpoints.induct)
  case (1 dw pid e pc line cur td d1)
  let ?line = "case dw_getsrc dw pid pc of None \<Rightarrow> line | Some src \<Rightarrow> sl_line src"
  show ?case
  proof (cases "pc < e")
    case False
    then show ?thesis using 1(3,4) by (simp add: set_line_breakpoints.simps)
  next
    case pc: True
    show ?thesis
    proof (cases "?line = cur")
      case True
      then have "set_line_breakpoints dw pid e (pc + 1) ?line cur td d1 = Inr (td', d2)"
        using 1(4) pc by (subst (asm) set_line_breakpoints.simps) (simp add: Let_def)
      then show ?thesis using 1(2)[OF pc refl _ 1(3)] True 1(5) by simp
    next
      case False
      then obtain ok d' where s: "set_temp_bp_location pc d1 = Inr (ok, d')"
        "set_line_breakpoints dw pid e (pc + 1) ?line ?line (if ok then td @ [pc] else td) d' = Inr (td', d2)"
        using 1(4) pc by (subst (asm) set_line_breakpoints.simps) (auto simp: Let_def)
      have "mapped8 orig pc" if ok
        using set_line_breakpoints_grows[OF s(2)] that 1(5) by auto
      then have "with_temps orig d (if ok then td @ [pc] else td) d'" by (rule with_temps_set[OF 1(3) s(1)])
      then show ?thesis using 1(1)[OF pc refl False s(1) refl] s(2) 1(5) by blast
    qed
  qed
qed

lemma step_over_targets_temps:
  assumes att: "attached orig d" and r: "step_over_targets S d = Inr (Some (xs, d1))"
    and m: "\<forall>x \<in> set xs. mapped8 orig x"
  shows "with_temps orig d xs d1"
proof -
  obtain pid e pc cur td d2 name where s: "set_line_breakpoints (sy_dwarf (db_syms d)) pid e pc 0 cur [] d = Inr (td, d2)"
    "set_return_breakpoint name td d2 = Inr (xs, d1)"
  proof -
    from r obtain pc die where pc: "get_pc (w_tracee d) (db_pid d) = Inr pc"
      and die: "get_func_die_from_pc (db_syms d) pc (db_load_address d) = Inr die"
      by (cases "get_pc (w_tracee d) (db_pid d)"; cases "get_func_die_from_pc (db_syms d) (projr (get_pc (w_tracee d) (db_pid d))) (db_load_address d)")
        (simp_all add: step_over_targets_def Let_def)
    from r obtain func_die name where f: "die = Some func_die" "fd_name func_die = Some name"
      by (cases die; cases "fd_name (the die)") (simp_all add: step_over_targets_def Let_def pc die)
    from r obtain high where h: "fd_highpc func_die = Some high"
      by (cases "fd_highpc func_die") (simp_all add: step_over_targets_def Let_def pc die f)
    from r obtain pid where p: "dwfl_addrmodule (db_syms d) pc = Inr pid"
      by (cases "dwfl_addrmodule (db_syms d) pc") (simp_all add: step_over_targets_def Let_def pc die f h)
    from r obtain src where src: "dw_getsrc (sy_dwarf (db_syms d)) pid pc = Some src"
      by (cases "dw_getsrc (sy_dwarf (db_syms d)) pid pc") (simp_all add: step_over_targets_def Let_def pc die f h p)
    have "sl_line src \<noteq> 0"
      using r by (cases "sl_line src = 0") (simp_all add: step_over_targets_def Let_def pc die f h p src)
    then have "\<exists>td d2. set_line_breakpoints (sy_dwarf (db_syms d)) pid (high + db_load_address d) pc 0 (sl_line src) [] d = Inr (td, d2) \<and>
        set_return_breakpoint name td d2 = Inr (xs, d1)"
      using r by (simp add: step_over_targets_def Let_def pc die f h p src split_beta)
    then show ?thesis using that by blast
  qed
  have ends: "(xs = td \<and> d1 = d2) \<or> (\<exists>ra ok. set_temp_bp_location ra d2 = Inr (ok, d1) \<and> xs = (if ok then td @ [ra] else td))"
  proof (cases "name = ''main''")
    case True
    then show ?thesis using s(2) by (simp add: set_return_breakpoint_def)
  next
    case False
    with s(2) obtain ra where ra: "return_address d2 = Inr ra"
      by (cases "return_address d2") (simp_all add: set_return_breakpoint_def)
    with s(2) False obtain r where r: "set_temp_bp_location ra d2 = Inr r"
      by (cases "set_temp_bp_location ra d2") (simp_all add: set_return_breakpoint_def)
    obtain ok d3 where ok: "r = (ok, d3)" by (cases r)
    have "xs = (if ok then td @ [ra] else td)" "d1 = d3"
      using s(2) False ra r ok by (simp_all add: set_return_breakpoint_def)
    then show ?thesis using r ok by blast
  qed
  have sub: "set td \<subseteq> set xs" using ends by auto
  have w: "with_temps orig d td d2"
    by (rule set_line_breakpoints_temps[OF with_temps_nil[OF att] s(1)]) (use m sub in blast)
  from ends show ?thesis
  proof
    assume "\<exists>ra ok. set_temp_bp_location ra d2 = Inr (ok, d1) \<and> xs = (if ok then td @ [ra] else td)"
    then obtain ra ok where t: "set_temp_bp_location ra d2 = Inr (ok, d1)" "xs = (if ok then td @ [ra] else td)"
      by blast
    have "mapped8 orig ra" if ok using t(2) that m by simp
    then show ?thesis using with_temps_set[OF w t(1)] t(2) by simp
  qed (use w in simp)
qed

section \<open>Properties\<close>



text \<open>
  C40: a location that is switched off blocks stepping: at a disabled breakpoint \<open>stepi\<close> does not
  execute an instruction and changes nothing, and \<open>step\<close> never returns, whatever the program.
\<close>

theorem disabled_location_blocks_stepping:
  assumes att: "attached orig d" and pc: "get_pc (w_tracee d) (db_pid d) = Inr a"
    and off: "addr_of d l = Some a" "\<not> armed d a"
    and line: "get_line_from_pc (sys_files S) (db_syms d) a = Inr (Some li)" "li_line li \<noteq> 0"
  shows "single_step_instruction_with_breakpoint_check S d = Inr d \<and> (\<forall>fuel. step_in S fuel d = Inr None)"
proof -
  have mok: "map_ok (db_bp_locations d)" and m: "map_abs (db_bp_locations d) a = Some l"
    using att off(1) unfolding attached_def locs_mapped_addr by blast+
  obtain L where L: "w_locs d l = Some L" "l_running_addr L = a" using off(1) by auto
  then have "\<not> l_patched L" using off(2) by (auto simp: armed_def)
  then have one: "single_step_instruction_with_breakpoint_check S d = Inr d"
    using pc m L by (simp add: single_step_instruction_with_breakpoint_check_def hm.lookup_law[OF mok]
        execute_step_over_loc_def)
  have "step_in_loop S fuel (li_line li) fname d = Inr None" for fuel fname
    by (induction fuel arbitrary: fname) (simp_all add: pc line(1) line_no_def one)
  then show ?thesis using one line by (simp add: step_in_def pc line_no_def)
qed

section \<open>Witnesses\<close>

text \<open>
  \<open>finish\<close> in the debugger of theory Debugger_Stops: the frame pointer is 0 and the memory is
  filled with \<open>0x90\<close>, which gives the return address.
\<close>

lemma demo_return_address: "return_address demo_before_bp = Inr 0x9090909090909090"
proof -
  have m: "t_mem (w_tracee demo_before_bp) = demo_mem(0x1000 \<mapsto> 0xCC)" by (simp add: demo_before_bp_def)
  have "mapped8 (t_mem (w_tracee demo_before_bp)) 8" unfolding m by simp
  moreover have "load64 (t_mem (w_tracee demo_before_bp)) 8 = 0x9090909090909090"
    unfolding m load64_def by (simp add: demo_mem_def) code_simp
  ultimately show ?thesis
    by (simp add: return_address_def get_register_value_def read_memory_def ptrace_peekdata_def is_stopped_def sizeof_user_regs_def)
qed

lemma demo_finish_set:
  "\<exists>d1. set_temp_bp_location 0x9090909090909090 demo_before_bp = Inr (True, d1) \<and> db_pid d1 = 7 \<and>
     is_stopped (w_tracee d1) 7 \<and> t_pid (w_tracee d1) = 7 \<and> t_regs (w_tracee d1) = replicate 27 0 \<and>
     (\<forall>x. armed d1 x \<longleftrightarrow> x = 0x9090909090909090 \<or> x = 0x1000) \<and> sy_has_dwarf (db_syms d1) = False"
proof -
  have att: "attached demo_mem demo_before_bp" using demo_before_bp_session by (rule session_attached)
  have ad: "addr_of demo_before_bp k \<noteq> Some 0x9090909090909090" for k
    by (auto simp: demo_before_bp_def demo_at_bp_def split: if_splits)
  obtain d1 where d1: "set_temp_bp_location 0x9090909090909090 demo_before_bp = Inr (True, d1)"
    "\<forall>x. armed d1 x \<longleftrightarrow> x = 0x9090909090909090 \<or> armed demo_before_bp x"
    "rest_same (demo_before_bp\<lparr>db_bp_locations := db_bp_locations d1\<rparr>) d1"
    using set_temp_fresh[OF att _ demo_mapped ad] by auto
  note m = more_fields[OF rest_same_more[OF d1(3)]]
  show ?thesis using d1 m by (auto simp: rest_same_def is_stopped_def)
qed

definition demo_returns :: "run_state \<Rightarrow> system" where
  "demo_returns r = (demo_system Dead)\<lparr>sys_program := (sys_program (demo_system Dead))
     \<lparr>env_cont := (\<lambda>_ t. t\<lparr>t_run := r, t_regs := (t_regs t)[16 := 0x9090909090909091]\<rparr>)\<rparr>\<rparr>"



theorem disabled_location_blocks_stepping_witness:
  "\<exists>d. get_pc (w_tracee d) (db_pid d) = Inr 0x1000 \<and>
     single_step_instruction_with_breakpoint_check (demo_system Dead) d = Inr d \<and>
     (\<forall>fuel. step_in (demo_system Dead) fuel d = Inr None)"
proof -
  let ?t = "demo_tracee\<lparr>t_regs := (replicate 27 0)[16 := 0x1000]\<rparr>"
  let ?d = "demo_debugger\<lparr>w_tracee := ?t\<rparr>"
  have arm: "\<not> armed ?d x" for x by (auto simp: armed_def split: if_splits)
  have un: "code_untouched (armed demo_debugger) (w_tracee demo_debugger) ?t" by (simp add: code_untouched_def)
  have r: "t_run ?t = Stopped 5 128" by simp
  have att: "attached (image_after (armed demo_debugger) demo_mem (t_mem ?t)) ?d"
    using session_attached[OF session_run[OF demo_session un r]] by simp
  have pc: "get_pc (w_tracee ?d) (db_pid ?d) = Inr 0x1000" by (simp add: get_pc_stopped is_stopped_def)
  have ad: "addr_of ?d 3 = Some 0x1000" by (simp add: demo_loc_def)
  obtain li where li: "get_line_from_pc (sys_files (demo_system Dead)) (db_syms ?d) 0x1000 = Inr (Some li)" "li_line li \<noteq> 0"
    by (simp add: get_line_from_pc_def dwfl_addrmodule_def demo_syms_def demo_dwarf_def)
  show ?thesis using disabled_location_blocks_stepping[OF att pc ad arm li] pc by blast
qed

end
