(* ===== verification/Stepping_Runs.thy ===== *)
theory Stepping_Runs
  imports Stepping_Props
begin

text \<open>
  What \<open>step\<close> and \<open>backtrace\<close> show of the program itself. The reference is the program alone:
  the tracee with its own bytes in place of the patches, one instruction after the other.
\<close>

section \<open>The program alone\<close>

text \<open>
  The memory \<open>m\<close> with \<open>0xcc\<close> at the addresses in \<open>B\<close>, one instruction without a debugger's
  patches, and the tracee of a session without its patches.
\<close>

definition patched_with :: "(u64 \<Rightarrow> bool) \<Rightarrow> (u64 \<Rightarrow> u8 option) \<Rightarrow> u64 \<Rightarrow> u8 option" where
  "patched_with B m = (\<lambda>x. if B x then Some 0xCC else m x)"

definition native_step :: "system \<Rightarrow> tracee \<Rightarrow> tracee" where
  "native_step S t = (env_step (sys_program S) t)\<lparr>t_run := Stopped 5 2\<rparr>"

definition native :: "(u64 \<Rightarrow> u8 option) \<Rightarrow> debugger \<Rightarrow> tracee" where
  "native orig d = (w_tracee d)\<lparr>t_mem := orig, t_run := Stopped 5 2\<rparr>"

text \<open>
  What is assumed of the program at one instruction: it is traced and survives, keeps its
  mappings and the bytes at the addresses in \<open>A\<close>, does not depend on how the process was
  stopped, and, since instructions access nothing but their own bytes and their
  operands, has the same effect when bytes in \<open>A\<close> other than at its address are replaced.
\<close>

definition tame_at :: "system \<Rightarrow> (u64 \<Rightarrow> bool) \<Rightarrow> tracee \<Rightarrow> bool" where
  "tame_at S A t \<longleftrightarrow> (let t' = env_step (sys_program S) t in
     t_run t' = Running (WStopped 5 2) \<and> t_pid t' = t_pid t \<and> length (t_regs t') = 27 \<and>
     (\<forall>x. t_mem t x \<noteq> None \<longrightarrow> t_mem t' x \<noteq> None) \<and> (\<forall>x. A x \<longrightarrow> t_mem t' x = t_mem t x) \<and>
     (\<forall>B r. (\<forall>x. B x \<longrightarrow> A x \<and> x \<noteq> t_regs t ! 16) \<longrightarrow>
        env_step (sys_program S) (t\<lparr>t_mem := patched_with B (t_mem t), t_run := r\<rparr>) =
        t'\<lparr>t_mem := patched_with B (t_mem t')\<rparr>))"

lemma native_sel [simp]:
  "t_mem (native orig d) = orig" "t_regs (native orig d) = t_regs (w_tracee d)"
  "t_pid (native orig d) = t_pid (w_tracee d)"
  by (simp_all add: native_def)

lemma native_step_sel [simp]:
  "t_mem (native_step S t) = t_mem (env_step (sys_program S) t)"
  "t_regs (native_step S t) = t_regs (env_step (sys_program S) t)"
  "t_pid (native_step S t) = t_pid (env_step (sys_program S) t)"
  by (simp_all add: native_step_def)

lemma image_patched:
  "attached orig d \<Longrightarrow> t_mem (w_tracee d) = patched_with (armed d) orig"
  by (simp add: attached_def patch_ok_def shows_image_def patched_with_def fun_eq_iff)

lemma patched_kept:
  assumes "\<forall>x. m x \<noteq> None \<longrightarrow> m' x \<noteq> None" "mapped8 (patched_with B m) a"
  shows "mapped8 (patched_with B m') a"
proof -
  have "patched_with B m' x \<noteq> None" if "patched_with B m x \<noteq> None" for x
    using that assms(1) by (metis patched_with_def option.distinct(1))
  then show ?thesis using assms(2) by (simp add: mapped8_def)
qed

lemma tame_patched:
  assumes tm: "tame_at S A (native orig d)" and att: "attached orig d" and B: "\<forall>x. B x \<longrightarrow> A x \<and> x \<noteq> t_regs (w_tracee d) ! 16"
    and w: "t = (w_tracee d)\<lparr>t_mem := patched_with B orig\<rparr>"
  shows "env_step (sys_program S) t = (env_step (sys_program S) (native orig d))
      \<lparr>t_mem := patched_with B (t_mem (native_step S (native orig d)))\<rparr>"
    "code_untouched B t (env_step (sys_program S) t)"
    "t_run (env_step (sys_program S) t) = Running (WStopped 5 2)"
    "image_after B orig (t_mem (env_step (sys_program S) t)) = t_mem (native_step S (native orig d))"
proof -
  let ?t0 = "native orig d" let ?t1 = "env_step (sys_program S) ?t0"
  have t: "t = ?t0\<lparr>t_mem := patched_with B (t_mem ?t0), t_run := t_run (w_tracee d)\<rparr>"
    by (simp add: w native_def)
  have T: "t_run ?t1 = Running (WStopped 5 2)" "t_pid ?t1 = t_pid ?t0" "length (t_regs ?t1) = 27"
    "\<forall>x. t_mem ?t0 x \<noteq> None \<longrightarrow> t_mem ?t1 x \<noteq> None" "\<forall>x. A x \<longrightarrow> t_mem ?t1 x = t_mem ?t0 x"
    "\<forall>B r. (\<forall>x. B x \<longrightarrow> A x \<and> x \<noteq> t_regs ?t0 ! 16) \<longrightarrow>
        env_step (sys_program S) (?t0\<lparr>t_mem := patched_with B (t_mem ?t0), t_run := r\<rparr>) =
        ?t1\<lparr>t_mem := patched_with B (t_mem ?t1)\<rparr>"
    using tm unfolding tame_at_def Let_def by blast+
  have e: "env_step (sys_program S) t = ?t1\<lparr>t_mem := patched_with B (t_mem ?t1)\<rparr>"
    unfolding t using T(6) B by simp
  then show "env_step (sys_program S) t = ?t1\<lparr>t_mem := patched_with B (t_mem (native_step S ?t0))\<rparr>" by simp
  show "t_run (env_step (sys_program S) t) = Running (WStopped 5 2)" using e T(1) by simp
  have m: "t_mem ?t1 x = orig x" if "B x" for x using T(5) B that by simp
  show "code_untouched B t (env_step (sys_program S) t)"
    unfolding e code_untouched_def using T(2) patched_kept[OF T(4)] by (auto simp: w patched_with_def)
  show "image_after B orig (t_mem (env_step (sys_program S) t)) = t_mem (native_step S ?t0)"
    unfolding e using m by (auto simp: image_after_def patched_with_def fun_eq_iff)
qed

text \<open>
  One instruction of \<open>stepi\<close> and \<open>step\<close>, at a breakpoint or elsewhere, but not at a location
  that is switched off: to the program it is one instruction without the debugger.
\<close>

lemma single_step_native:
  assumes ok: "session_ok orig d" and pc: "a = t_regs (w_tracee d) ! 16"
    and on: "\<And>l. addr_of d l = Some a \<Longrightarrow> armed d a" and tm: "tame_at S (armed d) (native orig d)"
  shows "\<exists>d'. single_step_instruction_with_breakpoint_check S d = Inr d' \<and>
    session_ok (t_mem (native_step S (native orig d))) d' \<and>
    native (t_mem (native_step S (native orig d))) d' = native_step S (native orig d) \<and>
    armed d' = armed d \<and> w_bps d' = w_bps d \<and> (\<forall>l. addr_of d' l = addr_of d l) \<and>
    bp_world.more d' = bp_world.more d \<and> (\<forall>x. temp_at d' x = temp_at d x) \<and> w_tracee d' = (w_tracee d')\<lparr>t_run := Stopped 5 2\<rparr>"
proof -
  have att: "attached orig d" by (rule session_attached[OF ok])
  then have stp: "is_stopped (w_tracee d) (db_pid d)" by (simp add: attached_def patch_ok_def sites_ok_def)
  from att have mok: "map_ok (db_bp_locations d)"
    and mp: "\<And>l. map_abs (db_bp_locations d) a = Some l \<longleftrightarrow> addr_of d l = Some a"
    unfolding attached_def locs_mapped_addr by blast+
  have pc': "get_pc (w_tracee d) (db_pid d) = Inr a" using get_pc_stopped[OF stp] pc by simp
  let ?n = "native_step S (native orig d)"
  show ?thesis
  proof (cases "armed d a")
    case True
    let ?B = "\<lambda>x. armed d x \<and> x \<noteq> a"
    have u: "unpatched_at a orig (w_tracee d) = (w_tracee d)\<lparr>t_mem := patched_with ?B orig\<rparr>"
      by (auto simp: unpatched_at_def image_patched[OF att] patched_with_def fun_eq_iff)
    note T = tame_patched[OF tm att _ u]
    obtain d' where d': "step_over_breakpoint S d = Inr d'"
      "attached (image_after ?B orig (t_mem (env_step (sys_program S) (unpatched_at a orig (w_tracee d))))) d'"
      "armed d' = armed d" "w_bps d' = w_bps d" "\<forall>l. addr_of d' l = addr_of d l"
      "w_tracee d' = (env_step (sys_program S) (unpatched_at a orig (w_tracee d)))
         \<lparr>t_run := Stopped 5 2, t_mem := (t_mem (env_step (sys_program S) (unpatched_at a orig (w_tracee d))))(a \<mapsto> 0xCC)\<rparr>"
      "bp_world.more d' = bp_world.more d" "\<forall>x. temp_at d' x = temp_at d x"
      using step_over_ok[OF att pc' True refl T(2,3)] pc by blast
    obtain l where l: "addr_of d l = Some a" using True by (auto simp: armed_addr)
    then have "map_abs (db_bp_locations d) a = Some l" using mp by blast
    then have "single_step_instruction_with_breakpoint_check S d = step_over_breakpoint S d"
      using pc' mok by (simp add: single_step_instruction_with_breakpoint_check_def step_over_breakpoint_def hm.lookup_law)
    moreover have "db_load_address d' = db_load_address d" using more_fields[OF d'(7)] by simp
    then have "session_ok (t_mem ?n) d'"
      using session_same_sites[OF ok d'(2,4,5)] T(4) pc by simp
    moreover have "native (t_mem ?n) d' = ?n" using d'(6) T(1) pc by (simp add: native_def native_step_def)
    ultimately show ?thesis using d' by auto
  next
    case False
    have w: "w_tracee d = (w_tracee d)\<lparr>t_mem := patched_with (armed d) orig\<rparr>"
      using image_patched[OF att] by simp
    have B: "\<forall>x. armed d x \<longrightarrow> armed d x \<and> x \<noteq> t_regs (w_tracee d) ! 16" using False pc by auto
    note T = tame_patched[OF tm att B w]
    have "map_abs (db_bp_locations d) a = None" using mp on False by (metis not_None_eq)
    then have s: "single_step_instruction_with_breakpoint_check S d = single_step_instruction S d"
      using pc' mok by (simp add: single_step_instruction_with_breakpoint_check_def hm.lookup_law)
    let ?d' = "d\<lparr>w_tracee := (env_step (sys_program S) (w_tracee d))\<lparr>t_run := Stopped 5 2\<rparr>\<rparr>"
    have d': "single_step_instruction S d = Inr ?d'" "attached (t_mem ?n) ?d'"
      using single_step_trace[OF att refl T(2,3)] T(4) by simp_all
    have "session_ok (t_mem ?n) ?d'" by (rule session_same_sites[OF ok d'(2)]) simp_all
    moreover have "native (t_mem ?n) ?d' = ?n" using T(1) by (simp add: native_def native_step_def)
    moreover have "armed ?d' = armed d" by (simp add: armed_def fun_eq_iff)
    moreover have "temp_at ?d' x = temp_at d x" for x by (simp add: temp_at_def)
    ultimately show ?thesis unfolding s using d'(1) by (intro exI[of _ ?d']) simp
  qed
qed

section \<open>Lines\<close>

text \<open>The program counter of a stopped tracee, and whether \<open>step\<close> can execute the instruction there.\<close>

definition pc_of :: "tracee \<Rightarrow> u64" where
  "pc_of t = t_regs t ! 16"

definition can_step :: "system \<Rightarrow> debugger \<Rightarrow> tracee \<Rightarrow> bool" where
  "can_step S d t \<longleftrightarrow> tame_at S (armed d) t \<and> (\<forall>l. addr_of d l = Some (pc_of t) \<longrightarrow> armed d (pc_of t))"

text \<open>States of one session that differ in what the program did and in the output only.\<close>

definition same_session :: "debugger \<Rightarrow> debugger \<Rightarrow> bool" where
  "same_session d d' \<longleftrightarrow> armed d' = armed d \<and> w_bps d' = w_bps d \<and> (\<forall>l. addr_of d' l = addr_of d l) \<and>
     bp_world.more d' = bp_world.more d \<and> (\<forall>x. temp_at d' x = temp_at d x)"

lemma same_session_refl [simp]: "same_session d d"
  by (simp add: same_session_def)

lemma same_session_trans: "same_session d e \<Longrightarrow> same_session e f \<Longrightarrow> same_session d f"
  by (simp add: same_session_def)

lemma same_session_syms: "same_session d d' \<Longrightarrow> db_syms d' = db_syms d"
  using more_fields(10)[of d' d] by (simp add: same_session_def)

lemma step_in_loop_native:
  assumes "session_ok orig d"
    and "\<And>i. i < n \<Longrightarrow> can_step S d ((native_step S ^^ i) (native orig d))"
    and "\<And>i. i < n \<Longrightarrow> \<exists>li. get_line_from_pc (sys_files S) (db_syms d)
        (pc_of ((native_step S ^^ i) (native orig d))) = Inr (Some li) \<and> li_line li = line"
    and "get_line_from_pc (sys_files S) (db_syms d) (pc_of ((native_step S ^^ n) (native orig d))) = Inr (Some li')"
      "li_line li' \<noteq> line"
  shows "\<exists>d' orig'. step_in_loop S (Suc (n + k)) line fname d = Inr (Some (li_line li', li_file li', d')) \<and>
    session_ok orig' d' \<and> native orig' d' = (native_step S ^^ n) (native orig d) \<and> same_session d d'"
  using assms
proof (induction n arbitrary: d orig fname)
  case 0
  have "is_stopped (w_tracee d) (db_pid d)"
    using session_attached[OF 0(1)] by (simp add: attached_def patch_ok_def sites_ok_def)
  then have "get_pc (w_tracee d) (db_pid d) = Inr (pc_of (native orig d))" by (simp add: get_pc_stopped pc_of_def)
  then have "step_in_loop S (Suc (0 + k)) line fname d = Inr (Some (li_line li', li_file li', d))"
    using 0(4,5) by (simp add: line_no_def)
  then show ?case using 0(1) by fastforce
next
  case (Suc n)
  let ?t = "native orig d"
  have "is_stopped (w_tracee d) (db_pid d)"
    using session_attached[OF Suc(2)] by (simp add: attached_def patch_ok_def sites_ok_def)
  then have pc: "get_pc (w_tracee d) (db_pid d) = Inr (pc_of ?t)" by (simp add: get_pc_stopped pc_of_def)
  have c: "can_step S d ?t" using Suc(3)[of 0] by simp
  obtain li where li: "get_line_from_pc (sys_files S) (db_syms d) (pc_of ?t) = Inr (Some li)" "li_line li = line"
    using Suc(4)[of 0] by auto
  obtain d1 where d1: "single_step_instruction_with_breakpoint_check S d = Inr d1"
    "session_ok (t_mem (native_step S ?t)) d1" "native (t_mem (native_step S ?t)) d1 = native_step S ?t"
    "same_session d d1"
    using single_step_native[OF Suc(2) refl, of S] c by (auto simp: can_step_def pc_of_def same_session_def)
  have iter: "(native_step S ^^ i) (native_step S ?t) = (native_step S ^^ Suc i) ?t" for i
    by (simp add: funpow_swap1)
  have "can_step S d1 t = can_step S d t" for t using d1(4) by (simp add: can_step_def same_session_def)
  then have "\<exists>d' orig'. step_in_loop S (Suc (n + k)) line (li_file li) d1 = Inr (Some (li_line li', li_file li', d')) \<and>
      session_ok orig' d' \<and> native orig' d' = (native_step S ^^ n) (native (t_mem (native_step S ?t)) d1) \<and> same_session d1 d'"
    using Suc(3)[of "Suc _"] Suc(4)[of "Suc _"] Suc(5,6)
    by (intro Suc.IH) (simp_all only: d1(2,3) iter same_session_syms[OF d1(4)] Suc_less_eq simp_thms)
  moreover have "step_in_loop S (Suc (Suc n + k)) line fname d = step_in_loop S (Suc (n + k)) line (li_file li) d1"
    using pc li d1(1) by (simp add: line_no_def)
  ultimately show ?case using same_session_trans[OF d1(4)] d1(3) iter[of n] by metis
qed

section \<open>Properties of stepping by lines\<close>

text \<open>
  C6: \<open>step\<close> shows the program as it runs without a debugger: over any number of instructions
  of one line, through breakpoints in it, the tracee (its registers, and its memory without the
  patches) goes through the states of the program alone, and stops at its first instruction
  that belongs to another line; the breakpoints and their patches are as before.
\<close>

theorem step_runs_to_next_line:
  assumes ok: "session_ok orig d"
    and steps: "\<And>i. i < n \<Longrightarrow> can_step S d ((native_step S ^^ i) (native orig d))"
    and first: "get_line_from_pc (sys_files S) (db_syms d) (pc_of (native orig d)) = Inr (Some li)" "li_line li \<noteq> 0"
    and same: "\<And>i. i < n \<Longrightarrow> \<exists>li'. get_line_from_pc (sys_files S) (db_syms d)
        (pc_of ((native_step S ^^ i) (native orig d))) = Inr (Some li') \<and> li_line li' = li_line li"
    and other: "get_line_from_pc (sys_files S) (db_syms d) (pc_of ((native_step S ^^ n) (native orig d))) = Inr (Some li')"
      "li_line li' \<noteq> li_line li" "word_of_int (li_line li') \<noteq> (0 :: u32)"
  shows "\<exists>d' orig'. step_in S (Suc (n + k)) d = Inr (Some d') \<and> session_ok orig' d' \<and>
    native orig' d' = (native_step S ^^ n) (native orig d) \<and>
    armed d' = armed d \<and> w_bps d' = w_bps d \<and> db_pending_breakpoints d' = db_pending_breakpoints d"
proof -
  obtain d1 orig' where d1: "step_in_loop S (Suc (n + k)) (li_line li) (li_file li) d = Inr (Some (li_line li', li_file li', d1))"
    "session_ok orig' d1" "native orig' d1 = (native_step S ^^ n) (native orig d)" "same_session d d1"
    using step_in_loop_native[OF ok steps same other(1,2), of k "li_file li"] by blast
  have "is_stopped (w_tracee d) (db_pid d)"
    using session_attached[OF ok] by (simp add: attached_def patch_ok_def sites_ok_def)
  then have pc: "get_pc (w_tracee d) (db_pid d) = Inr (pc_of (native orig d))" by (simp add: get_pc_stopped pc_of_def)
  have "\<exists>items. (if sy_has_dwarf (db_syms d1)
      then print_source (hf_bytes (sys_files S) (li_file li')) (word_of_int (li_line li')) 3 else Inr None) = Inr items"
    using other(3) by (cases "hf_bytes (sys_files S) (li_file li')") (simp_all add: print_source_def split: prod.split)
  then obtain items where items: "(if sy_has_dwarf (db_syms d1)
      then print_source (hf_bytes (sys_files S) (li_file li')) (word_of_int (li_line li')) 3 else Inr None) = Inr items"
    by blast
  let ?d' = "case print_src_file_outdated_warning (li_is_old li) items of None \<Rightarrow> d1 | Some is \<Rightarrow> say (Out_Source is) d1"
  have "step_in S (Suc (n + k)) d = Inr (Some ?d')"
    using pc first d1(1) items by (simp add: step_in_def line_no_def del: step_in_loop.simps)
  moreover have "session_ok orig' ?d'" "native orig' ?d' = native orig' d1" "armed ?d' = armed d1" "w_bps ?d' = w_bps d1"
    "db_pending_breakpoints ?d' = db_pending_breakpoints d1"
    using d1(2) by (simp_all add: native_def armed_def fun_eq_iff split: option.split)
  moreover have "db_pending_breakpoints d1 = db_pending_breakpoints d"
    using d1(4) more_fields(7)[of d1 d] by (simp add: same_session_def)
  ultimately show ?thesis using d1(3,4) by (intro exI[of _ ?d'] exI[of _ orig']) (simp add: same_session_def)
qed

text \<open>A program that walks from \<open>0xfff\<close> through the breakpoint at \<open>0x1000\<close> to a new line at \<open>0x1001\<close>.\<close>

definition demo_walk :: debugger where
  "demo_walk = demo_at_bp\<lparr>w_tracee := (w_tracee demo_at_bp)\<lparr>t_regs := (replicate 27 0)[16 := 0xFFF]\<rparr>,
     db_syms := demo_syms\<lparr>sy_dwarf := demo_dwarf\<lparr>dw_getsrc := (\<lambda>_ pc.
       Some \<lparr>sl_file = Some ''main.c'', sl_line = (if pc < 0x1001 then 4 else 5), sl_comp_dir = None\<rparr>)\<rparr>\<rparr>\<rparr>"

lemma demo_walk_session: "session_ok demo_mem demo_walk"
proof -
  let ?t = "(w_tracee demo_at_bp)\<lparr>t_regs := (replicate 27 0)[16 := 0xFFF]\<rparr>"
  have r: "t_run ?t = Stopped 5 128" by simp
  have "code_untouched (armed demo_at_bp) (w_tracee demo_at_bp) ?t" by (simp add: code_untouched_def)
  from session_run[OF demo_at_bp_session this r]
  have s: "session_ok (image_after (armed demo_at_bp) demo_mem (t_mem ?t)) (demo_at_bp\<lparr>w_tracee := ?t\<rparr>)" by simp
  have "image_after (armed demo_at_bp) demo_mem (t_mem ?t) = demo_mem"
    by (auto simp: image_after_def fun_eq_iff)
  then show ?thesis
    using s by (simp add: demo_walk_def session_ok_def attached_def core_ok_def located_def locs_mapped_def)
qed

lemma demo_tame: "length (t_regs t) = 27 \<Longrightarrow> tame_at (demo_system r) A t"
  by (auto simp: tame_at_def Let_def demo_system_def demo_step_def)

theorem step_runs_to_next_line_witness:
  "\<exists>d'. step_in (demo_system Dead) 3 demo_walk = Inr (Some d') \<and> t_regs (w_tracee d') ! 16 = 0x1001 \<and>
     armed d' 0x1000"
proof -
  let ?S = "demo_system Dead"
  have w: "t_regs (w_tracee demo_walk) = (replicate 27 0)[16 := 0xFFF]" "armed demo_walk x \<longleftrightarrow> x = 0x1000" for x
    by (auto simp: demo_walk_def armed_def demo_at_bp_def split: if_splits)
  have ns: "t_regs (env_step (sys_program ?S) t) = (t_regs t)[16 := t_regs t ! 16 + 1]" for t
    by (simp add: demo_system_def demo_step_def)
  have line: "get_line_from_pc (sys_files ?S) (db_syms demo_walk) pc =
      Inr (Some \<lparr>li_line = (if pc < 0x1001 then 4 else 5), li_file = ''main.c'', li_comp_dir = None, li_is_old = False\<rparr>)" for pc
    by (simp add: get_line_from_pc_def dwfl_addrmodule_def demo_walk_def demo_syms_def demo_dwarf_def demo_system_def)
  have regs: "t_regs ((native_step ?S ^^ i) (native demo_mem demo_walk)) = (replicate 27 0)[16 := 0xFFF + of_nat i]" for i
    by (induction i) (simp_all add: w ns)
  have small: "i < 2 \<Longrightarrow> i = 0 \<or> i = 1" for i :: nat by auto
  have ad: "x = 0x1000" if "addr_of demo_walk l = Some x" for l x
    using that by (auto simp: demo_walk_def demo_at_bp_def demo_loc_def split: if_splits)
  have can: "can_step ?S demo_walk ((native_step ?S ^^ i) (native demo_mem demo_walk))" for i
    unfolding can_step_def using ad w(2) by (auto intro: demo_tame simp: regs)
  have same: "\<exists>li'. get_line_from_pc (sys_files ?S) (db_syms demo_walk)
      (pc_of ((native_step ?S ^^ i) (native demo_mem demo_walk))) = Inr (Some li') \<and> li_line li' = 4" if "i < 2" for i
    using small[OF that] unfolding line by (auto simp: pc_of_def regs)
  obtain d' orig' where "step_in ?S (Suc (2 + 0)) demo_walk = Inr (Some d')"
    "native orig' d' = (native_step ?S ^^ 2) (native demo_mem demo_walk)" "armed d' = armed demo_walk"
    using step_runs_to_next_line[OF demo_walk_session can line _ _ line, of 2 0] same
    by (auto simp: pc_of_def regs w)
  moreover have "t_regs (w_tracee d') ! 16 = 0x1001"
  proof -
    have "t_regs (w_tracee d') = (replicate 27 0)[16 := 0x1001]"
      using calculation(2) regs[of 2] native_sel(2)[of orig' d'] by simp
    then show ?thesis by simp
  qed
  ultimately show ?thesis by (auto simp: w numeral_3_eq_3)
qed

section \<open>The backtrace\<close>

text \<open>
  The frame of a program counter, as \<open>backtrace\<close> means to show it: the function it lies in,
  and its line, with the path of the file relative to the compilation directory.
\<close>

definition frame_at :: "system \<Rightarrow> debugger \<Rightarrow> u64 \<Rightarrow> string \<Rightarrow> string \<Rightarrow> int \<Rightarrow> bool" where
  "frame_at S d pc f path line \<longleftrightarrow> (\<exists>die li.
     get_func_die_from_pc (db_syms d) pc (db_load_address d) = Inr (Some die) \<and> fd_name die = Some f \<and>
     get_line_from_pc (sys_files S) (db_syms d) pc = Inr (Some li) \<and> li_line li = line \<and>
     (li_comp_dir li = None \<and> li_file li = path \<or>
      (\<exists>dir. li_comp_dir li = Some dir \<and> li_file li = dir @ ''/'' @ path)))"

text \<open>The innermost frame is complete: its function has executed its first instruction.\<close>

definition past_entry :: "system \<Rightarrow> debugger \<Rightarrow> u64 \<Rightarrow> bool" where
  "past_entry S d pc \<longleftrightarrow>
     (\<exists>die low. get_func_die_from_pc (db_syms d) pc (db_load_address d) = Inr (Some die) \<and>
        fd_lowpc die = Some low \<and> low \<noteq> pc - db_load_address d) \<and>
     (\<exists>li. get_line_from_pc (sys_files S) (db_syms d) pc = Inr (Some li) \<and> \<not> li_is_old li)"

text \<open>
  The chain of calls from the frame with the base pointer \<open>fp\<close> outwards: a caller continues
  at the address above the saved base pointer; \<open>main\<close> is the last frame shown.
\<close>

inductive call_chain :: "system \<Rightarrow> debugger \<Rightarrow> u64 \<Rightarrow> u64 \<Rightarrow> (u64 \<times> string \<times> string \<times> int) list \<Rightarrow> bool"
  for S d where
  outermost: "frame_at S d pc ''main'' path line \<Longrightarrow> call_chain S d fp pc [(pc, ''main'', path, line)]"
| called: "frame_at S d pc f path line \<Longrightarrow> f \<noteq> ''main'' \<Longrightarrow>
    call_chain S d (read_memory (w_tracee d) (db_pid d) fp) (read_memory (w_tracee d) (db_pid d) (fp + 8)) fs \<Longrightarrow>
    call_chain S d fp pc ((pc, f, path, line) # fs)"

inductive_cases call_chain_NilE: "call_chain S d fp pc []"
inductive_cases call_chain_ConsE: "call_chain S d fp pc (fr # fs)"

definition say_frame :: "u64 \<times> string \<times> string \<times> int \<Rightarrow> debugger \<Rightarrow> debugger" where
  "say_frame fr = (case fr of (pc, f, path, line) \<Rightarrow> say (Out_Frame pc f path line))"

lemma relative_path_below: "relative_path (dir @ CHR ''/'' # path) dir = Inr (CHR ''/'' # path)"
  by (induction dir) simp_all

lemma print_frame_at:
  assumes "frame_at S d pc f path line" "w_tracee d' = w_tracee d" "db_pid d' = db_pid d"
    "db_syms d' = db_syms d" "db_load_address d' = db_load_address d"
  shows "print_frame S pc False d' = Inr (Some f, say_frame (pc, f, path, line) d')"
  using assms unfolding frame_at_def
  by (auto simp: print_frame_def say_frame_def relative_path_below drop_slash_def)

lemma print_first_frame:
  assumes "frame_at S d pc f path line" "past_entry S d pc"
  shows "print_frame S pc True d = Inr (Some f, say_frame (pc, f, path, line) d)"
  using assms unfolding frame_at_def past_entry_def
  by (auto simp: print_frame_def say_frame_def relative_path_below drop_slash_def)

lemma say_frame_sel [simp]:
  "w_tracee (say_frame fr d) = w_tracee d" "db_pid (say_frame fr d) = db_pid d"
  "db_syms (say_frame fr d) = db_syms d" "db_load_address (say_frame fr d) = db_load_address d"
  by (simp_all add: say_frame_def split: prod.splits)

lemma backtrace_loop_step:
  "f \<noteq> ''main'' \<Longrightarrow> print_frame S ra False d = Inr (Some g, d1) \<Longrightarrow>
   backtrace_loop S (Suc fuel) f fp ra d =
     (let fp' = read_memory (w_tracee d1) (db_pid d1) fp
      in backtrace_loop S fuel g fp' (read_memory (w_tracee d1) (db_pid d1) (fp' + 8)) d1)"
  by (simp add: Let_def)

lemma backtrace_loop_chain:
  "call_chain S d fp pc fs \<Longrightarrow> w_tracee e = w_tracee d \<Longrightarrow> db_pid e = db_pid d \<Longrightarrow> db_syms e = db_syms d \<Longrightarrow>
   db_load_address e = db_load_address d \<Longrightarrow>
   backtrace_loop S (length fs + k) (fst (snd (hd fs))) fp (read_memory (w_tracee d) (db_pid d) (fp + 8)) e =
     Inr (Some (fold say_frame (tl fs) e))"
proof (induction arbitrary: e rule: call_chain.induct)
  case (called pc f path line fp fs)
  let ?fp = "read_memory (w_tracee d) (db_pid d) fp" and ?pc = "read_memory (w_tracee d) (db_pid d) (fp + 8)"
  obtain g p l fs' where fs: "fs = (?pc, g, p, l) # fs'" "frame_at S d ?pc g p l"
    using called(3) by (cases rule: call_chain.cases) auto
  let ?e = "say_frame (?pc, g, p, l) e"
  have "backtrace_loop S (length fs + k) g ?fp (read_memory (w_tracee d) (db_pid d) (?fp + 8)) ?e =
      Inr (Some (fold say_frame fs' ?e))"
    using called(4)[of ?e] called(5-8) fs(1) by simp
  then show ?case
    using backtrace_loop_step[OF called(2) print_frame_at[OF fs(2) called(5-8)], of "length fs + k" fp]
    by (simp add: fs(1) called(5,6) Let_def del: backtrace_loop.simps)
qed simp


text \<open>A function \<open>f\<close> called from \<open>main\<close>.\<close>

definition demo_nested :: debugger where
  "demo_nested = demo_debugger\<lparr>w_tracee := demo_tracee\<lparr>t_regs := (replicate 27 0)[16 := 0x150]\<rparr>,
     db_syms := demo_syms\<lparr>sy_dwarf := demo_dwarf\<lparr>dw_addrdie := (\<lambda>_ _. Some (demo_cu\<lparr>cu_funcs :=
       [\<lparr>fd_name = Some ''f'', fd_lowpc = Some 0x100, fd_highpc = Some 0x200\<rparr>,
        \<lparr>fd_name = Some ''main'', fd_lowpc = Some 0x9090909090900000, fd_highpc = Some 0x90909090909F0000\<rparr>]\<rparr>))\<rparr>\<rparr>\<rparr>"


end
