(* ===== verification/Session_Frame.thy ===== *)
theory Session_Frame
  imports Stepping_Runs
begin

text \<open>
  What the program can see of the debugger. Operations on breakpoints reach the tracee only
  through writes of its memory (\<open>pokes\<close>), and in a session those writes stay behind the image
  of the program (\<open>calm\<close>): its registers, its state and its own bytes are what they were.
\<close>

section \<open>Operations that only write memory\<close>

definition pokes :: "'a bp_world_scheme \<Rightarrow> 'a bp_world_scheme \<Rightarrow> bool" where
  "pokes w w' \<longleftrightarrow> (\<exists>m. w_tracee w' = (w_tracee w)\<lparr>t_mem := m\<rparr>)"

lemma pokes_same: "w_tracee w' = w_tracee w \<Longrightarrow> pokes w w'"
  unfolding pokes_def by (rule exI[of _ "t_mem (w_tracee w)"]) simp

lemma pokes_refl [simp]: "pokes w w"
  by (rule pokes_same) simp

lemma pokes_trans: "pokes u v \<Longrightarrow> pokes v w \<Longrightarrow> pokes u w"
  by (auto simp: pokes_def)

lemma pokes_repatch: "pokes w (repatch l v sd m w)"
  by (auto simp: pokes_def repatch_def)

lemma pokes_loc:
  "loc_enable l w = Inr w' \<Longrightarrow> pokes w w'" "loc_disable l w = Inr w' \<Longrightarrow> pokes w w'"
proof -
  have e: "w' = repatch l v sd m w \<Longrightarrow> pokes w w'" for v sd m by (simp add: pokes_repatch)
  have L: "\<exists>L. w_locs w l = Some L" if "loc_enable l w = Inr w' \<or> loc_disable l w = Inr w'"
    using that by (auto simp: loc_enable_def loc_disable_def)
  show "loc_enable l w = Inr w' \<Longrightarrow> pokes w w'" using L loc_enable_repatch e by fastforce
  show "loc_disable l w = Inr w' \<Longrightarrow> pokes w w'" using L loc_disable_repatch e by fastforce
qed

lemma pokes_set [simp]:
  "pokes (set_bp p b w) w' = pokes w w'" "pokes (set_loc l L w) w' = pokes w w'"
  "pokes w (set_bp p b w') = pokes w w'" "pokes w (set_loc l L w') = pokes w w'"
  by (simp_all add: pokes_def set_bp_def set_loc_def)

lemma pokes_step:
  "pokes v w \<Longrightarrow> loc_enable l w = Inr w' \<Longrightarrow> pokes v w'" "pokes v w \<Longrightarrow> loc_disable l w = Inr w' \<Longrightarrow> pokes v w'"
  using pokes_loc pokes_trans by blast+

lemma pokes_switch: "bp_switch v p w = Inr w' \<Longrightarrow> pokes w w'"
  by (auto simp: bp_switch_def bp_enable_def bp_disable_def Let_def split: if_splits option.splits
      elim!: pokes_step[rotated])

lemma pokes_bp_free:
  assumes "bp_free p w = Inr w'"
  shows "pokes w w'"
proof -
  obtain b w2 where b: "w_bps w p = Some b" "w' = w2\<lparr>w_bps := (w_bps w2)(p := None)\<rparr>"
    "(case b_location b of None \<Rightarrow> Inr w
      | Some l \<Rightarrow> res_bind (deref (w_locs w) l) (\<lambda>L. res_bind (loc_list L) (\<lambda>ps.
          let ps' = remove1 p ps; w1 = set_loc l (L\<lparr>l_bp_list := Some ps'\<rparr>) w
          in if ps' = [] then loc_disable l w1 else Inr w1))) = Inr w2"
    using assms by (auto simp: bp_free_def)
  have "pokes w w2"
    using b(3) by (auto simp: Let_def split: option.splits if_splits elim!: pokes_step[rotated])
  then show ?thesis by (simp add: b(2) pokes_def)
qed

lemma pokes_clear: "res_fold clear_location ps w = Inr w' \<Longrightarrow> pokes w w'"
proof (induction ps arbitrary: w)
  case (Cons p ps)
  then obtain w1 where w1: "clear_location p w = Inr w1" "res_fold clear_location ps w1 = Inr w'" by auto
  have "pokes w w1" using w1(1) by (auto simp: clear_location_def)
  then show ?case using Cons.IH[OF w1(2)] pokes_trans by blast
qed simp

lemma pokes_loc_free:
  assumes "loc_free l w = Inr w'"
  shows "pokes w w'"
proof -
  obtain L w1 w2 where L: "(if l_is_temp L then Inr w else res_bind (loc_list L) (\<lambda>ps. res_fold clear_location ps w)) = Inr w1"
    "loc_disable l w1 = Inr w2" "w' = w2\<lparr>w_locs := (w_locs w2)(l := None)\<rparr>"
    using assms by (auto simp: loc_free_def)
  have "pokes w w1" using L(1) pokes_clear by (auto split: if_splits)
  then have "pokes w w2" using pokes_step(2) L(2) by blast
  then show ?thesis by (simp add: L(3) pokes_def)
qed

lemma map_delete_keeps:
  assumes "map_delete (Some f) h key s = Inr (h', s')" "\<And>v. f v s = Inr s' \<Longrightarrow> R s s'" "R s s"
  shows "R s s'"
  using assms by (auto simp: map_delete_def call_cleanup_def split: option.splits)

lemma pokes_delete_from_map:
  assumes "delete_from_map p d = Inr d'"
  shows "pokes d d'"
proof -
  obtain i m d1 where d: "map_delete (Some bp_free) (db_breakpoints d) i d = Inr (m, d1)" "d' = d1\<lparr>db_breakpoints := m\<rparr>"
    using assms by (auto simp: delete_from_map_def)
  have "pokes d d1" by (rule map_delete_keeps[OF d(1)]) (simp_all add: pokes_bp_free)
  then show ?thesis by (simp add: d(2) pokes_def)
qed

lemma pokes_remove:
  assumes "remove_breakpoint p d = Inr d'"
  shows "pokes d d'"
  using pokes_delete_from_map[OF assms[unfolded remove_breakpoint_def]] by (simp add: pokes_def)

lemma pokes_remove_one: "remove_one p d = Inr d' \<Longrightarrow> pokes d d'"
proof -
  assume "remove_one p d = Inr d'"
  then obtain a m d1 d2 where d: "d1 = d\<lparr>db_pending_breakpoints := delete_breakpoint_from_pending (db_pending_breakpoints d) p\<rparr>"
    "map_delete (Some loc_free) (db_bp_locations d1) a d1 = Inr (m, d2)"
    "delete_from_map p (d2\<lparr>db_bp_locations := m\<rparr>) = Inr d'"
    by (auto simp: remove_one_def Let_def)
  have "pokes d1 d2" by (rule map_delete_keeps[OF d(2)]) (simp_all add: pokes_loc_free)
  moreover have "pokes d d1" "pokes d2 (d2\<lparr>db_bp_locations := m\<rparr>)" by (simp_all add: d(1) pokes_same)
  ultimately show ?thesis using pokes_delete_from_map[OF d(3)] pokes_trans by blast
qed

lemma pokes_fold:
  assumes "\<And>x w w'. f x w = Inr w' \<Longrightarrow> pokes w w'" "res_fold f xs w = Inr w'"
  shows "pokes w w'"
  by (rule res_fold_keeps[where I = "pokes w", OF _ pokes_refl assms(2)]) (use assms(1) pokes_trans in blast)

section \<open>Sessions that the program does not notice\<close>

definition calm :: "(u64 \<Rightarrow> u8 option) \<Rightarrow> tracee \<Rightarrow> debugger \<Rightarrow> bool" where
  "calm orig u d \<longleftrightarrow> session_ok orig d \<and> (\<forall>x. \<not> temp_at d x) \<and> (w_tracee d)\<lparr>t_mem := orig\<rparr> = u"

lemma calmI: "session_ok orig d \<Longrightarrow> (\<And>x. \<not> temp_at d x) \<Longrightarrow> calm orig ((w_tracee d)\<lparr>t_mem := orig\<rparr>) d"
  by (simp add: calm_def)

lemma calm_pokes:
  assumes "calm orig u d" "pokes d d'" "session_ok orig d'" "\<And>x. temp_at d' x \<Longrightarrow> temp_at d x"
  shows "calm orig u d'"
  using assms by (auto simp: calm_def pokes_def)

lemma calm_live: "calm orig u d \<Longrightarrow> live d \<and> db_state d = ACTIVE"
  by (auto simp: calm_def live_def session_ok_def attached_def)

lemma calm_say [simp]: "calm orig u (say e d) = calm orig u d"
  by (simp add: calm_def temp_at_def)

lemma calm_only_output: "calm orig u (d\<lparr>db_out := ms\<rparr>) = calm orig u d"
  by (simp add: calm_def temp_at_def session_ok_def attached_def core_ok_def located_def locs_mapped_def maps_ok_def)

end
