(* ===== verification/Commands_Props.thy ===== *)
theory Commands_Props
  imports Commands Session_Frame
begin

text \<open>
  The properties of the command line: which command a word selects, what the commands on
  breakpoints, registers and memory do from the input line to the tracee, the lines of a
  script, and what they do without their arguments.
\<close>

section \<open>Input lines\<close>

text \<open>The words of a command with single blanks between them.\<close>

fun unwords :: "string list \<Rightarrow> string" where
  "unwords [] = []"
| "unwords [w] = w"
| "unwords (w # ws) = w @ CHR '' '' # unwords ws"

definition proper_word :: "string \<Rightarrow> bool" where
  "proper_word w \<longleftrightarrow> w \<noteq> [] \<and> CHR '' '' \<notin> set w"

lemma strtok_all_last:
  assumes "w \<noteq> []" "d \<notin> set w"
  shows "strtok_all d w = [w]"
proof -
  have "dropWhile (\<lambda>c. c = d) w = w" using assms by (cases w) auto
  moreover have "takeWhile (\<lambda>c. c \<noteq> d) w = w" "dropWhile (\<lambda>c. c \<noteq> d) w = []"
    using assms by (auto simp: takeWhile_eq_all_conv)
  ultimately show ?thesis using assms(1) by (subst strtok_all.simps) (simp only: Let_def if_False strtok_all_nil)
qed

lemma strtok_unwords: "list_all proper_word ws \<Longrightarrow> strtok_all (CHR '' '') (unwords ws) = ws"
  by (induction ws rule: unwords.induct) (simp_all add: proper_word_def strtok_all_last strtok_all_token)

lemma split_unwords:
  assumes "list_all proper_word ws" "length ws < 32"
  shows "split (unwords ws) (CHR '' '') = Inr ws"
proof -
  have "length ws \<noteq> 32 * 2 ^ k" for k
  proof
    assume "length ws = 32 * 2 ^ k"
    moreover have "(1 :: nat) \<le> 2 ^ k" by simp
    ultimately show False using assms(2) by linarith
  qed
  then show ?thesis by (simp add: split_cases strtok_unwords[OF assms(1)])
qed

lemma proper_printf_alt_lx: "proper_word (printf_alt_lx a)"
proof -
  have "CHR '' '' \<notin> set (digits_of 16 n)" for n
  proof
    assume "CHR '' '' \<in> set (digits_of 16 n)"
    then obtain d where "d < 16" "CHR '' '' = digit_char d" using digits_of_chars[of 16 "CHR '' ''" n] by auto
    moreover have "isspace (CHR '' '')" by code_simp
    ultimately show False using digit_char_cases[of d] by simp
  qed
  then show ?thesis by (simp add: proper_word_def printf_alt_lx_def)
qed

section \<open>The table\<close>

lemma command_names_distinct: "distinct (map ce_name commands)"
  by code_simp

lemma find_command_self: "e \<in> set commands \<Longrightarrow> find_command (ce_name e) = Some e"
proof -
  assume e: "e \<in> set commands"
  have "find (\<lambda>c. ce_name e = ce_name c) cs = Some e" if "distinct (map ce_name cs)" "e \<in> set cs" for cs
    using that
  proof (induction cs)
    case (Cons x cs)
    then show ?case by (cases "e = x") (auto simp: image_iff)
  qed simp
  from this[OF command_names_distinct e] show ?thesis by (simp add: find_command_def)
qed

lemma find_first:
  "case find P xs of None \<Rightarrow> \<forall>x \<in> set xs. \<not> P x
   | Some x \<Rightarrow> \<exists>us vs. xs = us @ x # vs \<and> P x \<and> (\<forall>y \<in> set us. \<not> P y)"
proof (induction xs)
  case (Cons x xs)
  show ?case
  proof (cases "P x")
    case True
    then show ?thesis by (auto intro: exI[of _ "[]"])
  next
    case False
    show ?thesis
    proof (cases "find P xs")
      case None
      then show ?thesis using Cons False by simp
    next
      case (Some y)
      then obtain us vs where "xs = us @ y # vs" "P y" "\<forall>z \<in> set us. \<not> P z" using Cons by auto
      then have "x # xs = (x # us) @ y # vs \<and> P y \<and> (\<forall>z \<in> set (x # us). \<not> P z)" using False by simp
      moreover have "find P (x # xs) = Some y" using Some False by simp
      ultimately show ?thesis by (simp only: option.case) blast
    qed
  qed
qed simp

lemma handle_words:
  assumes "list_all proper_word (c # as)" "length as < 31" "find_command c = Some e"
    and "db_state d = ACTIVE \<or> \<not> ce_requires_running_pid e" "\<not> ce_requires_dwarf_symbols e"
  shows "handle_command X (Suc n) (unwords (c # as)) d =
    call_handler X n (handle_command X n) (ce_handler e) (c # as) d"
  using assms split_unwords[OF assms(1)] by (auto simp: run_command_def)

section \<open>Breakpoint arguments\<close>

lemma live_say [simp]: "live (say e d) = live d"
  by (simp add: live_def temp_at_def)

lemma live_maps_ok: "live d \<Longrightarrow> maps_ok d"
  by (auto simp: live_def idle_ok_def session_ok_def attached_def core_ok_def)

lemma find_in_pending_ok:
  "\<forall>p \<in> set ps. w_bps d p \<noteq> None \<Longrightarrow>
     \<exists>bp. find_in_pending q ps d = Inr bp \<and> (\<forall>p. bp = Some p \<longrightarrow> w_bps d p \<noteq> None)"
proof (induction ps)
  case (Cons p ps)
  then obtain b where b: "w_bps d p = Some b" by auto
  have "\<forall>p \<in> set ps. w_bps d p \<noteq> None" using Cons.prems by simp
  then obtain bp where bp: "find_in_pending q ps d = Inr bp" "\<forall>p. bp = Some p \<longrightarrow> w_bps d p \<noteq> None"
    using Cons.IH by blast
  show ?case
  proof (cases "bp_matches q b")
    case True
    then show ?thesis using b by simp
  next
    case False
    then show ?thesis using b bp by simp
  qed
qed simp

lemma parse_arg_bp_ok:
  assumes ms: "maps_ok d"
  shows "\<exists>bp a' d1. parse_arg_bp a d = Inr (bp, a', d1) \<and> (\<forall>p. bp = Some p \<longrightarrow> w_bps d p \<noteq> None) \<and>
    (d1 = d \<or> (\<exists>e. d1 = say e d))"
proof -
  have pend: "\<exists>bp. find_breakpoint_from_pending (db_pending_breakpoints d) q d = Inr bp \<and>
      (\<forall>p. bp = Some p \<longrightarrow> w_bps d p \<noteq> None)" for q
    using find_in_pending_ok[of "db_pending_breakpoints d" d q] ms
    by (auto simp: find_breakpoint_from_pending_def maps_ok_def)
  have byid: "\<exists>bp. get_breakpoint_by_id d i = Inr bp \<and> (\<forall>p. bp = Some p \<longrightarrow> w_bps d p \<noteq> None)" for i
    using ms hm.lookup_law[of "db_breakpoints d" i] by (auto simp: get_breakpoint_by_id_def maps_ok_def)
  consider "is_number a" | "\<not> is_number a" "is_hex_address a" | "\<not> is_number a" "\<not> is_hex_address a" by blast
  then show ?thesis
  proof cases
    case 1
    then show ?thesis using byid[of "strtoul 10 a"] by (auto simp: parse_arg_bp_def Let_def)
  next
    case 2
    then show ?thesis using pend[of "Q_ADDR (strtoul 16 a)"] by (auto simp: parse_arg_bp_def Let_def)
  next
    case 3
    show ?thesis
    proof (cases "strchr a (CHR '':'')")
      case None
      then show ?thesis using 3 pend[of "Q_SYMBOL a"] by (auto simp: parse_arg_bp_def)
    next
      case (Some r)
      obtain fname lineno where r: "r = (fname, lineno)" by (cases r)
      show ?thesis using 3 Some r pend[of "Q_LINENO fname (atoi lineno)"] by (auto simp: parse_arg_bp_def)
    qed
  qed
qed

text \<open>
  The contract of the loop that \<open>delete\<close>, \<open>enable\<close> and \<open>disable\<close> run over their arguments: the
  action on a breakpoint does not fault and stays unnoticed by the program.
\<close>

locale session_action =
  fixes act :: "nat \<Rightarrow> debugger \<Rightarrow> debugger res"
  assumes act_calm: "calm orig u d \<Longrightarrow> w_bps d p \<noteq> None \<Longrightarrow> \<exists>d'. act p d = Inr d' \<and> calm orig u d'"
begin

lemma arg_calm:
  assumes c: "calm orig u d"
  shows "\<exists>d'. bp_arg act msg a d = Inr d' \<and> calm orig u d'"
proof -
  have "maps_ok d" using c by (simp add: calm_def session_ok_def attached_def core_ok_def)
  then obtain bp a' d1 where p: "parse_arg_bp a d = Inr (bp, a', d1)" "\<forall>p. bp = Some p \<longrightarrow> w_bps d p \<noteq> None"
    "d1 = d \<or> (\<exists>e. d1 = say e d)"
    using parse_arg_bp_ok by blast
  have d1: "calm orig u d1" "w_bps d1 = w_bps d" using p(3) c by auto
  show ?thesis
  proof (cases bp)
    case None
    then show ?thesis using p(1) d1 by (simp add: bp_arg_def)
  next
    case (Some q)
    then obtain d2 where "act q d1 = Inr d2" "calm orig u d2" using act_calm[OF d1(1)] d1(2) p(2) by auto
    then show ?thesis using p(1) Some by (simp add: bp_arg_def)
  qed
qed

lemma args_calm: "calm orig u d \<Longrightarrow> \<exists>d'. res_fold (bp_arg act msg) as d = Inr d' \<and> calm orig u d'"
  using res_fold_total[of as "calm orig u" "bp_arg act msg" d] arg_calm by blast

end

interpretation removing: session_action remove_breakpoint
proof
  fix orig u d p assume c: "calm orig u d" "w_bps d p \<noteq> None"
  then obtain b where b: "w_bps d p = Some b" by auto
  have ok: "session_ok orig d" using c(1) by (simp add: calm_def)
  obtain d' where "remove_breakpoint p d = Inr d'" "session_ok orig d'" "\<forall>x. temp_at d' x = temp_at d x"
    using remove_session[OF ok b] by blast
  then show "\<exists>d'. remove_breakpoint p d = Inr d' \<and> calm orig u d'"
    using calm_pokes[OF c(1) pokes_remove] by blast
qed

interpretation switching: session_action "bp_switch v" for v
proof
  fix orig u d p assume c: "calm orig u d" "w_bps d p \<noteq> None"
  then obtain b where b: "w_bps d p = Some b" by auto
  have ok: "session_ok orig d" using c(1) by (simp add: calm_def)
  obtain d' where d': "bp_switch v p d = Inr d'" "world_ok orig d'" "same_sites d d'"
    "w_bps d' = (w_bps d)(p \<mapsto> b\<lparr>b_enable := v\<rparr>)"
    using bp_switch_ok[OF attached_world[OF session_attached[OF ok]] b, of v] by blast
  have "session_ok orig d'" by (rule switch_session[OF ok b d'(2,3,4)])
  moreover have "temp_at d' x = temp_at d x" for x using same_sites_shape[OF d'(3)] by (simp add: temp_at_alt)
  ultimately show "\<exists>d'. bp_switch v p d = Inr d' \<and> calm orig u d'"
    using calm_pokes[OF c(1) pokes_switch[OF d'(1)]] d'(1) by blast
qed

lemma switch_all_calm:
  assumes c: "calm orig u d"
  shows "\<exists>d'. res_fold (bp_switch v) (db_pending_breakpoints d) d = Inr d' \<and> calm orig u d'"
proof -
  have ok: "session_ok orig d" using c by (simp add: calm_def)
  obtain d' where d': "res_fold (bp_switch v) (db_pending_breakpoints d) d = Inr d'" "session_ok orig d'" "same_sites d d'"
    using switch_all_session[OF ok, of v] by blast
  have "temp_at d' x = temp_at d x" for x using same_sites_shape[OF d'(3)] by (simp add: temp_at_alt)
  moreover have "pokes d d'" by (rule pokes_fold[OF pokes_switch d'(1)])
  ultimately show ?thesis using calm_pokes[OF c] d'(1,2) by blast
qed

lemma remove_all_calm:
  assumes c: "calm orig u d"
  shows "\<exists>d'. remove_all_breakpoints d = Inr d' \<and> calm orig u d'"
proof -
  have ok: "session_ok orig d" using c by (simp add: calm_def)
  obtain d' where d': "remove_all_breakpoints d = Inr d'" "session_ok orig d'" "\<forall>x. temp_at d' x \<longrightarrow> temp_at d x"
    using remove_all_session[OF ok] by blast
  have "pokes d d'" by (rule pokes_fold[OF pokes_remove_one d'(1)[unfolded remove_all_breakpoints_def]])
  then show ?thesis using calm_pokes[OF c] d' by blast
qed

text \<open>The commands with any arguments.\<close>

lemma breakpoint_commands_calm:
  assumes c: "calm orig u d"
  shows "\<exists>d'. cmd_delete args d = Inr d' \<and> calm orig u d'"
    "\<exists>d'. cmd_enable args d = Inr d' \<and> calm orig u d'"
    "\<exists>d'. cmd_disable args d = Inr d' \<and> calm orig u d'"
  using remove_all_calm[OF c] removing.args_calm[OF c] switch_all_calm[OF c, of True] switch_all_calm[OF c, of False]
    switching.args_calm[OF c, of True] switching.args_calm[OF c, of False]
  by (simp_all add: cmd_delete_def cmd_enable_def cmd_disable_def switch_all_alt bp_switch_def)

section \<open>Scripts\<close>

lemma getline_all_line:
  "newline \<notin> set l \<Longrightarrow> getline_all (l @ newline # s) = (l @ [newline]) # getline_all s"
  by (induction l) auto

lemma getline_all_text: "\<forall>l \<in> set ls. newline \<notin> set l \<Longrightarrow> getline_all (text_of ls) = map (\<lambda>l. l @ [newline]) ls"
  by (induction ls) (simp_all add: getline_all_line text_of_def)

definition script_line :: "string \<Rightarrow> bool" where
  "script_line l \<longleftrightarrow> newline \<notin> set l \<and> CHR 0x00 \<notin> set l"

definition then_run :: "(string \<Rightarrow> debugger \<Rightarrow> debugger option res) \<Rightarrow> string \<Rightarrow> debugger option \<Rightarrow> debugger option res" where
  "then_run handle l r = (case r of None \<Rightarrow> Inr None | Some d \<Rightarrow> handle l d)"

lemma then_run_Some [simp]: "then_run handle l (Some d) = handle l d"
  by (simp add: then_run_def)

lemma then_run_None: "res_fold (then_run handle) ls None = Inr None"
  by (induction ls) (simp_all add: then_run_def)

lemma script_line_read:
  assumes "script_line l"
  shows "takeWhile (\<lambda>c. c \<noteq> newline \<and> c \<noteq> CHR 0x00) (l @ [newline]) = l"
proof -
  have "\<forall>c \<in> set l. c \<noteq> newline \<and> c \<noteq> CHR 0x00" using assms by (auto simp: script_line_def)
  then show ?thesis by (simp add: takeWhile_append takeWhile_eq_all_conv[THEN iffD2])
qed

lemma source_lines_fold:
  assumes "\<forall>l \<in> set ls. script_line l"
  shows "source_lines handle (map (\<lambda>l. l @ [newline]) ls) d =
    res_fold (then_run handle) (filter (\<lambda>l. l \<noteq> [] \<and> hd l \<noteq> CHR ''#'') ls) (Some d)"
  using assms
proof (induction ls arbitrary: d)
  case (Cons l ls)
  have rd: "takeWhile (\<lambda>c. c \<noteq> newline \<and> c \<noteq> CHR 0x00) (l @ [newline]) = l"
    using Cons.prems script_line_read by simp
  have skip: "take 1 (l @ [newline]) = ''#'' \<or> l = [] \<longleftrightarrow> \<not> (l \<noteq> [] \<and> hd l \<noteq> CHR ''#'')"
    by (cases l) (auto simp: newline_def)
  have IH: "source_lines handle (map (\<lambda>l. l @ [newline]) ls) d1 =
      res_fold (then_run handle) (filter (\<lambda>l. l \<noteq> [] \<and> hd l \<noteq> CHR ''#'') ls) (Some d1)" for d1
    using Cons by simp
  show ?case
  proof (cases "l \<noteq> [] \<and> hd l \<noteq> CHR ''#''")
    case True
    have "res_bind (handle l d) (\<lambda>r. case r of None \<Rightarrow> Inr None
        | Some d1 \<Rightarrow> source_lines handle (map (\<lambda>l. l @ [newline]) ls) d1) =
      res_bind (handle l d) (res_fold (then_run handle) (filter (\<lambda>l. l \<noteq> [] \<and> hd l \<noteq> CHR ''#'') ls))"
      by (rule res_bind_cong[OF refl]) (simp add: IH then_run_None split: option.split)
    then show ?thesis using True skip by (simp add: rd Let_def)
  next
    case False
    then have "filter (\<lambda>l. l \<noteq> [] \<and> hd l \<noteq> CHR ''#'') (l # ls) = filter (\<lambda>l. l \<noteq> [] \<and> hd l \<noteq> CHR ''#'') ls" by simp
    moreover have "take 1 (l @ [newline]) = ''#'' \<or> l = []" using False skip by blast
    ultimately show ?thesis using IH by (simp add: rd Let_def)
  qed
qed simp

lemma source_command: "find_command ''source'' = Some (\<lparr>ce_name = ''source'', ce_handler = H_source,
    ce_requires_running_pid = False, ce_requires_dwarf_symbols = False, ce_help_text = ''Source your script'',
    ce_completer = Some Complete_source\<rparr>)"
  by code_simp

lemma handle_source:
  assumes "proper_word f" "hf_bytes (sys_files (cli_system X)) f = Some contents"
  shows "handle_command X (Suc n) (unwords [''source'', f]) d = source_lines (handle_command X n) (getline_all contents) d"
proof -
  have w: "list_all proper_word [''source'', f]" using assms(1) by (simp add: proper_word_def)
  have "handle_command X (Suc n) (unwords [''source'', f]) d =
      call_handler X n (handle_command X n) H_source [''source'', f] d"
    using handle_words[OF w _ source_command, of d X n] by (simp del: unwords.simps handle_command.simps)
  then show ?thesis by (simp add: call_handler_def cmd_source_def arg_def assms(2) del: unwords.simps handle_command.simps)
qed

section \<open>Properties\<close>

text \<open>
  every command is run by its full name, also where that is a prefix of another name
  (\<open>step\<close> and \<open>stepi\<close>); any other word runs the first command of the table that it is a prefix
  of, and is refused when there is none.
\<close>

theorem full_name_or_first_prefix:
  assumes "word \<notin> ce_name ` set commands"
  shows "(\<forall>e \<in> set commands. find_command (ce_name e) = Some e) \<and>
    (case find_command word of
       None \<Rightarrow> \<forall>e \<in> set commands. \<nexists>r. ce_name e = word @ r
     | Some e \<Rightarrow> \<exists>us vs. commands = us @ e # vs \<and> (\<exists>r. ce_name e = word @ r) \<and>
                   (\<forall>x \<in> set us. \<nexists>r. ce_name x = word @ r))"
proof -
  have "find (\<lambda>c. word = ce_name c) commands = None"
    using assms by (auto simp: find_None_iff)
  then have "find_command word = find (\<lambda>c. \<exists>r. ce_name c = word @ r) commands"
    by (simp add: find_command_def is_prefix_iff)
  then show ?thesis using find_command_self find_first[where P = "\<lambda>c. \<exists>r. ce_name c = word @ r" and xs = commands] by simp
qed

theorem full_name_or_first_prefix_witness:
  "map_option ce_name (find_command ''step'') = Some ''step'' \<and>
   map_option ce_name (find_command ''c'') \<noteq> None"
proof -
  have m: "''c'' \<notin> ce_name ` set commands" "\<exists>e \<in> set commands. ce_name e = ''step''"
    "\<exists>e \<in> set commands. \<exists>r. ce_name e = ''c'' @ r"
    by (auto simp: commands_def)
  show ?thesis
    using full_name_or_first_prefix[OF m(1)] m(2,3) by (auto split: option.splits)
qed

text \<open>
  C10: \<open>break 0x<address>\<close> typed in a running session sets the breakpoint: the address that
  \<open>%#lx\<close> prints is read back, the new breakpoint has the next number and that address, and
  exactly its place in the memory of the tracee becomes patched in addition.
\<close>

theorem break_command_arms:
  assumes ok: "session_ok orig d" "\<forall>x. \<not> temp_at d x" and c: "w_id_counter d \<noteq> - 1"
    and a: "a \<noteq> 0" "a + db_load_address d \<noteq> 0" "mapped8 orig (a + db_load_address d)"
  shows "\<exists>d' p b. handle_command X (Suc n) (unwords [''break'', printf_alt_lx a]) d = Inr (Some d') \<and>
    session_ok orig d' \<and> w_bps d' = (w_bps d)(p \<mapsto> b) \<and> b_id b = w_id_counter d \<and> b_instr_addr b = a \<and>
    (\<forall>x. armed d' x \<longleftrightarrow> x = a + db_load_address d \<or> armed d x) \<and>
    t_mem (w_tracee d') (a + db_load_address d) = Some 0xCC"
proof -
  obtain d' b where d': "install_breakpoint BP_ADDR a False d = Inr d'" "session_ok orig d'"
    "w_bps d' = (w_bps d)(w_next d \<mapsto> b)" "bp_core b = (w_id_counter d, BP_ADDR, True, a)"
    "\<forall>x. armed d' x \<longleftrightarrow> x = a + db_load_address d \<or> armed d x"
    using install_session[OF ok(1) c refl a(2,3)] ok(2) by blast
  have w: "list_all proper_word [''break'', printf_alt_lx a]" using proper_printf_alt_lx[of a] by (simp add: proper_word_def)
  have f: "find_command ''break'' = Some \<lparr>ce_name = ''break'', ce_handler = H_break, ce_requires_running_pid = False,
      ce_requires_dwarf_symbols = False, ce_help_text = ''Set breakpoint'', ce_completer = Some Complete_break\<rparr>"
    by code_simp
  have hex: "is_hex_address (printf_alt_lx a)" using a(1) by (simp add: is_hex_address_def printf_alt_lx_def)
  have run: "handle_command X (Suc n) (unwords [''break'', printf_alt_lx a]) d = Inr (Some d')"
    using handle_words[OF w _ f, of d X n] d'(1)
    by (simp add: call_handler_def lift_res_def cmd_break_def break_arg_def hex strtoul_printf_alt_lx
        set_breakpoint_at_addr_def del: unwords.simps handle_command.simps)
  have "t_mem (w_tracee d') (a + db_load_address d) = Some 0xCC"
    using attached_mem[OF session_attached[OF d'(2)]] d'(5) by simp
  then show ?thesis using run d' by (auto simp: bp_core_def)
qed

definition demo_cli :: "cli" where
  "demo_cli = \<lparr>cli_system = demo_system Dead, cli_capstone = \<lparr>cs_open_ok = False, cs_disasm = (\<lambda>_ _. [])\<rparr>,
     cli_machine_string = (\<lambda>_. []), cli_dir = [], cli_width = None\<rparr>"

lemma demo_live: "live demo_debugger"
  using demo_session by (auto intro: liveI_session)

lemma printf_0x2000: "printf_alt_lx 0x2000 = ''0x2000''"
  by (simp add: printf_alt_lx_def digits_of.simps digit_char_def)

theorem break_command_arms_witness:
  "\<exists>d'. handle_command demo_cli 1 ''break 0x2000'' demo_debugger = Inr (Some d') \<and>
     t_mem (w_tracee d') 0x2000 = Some 0xCC"
  using break_command_arms[OF demo_session, of "0x2000" demo_cli 0] unfolding printf_0x2000 by auto





text \<open>
  C29: a script runs its lines in order, each like a line typed at the prompt, except for empty
  lines and lines that begin with \<open>#\<close>.
\<close>

theorem script_runs_its_lines:
  assumes "proper_word path" "hf_bytes (sys_files (cli_system X)) path = Some (text_of ls)"
    and "\<forall>l \<in> set ls. script_line l"
  shows "handle_command X (Suc n) (unwords [''source'', path]) d =
    res_fold (then_run (handle_command X n)) (filter (\<lambda>l. l \<noteq> [] \<and> hd l \<noteq> CHR ''#'') ls) (Some d)"
  using handle_source[OF assms(1,2), of n d] source_lines_fold[OF assms(3)] getline_all_text[of ls] assms(3)
  by (simp add: script_line_def)

definition demo_script :: "string list \<Rightarrow> cli" where
  "demo_script ls = demo_cli\<lparr>cli_system := (demo_system Dead)\<lparr>sys_files := (sys_files (demo_system Dead))
     \<lparr>hf_bytes := (\<lambda>f. if f = ''s'' then Some (text_of ls) else None)\<rparr>\<rparr>\<rparr>"

lemma demo_script_file [simp]: "hf_bytes (sys_files (cli_system (demo_script ls))) ''s'' = Some (text_of ls)"
  by (simp add: demo_script_def)

theorem script_runs_its_lines_witness:
  "handle_command (demo_script [''# set up'', [], ''list'']) 2 (unwords [''source'', ''s'']) demo_debugger =
     handle_command (demo_script [''# set up'', [], ''list'']) 1 ''list'' demo_debugger"
proof -
  let ?X = "demo_script [''# set up'', [], ''list'']"
  have "filter (\<lambda>l. l \<noteq> [] \<and> hd l \<noteq> CHR ''#'') [''# set up'', [], ''list''] = [''list'']" by simp
  moreover have "proper_word ''s''" "\<forall>l \<in> set [''# set up'', [], ''list'']. script_line l"
    by (simp_all add: proper_word_def script_line_def newline_def)
  ultimately have "handle_command ?X (Suc 1) (unwords [''source'', ''s'']) demo_debugger =
      res_fold (then_run (handle_command ?X 1)) [''list''] (Some demo_debugger)"
    using script_runs_its_lines[of "''s''" ?X "[''# set up'', [], ''list'']" 1 demo_debugger] by (simp only: demo_script_file)
  moreover have "res_fold (then_run (handle_command ?X 1)) [''list''] (Some demo_debugger) =
      handle_command ?X 1 ''list'' demo_debugger"
    by (simp add: res_bind_def split: sum.split del: handle_command.simps)
  ultimately show ?thesis by (simp only: numeral_2_eq_2 One_nat_def)
qed

text \<open>
  a script that sources itself never ends, whatever the state of the debugger.
\<close>

theorem self_sourcing_script_never_returns:
  assumes "proper_word path" "script_line path"
    and "hf_bytes (sys_files (cli_system X)) path = Some (text_of [unwords [''source'', path]])"
  shows "handle_command X fuel (unwords [''source'', path]) d = Inr None"
proof (induction fuel arbitrary: d)
  case (Suc n)
  let ?l = "unwords [''source'', path]"
  have l: "script_line ?l" using assms(2) by (auto simp: script_line_def newline_def)
  have keep: "filter (\<lambda>l. l \<noteq> [] \<and> hd l \<noteq> CHR ''#'') [?l] = [?l]" by simp
  have "handle_command X (Suc n) ?l d = source_lines (handle_command X n) (map (\<lambda>l. l @ [newline]) [?l]) d"
    using handle_source[OF assms(1,3)] getline_all_text[of "[?l]"] l
    by (simp only: script_line_def list.set ball_simps list.map) simp
  also have "\<dots> = res_fold (then_run (handle_command X n)) [?l] (Some d)"
    using source_lines_fold[of "[?l]" "handle_command X n" d] l unfolding keep by (simp only: list.set ball_simps)
  also have "\<dots> = Inr None" using Suc.IH by (simp add: res_bind_def del: unwords.simps handle_command.simps)
  finally show ?case .
qed simp

theorem self_sourcing_script_never_returns_witness:
  "handle_command (demo_script [unwords [''source'', ''s'']]) 100 (unwords [''source'', ''s'']) demo_debugger = Inr None"
proof -
  have "proper_word ''s''" "script_line ''s''" by (simp_all add: proper_word_def script_line_def newline_def)
  from self_sourcing_script_never_returns[OF this demo_script_file] show ?thesis .
qed

section \<open>Missing arguments\<close>

text \<open>
  \<open>register\<close>, \<open>memory\<close> and \<open>source\<close> do not check for their arguments: without them they
  hand a null pointer to the C library, or read a pointer that nothing wrote.
\<close>

theorem missing_arguments_fault:
  assumes "db_state d = ACTIVE"
  shows "handle_command X (Suc n) ''register read'' d = Inl NullDeref \<and>
    handle_command X (Suc n) ''register write'' d = Inl UninitRead \<and>
    handle_command X (Suc n) ''register write rax'' d = Inl NullDeref \<and>
    handle_command X (Suc n) ''memory'' d = Inl UninitRead \<and>
    handle_command X (Suc n) ''memory read'' d = Inl NullDeref \<and>
    handle_command X (Suc n) ''source'' d = Inl NullDeref"
proof -
  have s: "split ''register read'' (CHR '' '') = Inr [''register'', ''read'']"
    "split ''register write'' (CHR '' '') = Inr [''register'', ''write'']"
    "split ''register write rax'' (CHR '' '') = Inr [''register'', ''write'', ''rax'']"
    "split ''memory'' (CHR '' '') = Inr [''memory'']" "split ''memory read'' (CHR '' '') = Inr [''memory'', ''read'']"
    "split ''source'' (CHR '' '') = Inr [''source'']"
    using split_unwords[of "[''register'', ''read'']"] split_unwords[of "[''register'', ''write'']"]
      split_unwords[of "[''register'', ''write'', ''rax'']"] split_unwords[of "[''memory'']"]
      split_unwords[of "[''memory'', ''read'']"] split_unwords[of "[''source'']"]
    by (simp_all add: proper_word_def)
  have f: "find_command ''register'' = Some \<lparr>ce_name = ''register'', ce_handler = H_reg, ce_requires_running_pid = True,
      ce_requires_dwarf_symbols = False, ce_help_text = ''Manage CPU registers'', ce_completer = Some Complete_register\<rparr>"
    "find_command ''memory'' = Some \<lparr>ce_name = ''memory'', ce_handler = H_mem, ce_requires_running_pid = True,
      ce_requires_dwarf_symbols = False, ce_help_text = ''Manipulate memory at address'', ce_completer = Some Complete_memory\<rparr>"
    by code_simp+
  have p: "\<not> is_prefix (Some ''read'') (Some ''dump'')" "is_prefix (Some ''read'') (Some ''read'')"
    "\<not> is_prefix (Some ''write'') (Some ''dump'')" "\<not> is_prefix (Some ''write'') (Some ''read'')"
    "is_prefix (Some ''write'') (Some ''write'')" by code_simp+
  note defs = s f p assms run_command_def call_handler_def lift_res_def arg_def
  have 1: "handle_command X (Suc n) ''register read'' d = Inl NullDeref"
    "handle_command X (Suc n) ''register write'' d = Inl UninitRead"
    "handle_command X (Suc n) ''register write rax'' d = Inl NullDeref"
    by (simp_all add: defs cmd_reg_def reg_arg_def hex_arg_def not_null_def numeral_3_eq_3)
  have 2: "handle_command X (Suc n) ''memory'' d = Inl UninitRead"
    "handle_command X (Suc n) ''memory read'' d = Inl NullDeref"
    by (simp_all add: defs cmd_mem_def hex_arg_def not_null_def)
  have "handle_command X (Suc n) ''source'' d = Inl NullDeref"
    by (simp add: defs source_command cmd_source_def not_null_def)
  then show ?thesis using 1 2 by blast
qed

theorem missing_arguments_fault_witness:
  "handle_command demo_cli 1 ''register read'' demo_debugger = Inl NullDeref"
  using missing_arguments_fault[of demo_debugger demo_cli 0] by simp

section \<open>Memory\<close>

lemma word_bytes_eqI:
  assumes "\<And>i. i < 8 \<Longrightarrow> get_byte i v = get_byte i w"
  shows "v = w"
proof (rule bit_word_eqI)
  fix n assume "n < LENGTH(64)"
  then have i: "n div 8 < 8" by simp
  have "bit (get_byte (n div 8) v) (n mod 8) = bit (get_byte (n div 8) w) (n mod 8)" using assms[OF i] by simp
  then show "bit v n = bit w n" by (simp add: bit_get_byte)
qed

lemma load64_store64: "load64 (store64 m a w) a = w"
proof (rule word_bytes_eqI)
  fix i :: nat assume i: "i < 8"
  have u: "unat (of_nat i :: u64) = i" using i by (simp add: unat_of_nat)
  show "get_byte i (load64 (store64 m a w) a) = get_byte i w"
    using get_byte_load64[OF i, of "store64 m a w" a] i u by (simp add: store64_def)
qed

lemma mapped8_store64: "mapped8 m b \<Longrightarrow> mapped8 (store64 m a w) b"
  by (auto simp: mapped8_def store64_def)

text \<open>
  C30: \<open>memory write\<close> followed by \<open>memory read\<close> at the same address of the stopped tracee
  prints the value written, and only the eight bytes there have changed.
\<close>

theorem memory_write_then_read:
  assumes "db_state d = ACTIVE" "is_stopped (w_tracee d) (db_pid d)" "mapped8 (t_mem (w_tracee d)) a"
  shows "\<exists>d1. handle_command X (Suc n) (unwords [''memory'', ''write'', printf_alt_lx a, printf_alt_lx v]) d = Inr (Some d1) \<and>
    handle_command X (Suc n) (unwords [''memory'', ''read'', printf_alt_lx a]) d1 = Inr (Some (say (Out_Value v) d1)) \<and>
    (\<forall>x. 8 \<le> unat (x - a) \<longrightarrow> t_mem (w_tracee d1) x = t_mem (w_tracee d) x)"
proof -
  let ?d1 = "d\<lparr>w_tracee := (w_tracee d)\<lparr>t_mem := store64 (t_mem (w_tracee d)) a v\<rparr>\<rparr>"
  have f: "find_command ''memory'' = Some \<lparr>ce_name = ''memory'', ce_handler = H_mem, ce_requires_running_pid = True,
      ce_requires_dwarf_symbols = False, ce_help_text = ''Manipulate memory at address'', ce_completer = Some Complete_memory\<rparr>"
    by code_simp
  have p: "is_prefix (Some ''read'') (Some ''read'')" "\<not> is_prefix (Some ''write'') (Some ''read'')"
    "is_prefix (Some ''write'') (Some ''write'')" by code_simp+
  have w: "list_all proper_word [''memory'', ''write'', printf_alt_lx a, printf_alt_lx v]"
    "list_all proper_word [''memory'', ''read'', printf_alt_lx a]"
    using proper_printf_alt_lx by (simp_all add: proper_word_def)
  have "is_stopped (w_tracee ?d1) (db_pid ?d1)" using assms(2) by (simp add: is_stopped_def)
  then have rd: "read_memory (w_tracee ?d1) (db_pid ?d1) a = v"
    using mapped8_store64[OF assms(3)] by (simp add: read_memory_def ptrace_peekdata_def load64_store64)
  note defs = call_handler_def lift_res_def arg_def hex_arg_def cmd_mem_def p strtoul_printf_alt_lx
  have "handle_command X (Suc n) (unwords [''memory'', ''write'', printf_alt_lx a, printf_alt_lx v]) d = Inr (Some ?d1)"
    using handle_words[OF w(1) _ f, of d X n] assms
    by (simp add: defs write_memory_def ptrace_pokedata_def del: unwords.simps handle_command.simps)
  moreover have "handle_command X (Suc n) (unwords [''memory'', ''read'', printf_alt_lx a]) ?d1 =
      Inr (Some (say (Out_Value v) ?d1))"
    using handle_words[OF w(2) _ f, of ?d1 X n] assms(1) rd
    by (simp add: defs del: unwords.simps handle_command.simps)
  moreover have "t_mem (w_tracee ?d1) x = t_mem (w_tracee d) x" if "8 \<le> unat (x - a)" for x
    using that by (simp add: store64_def)
  ultimately show ?thesis by blast
qed

theorem memory_write_then_read_witness:
  "\<exists>d1. handle_command demo_cli 1 (unwords [''memory'', ''write'', printf_alt_lx 0x2000, printf_alt_lx 42]) demo_debugger
      = Inr (Some d1) \<and> t_mem (w_tracee d1) 0x1000 = Some 0x90"
proof -
  have st: "is_stopped (w_tracee demo_debugger) (db_pid demo_debugger)" by (simp add: is_stopped_def)
  obtain d1 where "handle_command demo_cli (Suc 0) (unwords [''memory'', ''write'', printf_alt_lx 0x2000, printf_alt_lx 42])
      demo_debugger = Inr (Some d1)"
    "\<forall>x. 8 \<le> unat (x - 0x2000) \<longrightarrow> t_mem (w_tracee d1) x = t_mem (w_tracee demo_debugger) x"
    using memory_write_then_read[OF _ st, of "0x2000" demo_cli 0 42] by auto
  moreover from this(2) have "t_mem (w_tracee d1) 0x1000 = t_mem (w_tracee demo_debugger) 0x1000" by simp
  ultimately show ?thesis by (auto simp: demo_mem_def)
qed

section \<open>Leaving\<close>

lemma free_breakpoints:
  assumes "distinct ps" "\<forall>p \<in> set ps. \<exists>b. w_bps d p = Some b \<and> b_location b = None"
  shows "res_fold bp_free ps d = Inr (d\<lparr>w_bps := \<lambda>p. if p \<in> set ps then None else w_bps d p\<rparr>)"
  using assms
proof (induction ps arbitrary: d)
  case (Cons p ps)
  let ?d = "d\<lparr>w_bps := (w_bps d)(p := None)\<rparr>"
  have "bp_free p d = Inr ?d" using Cons.prems(2) by (auto simp: bp_free_def)
  moreover have "res_fold bp_free ps ?d = Inr (?d\<lparr>w_bps := \<lambda>q. if q \<in> set ps then None else w_bps ?d q\<rparr>)"
    by (rule Cons.IH) (use Cons.prems in auto)
  ultimately show ?case by (simp add: fun_upd_def cong: if_cong) (rule arg_cong[where f = "\<lambda>f. d\<lparr>w_bps := f\<rparr>"], auto)
qed simp

lemma dbg_free_idle:
  assumes idle: "idle_ok d" and args: "read_args (tl (db_args d)) = Inr as"
  shows "\<exists>d'. dbg_free d = Inr d' \<and> (\<forall>p. w_bps d' p = None)"
proof -
  have ms: "maps_ok d" "db_bp_locations d = None" "w_locs d = (\<lambda>_. None)" "heap_ok d"
    using idle by (simp_all add: idle_ok_def core_ok_def)
  then have mok: "map_ok (db_breakpoints d)"
    and ab: "map_abs (db_breakpoints d) i = Some p \<longleftrightarrow> (\<exists>b. w_bps d p = Some b \<and> b_id b = i)" for i p
    by (simp_all add: maps_ok_def)
  obtain es where es: "distinct (map fst es)" "map_of es = map_abs (db_breakpoints d)"
    "\<forall>cf s. map_free cf (db_breakpoints d) s = res_fold (\<lambda>e. call_cleanup cf (snd e)) es (s :: debugger)"
    using hm.free_law[OF mok] by blast
  have mem: "(i, p) \<in> set es \<longleftrightarrow> (\<exists>b. w_bps d p = Some b \<and> b_id b = i)" for i p
    using es(1,2) ab by (metis map_of_eq_Some_iff)
  have "inj_on snd (set es)"
  proof (rule inj_onI)
    fix x y assume xy: "x \<in> set es" "y \<in> set es" "snd x = snd y"
    then have "(fst x, snd x) \<in> set es" "(fst y, snd x) \<in> set es" by (metis prod.collapse)+
    then have "fst x = fst y" unfolding mem by auto
    then show "x = y" using xy(3) by (rule prod_eqI)
  qed
  then have dist: "distinct (map snd es)" using es(1) by (simp add: distinct_map)
  have pts: "set (map snd es) = {p. w_bps d p \<noteq> None}"
    using mem by force
  have "b_location b = None" if bp: "w_bps d p = Some b" for p b
  proof (cases "b_location b")
    case (Some l)
    then obtain L where "w_locs d l = Some L" using heap_location[OF ms(4) bp] by metis
    then show ?thesis using ms(3) by simp
  qed
  then have "\<forall>p \<in> set (map snd es). \<exists>b. w_bps d p = Some b \<and> b_location b = None" unfolding pts by auto
  note fr = free_breakpoints[OF dist this]
  have "call_cleanup (Some bp_free) = (bp_free :: nat \<Rightarrow> debugger \<Rightarrow> debugger res)"
    by (simp add: call_cleanup_def fun_eq_iff)
  moreover have "res_fold (\<lambda>e. f (snd e)) xs s = res_fold f (map snd xs) s"
    for f :: "nat \<Rightarrow> debugger \<Rightarrow> debugger res" and xs :: "(u64 \<times> nat) list" and s
    by (induction xs arbitrary: s) (simp_all add: res_bind_def split: sum.split)
  ultimately have "map_free (Some bp_free) (db_breakpoints d) d =
      Inr (d\<lparr>w_bps := \<lambda>p. if p \<in> set (map snd es) then None else w_bps d p\<rparr>)"
    using es(3) fr by metis
  then show ?thesis using ms(2) args pts by (auto simp: dbg_free_def)
qed

lemma prompt_at_end_of_input:
  assumes "live d" "db_answers d = []" "read_args (tl (db_args d)) = Inr as"
  shows "\<exists>d1 d2. prompt_loop X (Suc n) last_input d = Inr (Some d1) \<and> idle_ok d1 \<and>
    dbg_free d1 = Inr d2 \<and> (\<forall>p. w_bps d2 p = None)"
proof -
  have ask: "ask d = (None, d)" using assms(2) by (simp add: ask_def)
  obtain d1 where d1: "prompt_loop X (Suc n) last_input d = Inr (Some d1)" "idle_ok d1" "db_args d1 = db_args d"
  proof (cases "db_state d")
    case ACTIVE
    then obtain orig where ok: "session_ok orig d" using live_active[OF assms(1)] by blast
    have att: "attached orig d" by (rule session_attached[OF ok])
    obtain d' where d': "kill_tracee d = Inr d'" "idle_ok d'" "db_args d' = db_args d" using kill_ok[OF att] by blast
    have "kill0 (w_tracee d) (db_pid d)" using att by (simp add: attached_def patch_ok_def sites_ok_def)
    then have "dbg_kill_tracee d = Inr (True, say Out_Killed d')" using ACTIVE ask d'(1) by (simp add: dbg_kill_tracee_def)
    then show ?thesis using that[of "say (Out_Text ''Bye..'') (say Out_Killed d')"] ask d'(2,3) by simp
  next
    case NOT_ACTIVE
    then have "dbg_kill_tracee d = Inr (True, d)" by (simp add: dbg_kill_tracee_def)
    then show ?thesis using that[of "say (Out_Text ''Bye..'') d"] ask live_idle[OF assms(1) NOT_ACTIVE] by simp
  qed
  obtain d2 where "dbg_free d1 = Inr d2" "\<forall>p. w_bps d2 p = None" using dbg_free_idle[OF d1(2)] d1(3) assms(3) by auto
  then show ?thesis using d1 by blast
qed

text \<open>
  at the end of the input the debugger leaves the prompt in every state that commands
  reach: it kills a tracee that is still there and then frees every breakpoint, without
  touching freed memory and without the assertion of \<open>dbg_free\<close> failing.
\<close>

theorem end_of_input_exits_cleanly:
  assumes "live d" "db_answers d = []" "read_args (tl (db_args d)) = Inr as"
  shows "\<exists>d1 d2. prompt_loop X (Suc n) last_input d = Inr (Some d1) \<and> idle_ok d1 \<and>
    dbg_free d1 = Inr d2 \<and> (\<forall>p. w_bps d2 p = None)"
  by (rule prompt_at_end_of_input[OF assms])

theorem end_of_input_exits_cleanly_witness:
  "\<exists>d1 d2. prompt_loop demo_cli 1 None demo_debugger = Inr (Some d1) \<and> dbg_free d1 = Inr d2 \<and> (\<forall>p. w_bps d2 p = None)"
  using end_of_input_exits_cleanly[OF demo_live, of "[]" demo_cli 0 None]
  by (auto simp: demo_debugger_def simp del: prompt_loop.simps)

end
