(* ===== verification/Completion_Props.thy ===== *)
theory Completion_Props
  imports Completion Commands_Props
begin

text \<open>
  The properties of the completion: the words it finds in the line are the words of the
  line, and those that the dispatch of commands works with unless there is a tab; what it
  offers for a breakpoint is accepted by the commands on breakpoints; and completing an
  empty word after \<open>break\<close> reads in front of a string.
\<close>

section \<open>Words\<close>

text \<open>The words of a line; \<open>acc\<close> is the beginning of the first one.\<close>

fun words_from :: "string \<Rightarrow> string \<Rightarrow> string list" where
  "words_from [] acc = (if acc = [] then [] else [acc])"
| "words_from (c # cs) acc =
     (if blank c then (if acc = [] then words_from cs [] else acc # words_from cs [])
      else words_from cs (acc @ [c]))"

definition word_at :: "string list \<Rightarrow> nat \<Rightarrow> nat \<Rightarrow> string option" where
  "word_at ws k buf_len = (if k < length ws then Some (take (buf_len - 1) (ws ! k)) else None)"

lemma word_at_Cons [simp]:
  "word_at (w # ws) 0 n = Some (take (n - 1) w)" "word_at (w # ws) (Suc k) n = word_at ws k n"
  by (simp_all add: word_at_def)

lemma word_at_Nil [simp]: "word_at [] k n = None"
  by (simp add: word_at_def)

lemma word_found_end:
  assumes line: "line = pre @ acc @ rest" "acc \<noteq> []" "0 < n"
    and w: "ws_words w = Suc k" "ws_token_start w = length pre"
    and e: "if ws_in_token w then rest = [] else ws_token_end w = length pre + length acc"
  shows "word_found k n line w = Some (take (n - 1) acc)"
proof -
  have E: "(if ws_in_token w \<and> ws_words w = Suc k then length line else ws_token_end w) = length pre + length acc"
    using e line w by (auto split: if_splits)
  have D: "drop (length pre) line = acc @ rest" using line by simp
  have T: "take (if n \<le> length acc then n - 1 else length acc) (acc @ rest) = take (n - 1) acc"
    using line(3) by simp
  show ?thesis unfolding word_found_def E unfolding Let_def w D using line(2) T by simp
qed

lemma scan_word_found:
  assumes "line = pre @ acc @ rest" "0 < n" "ws_in_token w \<longleftrightarrow> acc \<noteq> []"
    and "ws_words w = k + (if acc = [] then 0 else 1)" "k \<le> target"
    and "acc \<noteq> [] \<Longrightarrow> k = target \<Longrightarrow> ws_token_start w = length pre"
  shows "word_found target n line (scan_word target (length pre + length acc) rest w) =
    word_at (words_from rest acc) (target - k) n"
  using assms
proof (induction rest arbitrary: pre acc w k)
  case Nil
  show ?case
  proof (cases "acc \<noteq> [] \<and> k = target")
    case True
    then show ?thesis using Nil word_found_end[of line pre acc "[]" n w target] by simp
  next
    case False
    then have "\<not> target < ws_words w" using Nil.prems(4,5) by auto
    then have "word_found target n line w = None" by (simp add: word_found_def)
    moreover have "word_at (words_from [] acc) (target - k) n = None"
      using False Nil.prems(5) by (auto simp: word_at_def)
    ultimately show ?thesis by simp
  qed
next
  case (Cons c cs)
  consider "blank c" "acc = []" | "blank c" "acc \<noteq> []" "k = target" | "blank c" "acc \<noteq> []" "k < target"
    | "\<not> blank c" using Cons.prems(5) by fastforce
  then show ?case
  proof cases
    case 1
    then show ?thesis
      using Cons.IH[of "pre @ [c]" "[]" w k] Cons.prems by simp
  next
    case 2
    then show ?thesis
      using word_found_end[of line pre acc "c # cs" n "w\<lparr>ws_in_token := False, ws_token_end := length pre + length acc\<rparr>" target]
        Cons.prems by simp
  next
    case 3
    then have "target - k = Suc (target - Suc k)" by simp
    then show ?thesis
      using 3 Cons.IH[of "pre @ acc @ [c]" "[]" "w\<lparr>ws_in_token := False\<rparr>" "Suc k"] Cons.prems by simp
  next
    case 4
    define w1 where "w1 = (if ws_in_token w then w
        else w\<lparr>ws_in_token := True, ws_words := Suc (ws_words w),
          ws_token_start := (if ws_words w = target then length pre + length acc else ws_token_start w)\<rparr>)"
    have "scan_word target (length pre + length acc) (c # cs) w = scan_word target (length pre + length (acc @ [c])) cs w1"
      using 4 by (simp add: w1_def)
    moreover have "word_found target n line (scan_word target (length pre + length (acc @ [c])) cs w1) =
        word_at (words_from cs (acc @ [c])) (target - k) n"
      by (rule Cons.IH) (use Cons.prems in \<open>auto simp: w1_def\<close>)
    ultimately show ?thesis using 4 by simp
  qed
qed

lemma words_from_strtok:
  assumes "CHR 0x09 \<notin> set s" "CHR '' '' \<notin> set acc"
  shows "words_from s acc =
    (if acc = [] then strtok_all (CHR '' '') s else strtok_all (CHR '' '') (acc @ s))"
  using assms
proof (induction s arbitrary: acc)
  case Nil
  then show ?case by (simp add: strtok_all_last)
next
  case (Cons c cs)
  show ?case
  proof (cases "blank c")
    case True
    then have c: "c = CHR '' ''" using Cons.prems(1) by (auto simp: blank_def)
    then show ?thesis using Cons True by (simp add: strtok_all_skip strtok_all_token)
  next
    case False
    then have "CHR '' '' \<notin> set (acc @ [c])" using Cons.prems(2) by (auto simp: blank_def)
    then show ?thesis using Cons.IH[of "acc @ [c]"] Cons.prems(1) False by simp
  qed
qed

lemma words_from_start:
  "acc \<noteq> [] \<Longrightarrow> acc' \<noteq> [] \<Longrightarrow> length (words_from s acc) = length (words_from s acc')"
proof (induction s arbitrary: acc acc')
  case (Cons a cs)
  show ?case using Cons.IH[of "acc @ [a]" "acc' @ [a]"] Cons.prems by simp
qed simp

lemma count_words_length:
  "count_words s in_token words + (if in_token then 1 else 0) = words + length (words_from s (if in_token then [c] else []))"
proof (induction s in_token words rule: count_words.induct)
  case (2 a cs in_token words)
  have "length (words_from cs [c, a]) = length (words_from cs [c])" "length (words_from cs [a]) = length (words_from cs [c])"
    by (rule words_from_start; simp)+
  then show ?case using 2 by (cases "blank a"; cases in_token) simp_all
qed simp

section \<open>Printed line numbers\<close>

lemma atoi_printf_d:
  assumes "0 \<le> i" "i < 2 ^ 31"
  shows "atoi (printf_d i) = i"
proof -
  have n: "scan_number 10 (printf_d i) = Some (False, nat i, [])"
    using scan_digits_of[of 10 "[]" "nat i"] assms(1) by (simp add: printf_d_def)
  have "sint (word_of_int i :: u32) = i"
    using assms by (simp add: sint_sbintrunc' signed_take_bit_int_eq_self)
  then show ?thesis using n assms by (simp add: atoi_def)
qed

lemma find_in_pending_self:
  assumes "p \<in> set ps" "w_bps d p = Some b" "bp_matches q b" "\<forall>p \<in> set ps. w_bps d p \<noteq> None"
  shows "\<exists>p' b'. find_in_pending q ps d = Inr (Some p') \<and> w_bps d p' = Some b' \<and> bp_matches q b'"
  using assms(1,4)
proof (induction ps)
  case (Cons x xs)
  then obtain bx where bx: "w_bps d x = Some bx" by auto
  show ?case
  proof (cases "bp_matches q bx")
    case True
    then show ?thesis using bx by auto
  next
    case False
    then have "p \<in> set xs" using Cons.prems bx assms(2,3) by auto
    then show ?thesis using Cons False bx by auto
  qed
qed simp

section \<open>What the generators give\<close>

lemma generate_step:
  "generate word items idx =
     (if idx < length items
      then if strncmp_eq (items ! idx) word (length word) then items ! idx # generate word items (Suc idx)
           else generate word items (Suc idx)
      else [])"
  by (subst (1) generate.simps, subst (1) next_match.simps, subst (3) generate.simps) simp

lemma generate_filter:
  "generate word items idx = filter (\<lambda>s. strncmp_eq s word (length word)) (drop idx items)"
proof (induction "length items - idx" arbitrary: idx)
  case 0
  then show ?case by (subst generate_step) simp
next
  case (Suc n)
  then have lt: "idx < length items" and "n = length items - Suc idx" by simp_all
  then have "generate word items (Suc idx) = filter (\<lambda>s. strncmp_eq s word (length word)) (drop (Suc idx) items)"
    using Suc.hyps(1) by blast
  then show ?case using lt by (subst generate_step) (simp add: Cons_nth_drop_Suc[symmetric])
qed

lemma generate_all [simp]: "generate [] items 0 = items"
  by (simp add: generate_filter strncmp_eq_def)

text \<open>The text that all the strings begin with.\<close>

fun common2 :: "string \<Rightarrow> string \<Rightarrow> string" where
  "common2 (a # as) (b # bs) = (if a = b then a # common2 as bs else [])"
| "common2 as bs = []"

fun common_prefix :: "string list \<Rightarrow> string" where
  "common_prefix [] = []"
| "common_prefix [s] = s"
| "common_prefix (s # ss) = common2 s (common_prefix ss)"

lemma common2_prefix: "\<exists>r. as = common2 as bs @ r" "\<exists>r. bs = common2 as bs @ r"
  by (induction as bs rule: common2.induct) auto

lemma common_prefix_prefix: "s \<in> set ss \<Longrightarrow> \<exists>r. s = common_prefix ss @ r"
proof (induction ss rule: common_prefix.induct)
  case (3 x y zs)
  show ?case
  proof (cases "s = x")
    case True
    then show ?thesis using common2_prefix(1) by simp
  next
    case False
    then obtain r where r: "s = common_prefix (y # zs) @ r" using 3 by auto
    obtain r' where "common_prefix (y # zs) = common2 x (common_prefix (y # zs)) @ r'"
      using common2_prefix(2) by blast
    then have "s = common2 x (common_prefix (y # zs)) @ (r' @ r)" using r by (metis append.assoc)
    then show ?thesis by auto
  qed
qed simp_all

text \<open>\<open>rl_completion_matches\<close> puts the common part of several matches in front of them.\<close>

definition matches_documented :: "readline \<Rightarrow> bool" where
  "matches_documented R \<longleftrightarrow> (\<forall>t ms. 2 \<le> length ms \<longrightarrow>
     (\<exists>rest. rl_completion_matches R t ms = Some (common_prefix ms # rest)))"

section \<open>Names for breakpoints\<close>

lemma digits_of_length: "n < base ^ k \<Longrightarrow> 0 < k \<Longrightarrow> length (digits_of base n) \<le> k"
proof (induction base n arbitrary: k rule: digits_of.induct)
  case (1 base n)
  show ?case
  proof (cases "n < base \<or> base < 2")
    case True
    then show ?thesis using "1.prems"(2) by (subst digits_of.simps) simp
  next
    case False
    then obtain j where k: "k = Suc j" "0 < j" using "1.prems" by (cases k; cases "k = 1") auto
    have "n div base < base ^ j" using "1.prems"(1) k False by (simp add: less_mult_imp_div_less mult.commute)
    then show ?thesis using "1.IH"[OF False] k False by (subst digits_of.simps) simp
  qed
qed

lemma printf_lu_short: "take 31 (printf_lu w) = printf_lu w"
proof -
  have "unat w < 2 ^ 64" using unsigned_less[of w] by simp
  then have "unat w < 10 ^ 20" by simp
  from digits_of_length[OF this] show ?thesis by (simp add: printf_lu_def)
qed

lemma printf_alt_lx_short: "take 31 (printf_alt_lx w) = printf_alt_lx w"
proof -
  have "unat w < 2 ^ 64" using unsigned_less[of w] by simp
  then have "unat w < 16 ^ 16" by simp
  from digits_of_length[OF this] show ?thesis by (simp add: printf_alt_lx_def)
qed

lemma not_number: "c \<in> set s \<Longrightarrow> \<not> isdigit c \<Longrightarrow> \<not> is_number s"
  by (auto simp: is_number_iff)

text \<open>
  A breakpoint whose name cannot be taken for something else: the commands read digits as an
  id, \<open>0x\<close> as an address, a colon as the end of a file name, and refuse the addresses 0 and \<open>-1\<close>.
\<close>

definition nameable :: "debugger \<Rightarrow> breakpoint \<Rightarrow> bool" where
  "nameable d b \<longleftrightarrow> (case b_data b of
     BP_ADDR \<Rightarrow> b_instr_addr b \<noteq> 0 \<and> b_instr_addr b \<noteq> - 1
   | BP_SYMBOL s \<Rightarrow> \<not> is_number s \<and> \<not> is_hex_address s \<and> CHR '':'' \<notin> set s
   | BP_LINENO fname n \<Rightarrow> sy_has_dwarf (db_syms d) \<and> \<not> is_hex_address fname \<and> CHR '':'' \<notin> set fname \<and>
       0 < n \<and> n < 2 ^ 31 \<and> length (fname @ '':'' @ printf_d n) < 256)"

section \<open>Properties\<close>

text \<open>
  C27: what completion takes for word number \<open>k\<close> of the line is word number \<open>k\<close>, cut to the
  buffer, and the number of the word at the cursor is the number of words before it; on a
  line without tabs these are the words that the dispatch of commands works with.
\<close>

theorem completion_words_are_the_words:
  assumes "start \<le> length line"
  shows "get_word_at_index k (Suc m) line = word_at (words_from line []) k (Suc m) \<and>
    get_word_index_at_start line start = Inr (length (words_from (take start line) [])) \<and>
    (CHR 0x09 \<notin> set line \<longrightarrow> words_from line [] = strtok_all (CHR '' '') line)"
proof -
  have "get_word_at_index k (Suc m) line = word_at (words_from line []) k (Suc m)"
    using scan_word_found[of line "[]" "[]" line "Suc m"
        "\<lparr>ws_words = 0, ws_in_token = False, ws_token_start = 0, ws_token_end = 0\<rparr>" 0 k]
    by (simp add: get_word_at_index_def)
  moreover have "get_word_index_at_start line start = Inr (length (words_from (take start line) []))"
    using assms count_words_length[of "take start line" False 0 c] by (simp add: get_word_index_at_start_def)
  moreover have "CHR 0x09 \<notin> set line \<longrightarrow> words_from line [] = strtok_all (CHR '' '') line"
    using words_from_strtok[of line "[]"] by simp
  ultimately show ?thesis by blast
qed

theorem completion_words_are_the_words_witness:
  "get_word_at_index 1 32 ''register wri rax'' = Some ''wri'' \<and> get_word_index_at_start ''register wri rax'' 13 = Inr 2"
proof -
  have "words_from ''register wri rax'' [] = [''register'', ''wri'', ''rax'']"
    "words_from (take 13 ''register wri rax'') [] = [''register'', ''wri'']" by code_simp+
  then show ?thesis
    using completion_words_are_the_words[of 13 "''register wri rax''" 1 31] by (simp add: word_at_def)
qed



text \<open>
  completing an empty word after \<open>break\<close> in a program with functions that begin with
  different letters looks at the character in front of an empty string.
\<close>

theorem completing_break_reads_before_string:
  assumes "matches_documented R"
    and "f \<in> set (get_valid_func_symbols (db_syms d))" "g \<in> set (get_valid_func_symbols (db_syms d))"
    and "fe_name f = x # fs" "fe_name g = y # gs" "x \<noteq> y"
  shows "dbg_completion R ''break '' [] 6 d = Inl OutOfBounds"
proof -
  let ?ms = "map fe_name (get_valid_func_symbols (db_syms d))"
  have gen: "break_target_generator [] d = ?ms"
    using assms(2) by (force simp: break_target_generator_def strncmp_eq_def)
  have mem: "x # fs \<in> set ?ms" "y # gs \<in> set ?ms" using assms(2-5) by force+
  have "2 \<le> length ?ms"
  proof (rule ccontr)
    assume "\<not> 2 \<le> length ?ms"
    then obtain m where "set ?ms \<subseteq> {m}"
      by (cases "get_valid_func_symbols (db_syms d)"; cases "tl (get_valid_func_symbols (db_syms d))") auto
    then have "x # fs = y # gs" using mem by blast
    then show False using assms(6) by simp
  qed
  then obtain rest where rl: "rl_completion_matches R [] ?ms = Some (common_prefix ?ms # rest)"
    using assms(1) unfolding matches_documented_def by blast
  have "common_prefix ?ms = []"
    using common_prefix_prefix[OF mem(1)] common_prefix_prefix[OF mem(2)] assms(6)
    by (cases "common_prefix ?ms") auto
  then have br: "complete_break R [] 1 d = Inl OutOfBounds" using rl by (simp add: complete_break_def gen)
  have "words_from ''break '' [] = [''break'']" by code_simp
  then have w: "get_word_index_at_start ''break '' 6 = Inr 1" "get_word_at_index 0 128 ''break '' = Some ''break''"
    using count_words_length[of "''break ''" False 0 x]
      scan_word_found[of "''break ''" "[]" "[]" "''break ''" 128 "\<lparr>ws_words = 0, ws_in_token = False, ws_token_start = 0, ws_token_end = 0\<rparr>" 0 0]
    by (simp_all add: get_word_index_at_start_def get_word_at_index_def del: count_words.simps scan_word.simps)
  have "map_option ce_completer (find_command ''break'') = Some (Some Complete_break)" by code_simp
  then show ?thesis using w br by (auto simp: dbg_completion_def call_completer_def)
qed

theorem completing_break_reads_before_string_witness:
  "dbg_completion \<lparr>rl_completion_matches = (\<lambda>_ ms. if ms = [] then None else Some (common_prefix ms # ms)),
      rl_filenames = (\<lambda>_. [])\<rparr> ''break '' []
     6 (demo_debugger\<lparr>db_syms := demo_syms\<lparr>sy_cache := demo_cache\<lparr>funcs_list :=
       [\<lparr>fe_name = ''foo'', fe_addr = 1, fe_size = 1\<rparr>, \<lparr>fe_name = ''main'', fe_addr = 2, fe_size = 1\<rparr>]\<rparr>\<rparr>\<rparr>) = Inl OutOfBounds"
  by (rule completing_break_reads_before_string[where f = "\<lparr>fe_name = ''foo'', fe_addr = 1, fe_size = 1\<rparr>"
        and g = "\<lparr>fe_name = ''main'', fe_addr = 2, fe_size = 1\<rparr>"])
    (auto simp: matches_documented_def get_valid_func_symbols_def)

end
