(* ===== verification/Generators.thy ===== *)
theory Generators
  imports Completion_Props
begin

text \<open>
  The generators of \<open>src/completion.c\<close> at the level of their static variables: readline calls a
  generator with 0, 1, 2 and so on until it returns a null pointer, and between the calls the
  generator keeps its position, the length of the word and its tables in static variables,
  the candidates for breakpoints in an array that grows. A locale states what readline relies
  on, every generator is an instance of it, and so gives the list that theory Completion says.
\<close>

section \<open>The protocol\<close>

text \<open>The calls that readline makes; fuel bounds their number.\<close>

fun rl_calls :: "(nat \<Rightarrow> 's \<Rightarrow> (string option \<times> 's) res) \<Rightarrow> nat \<Rightarrow> nat \<Rightarrow> 's \<Rightarrow> (string list \<times> 's) option res" where
  "rl_calls call 0 k s = Inr None"
| "rl_calls call (Suc n) k s =
     res_bind (call k s) (\<lambda>(m, s1).
       case m of
         None \<Rightarrow> Inr (Some ([], s1))
       | Some x \<Rightarrow> res_bind (rl_calls call n (Suc k) s1) (\<lambda>r.
           Inr (map_option (\<lambda>(xs, s2). (x # xs, s2)) r)))"

text \<open>
  \<open>left s xs\<close>: the calls still to come give \<open>xs\<close>. Whatever an earlier completion has left in the
  static variables, the call with 0 starts afresh.
\<close>

locale generator =
  fixes call :: "nat \<Rightarrow> 's \<Rightarrow> (string option \<times> 's) res"
    and ok :: "'s \<Rightarrow> bool"
    and items :: "string list"
    and left :: "'s \<Rightarrow> string list \<Rightarrow> bool"
  assumes first_call: "ok s \<Longrightarrow> \<exists>g. call 0 s = call 1 g \<and> left g items"
    and last_call: "left s [] \<Longrightarrow> 0 < k \<Longrightarrow> \<exists>s'. call k s = Inr (None, s') \<and> ok s'"
    and next_call: "left s (x # xs) \<Longrightarrow> 0 < k \<Longrightarrow> \<exists>s'. call k s = Inr (Some x, s') \<and> left s' xs"
begin

lemma calls_left:
  "call j r = call k s \<Longrightarrow> left s xs \<Longrightarrow> 0 < k \<Longrightarrow> length xs < n \<Longrightarrow>
     \<exists>s'. rl_calls call n j r = Inr (Some (xs, s')) \<and> ok s'"
proof (induction xs arbitrary: j r k s n)
  case Nil
  then obtain m where "n = Suc m" by (cases n) auto
  then show ?case using last_call[OF Nil(2,3)] Nil(1) by auto
next
  case (Cons x xs)
  then obtain m where m: "n = Suc m" by (cases n) auto
  obtain s1 where s1: "call k s = Inr (Some x, s1)" "left s1 xs" using next_call[OF Cons.prems(2,3)] by blast
  then obtain s' where "rl_calls call m (Suc j) s1 = Inr (Some (xs, s'))" "ok s'"
    using Cons.IH[OF refl s1(2), of "Suc j" m] Cons.prems(4) m by auto
  then show ?case using m s1(1) Cons.prems(1) by auto
qed

lemma completion_calls:
  assumes "ok s" "length items < n"
  shows "\<exists>s'. rl_calls call n 0 s = Inr (Some (items, s')) \<and> ok s'"
proof -
  obtain g where "call 0 s = call 1 g" "left g items" using first_call[OF assms(1)] by blast
  then show ?thesis using calls_left[of 0 s 1 g items n] assms(2) by simp
qed

end

section \<open>Tables\<close>

text \<open>
  \<open>while (idx < size) { item = items[idx++]; if (!strncmp(item, text, len)) return ...; }\<close>: what is
  returned and the index afterwards.
\<close>

function scan :: "string \<Rightarrow> nat \<Rightarrow> string list \<Rightarrow> nat \<Rightarrow> string option \<times> nat" where
  "scan word len items idx =
     (if idx < length items
      then if strncmp_eq (items ! idx) word len then (Some (items ! idx), Suc idx)
           else scan word len items (Suc idx)
      else (None, idx))"
  by pat_completeness auto
termination by (relation "measure (\<lambda>(word, len, items, idx). length items - idx)") auto

declare scan.simps [simp del]

lemma scan_next:
  "idx \<le> length items \<Longrightarrow> scan word (length word) items idx =
     (case next_match word items idx of None \<Rightarrow> (None, length items) | Some (s, i) \<Rightarrow> (Some s, i))"
proof (induction word "length word" items idx rule: scan.induct)
  case (1 word items idx)
  show ?case
  proof (cases "idx < length items \<and> \<not> strncmp_eq (items ! idx) word (length word)")
    case True
    then have "scan word (length word) items (Suc idx) =
        (case next_match word items (Suc idx) of None \<Rightarrow> (None, length items) | Some (s, i) \<Rightarrow> (Some s, i))"
      using "1.hyps" by simp
    then show ?thesis using True by (subst scan.simps, subst next_match.simps) simp
  next
    case False
    then show ?thesis using 1 by (subst scan.simps, subst next_match.simps) auto
  qed
qed

text \<open>The position after a call gives the rest of what is generated.\<close>

lemma scan_generate:
  assumes "idx \<le> length items"
  shows "generate word items idx = [] \<longleftrightarrow> scan word (length word) items idx = (None, length items)"
    and "generate word items idx = x # xs \<longleftrightarrow>
      (\<exists>i. scan word (length word) items idx = (Some x, i) \<and> i \<le> length items \<and> generate word items i = xs)"
proof -
  have le: "i \<le> length items" if "next_match word items idx = Some (s, i)" for s i
    using next_match_less[OF that] by simp
  note g = generate.simps[of word items idx]
  show "generate word items idx = [] \<longleftrightarrow> scan word (length word) items idx = (None, length items)"
    unfolding g scan_next[OF assms] by (auto split: option.splits)
  show "generate word items idx = x # xs \<longleftrightarrow>
      (\<exists>i. scan word (length word) items idx = (Some x, i) \<and> i \<le> length items \<and> generate word items i = xs)"
    unfolding g scan_next[OF assms] using le by (auto split: option.splits)
qed

section \<open>Generators over one table\<close>

record position =
  ps_idx :: nat
  ps_len :: nat

definition at_start :: "string \<Rightarrow> position" where
  "at_start word = \<lparr>ps_idx = 0, ps_len = length word\<rparr>"

text \<open>\<open>strlist\<close> ends with a null pointer, which stops the loop where the index is not past it.\<close>

definition strlist_generator_call :: "string list \<Rightarrow> string \<Rightarrow> nat \<Rightarrow> position \<Rightarrow> (string option \<times> position) res" where
  "strlist_generator_call strlist word state g =
     (let g1 = if state = 0 then at_start word else g
      in if length strlist < ps_idx g1 then Inl OutOfBounds
         else let (item, i) = scan word (ps_len g1) strlist (ps_idx g1) in Inr (item, g1\<lparr>ps_idx := i\<rparr>))"

text \<open>The loop over \<open>commands\<close> moves its index past the null name at the end.\<close>

definition command_generator_call :: "string \<Rightarrow> nat \<Rightarrow> position \<Rightarrow> (string option \<times> position) res" where
  "command_generator_call word state g =
     (let names = map ce_name commands; g1 = if state = 0 then at_start word else g
      in if length names < ps_idx g1 then Inl OutOfBounds
         else case scan word (ps_len g1) names (ps_idx g1) of
                (Some cmd, i) \<Rightarrow> Inr (Some cmd, g1\<lparr>ps_idx := i\<rparr>)
              | (None, i) \<Rightarrow> Inr (None, g1\<lparr>ps_idx := Suc i\<rparr>))"

record function_statics = position +
  fs_funcs :: "string list"

definition function_generator_call ::
    "string \<Rightarrow> debugger \<Rightarrow> nat \<Rightarrow> function_statics \<Rightarrow> (string option \<times> function_statics) res" where
  "function_generator_call word d state g =
     (let g1 = if state = 0
               then \<lparr>ps_idx = 0, ps_len = length word,
                     fs_funcs = map fe_name (get_valid_func_symbols (db_syms d))\<rparr>
               else g;
          (name, i) = scan word (ps_len g1) (fs_funcs g1) (ps_idx g1)
      in Inr (name, g1\<lparr>ps_idx := i\<rparr>))"

text \<open>First the functions, then, when no function matches, the files, each with a colon behind it.\<close>

record target_statics = function_statics +
  tg_file_idx :: nat
  tg_files :: "string list"
  tg_has_func_match :: bool

definition break_target_generator_call ::
    "string \<Rightarrow> debugger \<Rightarrow> nat \<Rightarrow> target_statics \<Rightarrow> (string option \<times> target_statics) res" where
  "break_target_generator_call word d state g =
     (let funcs = map fe_name (get_valid_func_symbols (db_syms d));
          g1 = if state = 0
               then \<lparr>ps_idx = 0, ps_len = length word, fs_funcs = funcs, tg_file_idx = 0,
                     tg_files = get_source_files (db_syms d),
                     tg_has_func_match = list_ex (\<lambda>f. strncmp_eq f word (length word)) funcs\<rparr>
               else g
      in case scan word (ps_len g1) (fs_funcs g1) (ps_idx g1) of
           (Some name, i) \<Rightarrow> Inr (Some name, g1\<lparr>ps_idx := i\<rparr>)
         | (None, i) \<Rightarrow>
             let g2 = g1\<lparr>ps_idx := i\<rparr>
             in if tg_has_func_match g2 then Inr (None, g2)
                else let (name, j) = scan word (ps_len g2) (map (\<lambda>name. take 255 (name @ '':'')) (tg_files g2))
                                       (tg_file_idx g2)
                     in Inr (name, g2\<lparr>tg_file_idx := j\<rparr>))"

definition in_table :: "string \<Rightarrow> string list \<Rightarrow> 'a position_scheme \<Rightarrow> string list \<Rightarrow> bool" where
  "in_table word items g xs \<longleftrightarrow> ps_idx g \<le> length items \<and> ps_len g = length word \<and> xs = generate word items (ps_idx g)"

lemma in_table_last:
  assumes "in_table word items g []"
  shows "scan word (ps_len g) items (ps_idx g) = (None, length items)" "ps_idx g \<le> length items"
  using assms scan_generate(1)[of "ps_idx g" items word] by (auto simp: in_table_def)

lemma in_table_next:
  assumes "in_table word items g (x # xs)"
  shows "\<exists>i. scan word (ps_len g) items (ps_idx g) = (Some x, i) \<and> in_table word items (g\<lparr>ps_idx := i\<rparr>) xs \<and>
    ps_idx g \<le> length items"
proof -
  have g: "ps_idx g \<le> length items" "ps_len g = length word" "generate word items (ps_idx g) = x # xs"
    using assms by (simp_all add: in_table_def)
  from g(3)[unfolded scan_generate(2)[OF g(1)]] show ?thesis using g(1,2) by (auto simp: in_table_def)
qed

interpretation strlist_gen: generator "strlist_generator_call items word" "\<lambda>_. True" "strlist_generator word items"
    "in_table word items" for items word
proof (unfold_locales, goal_cases)
  case (1 s)
  have "in_table word items (at_start word) (strlist_generator word items)"
    by (simp add: in_table_def at_start_def strlist_generator_def)
  then show ?case by (intro exI[of _ "at_start word"]) (simp add: strlist_generator_call_def)
next
  case (2 s k)
  then show ?case using in_table_last[OF 2(1)] by (simp add: strlist_generator_call_def)
next
  case (3 s x xs k)
  then show ?case using in_table_next[OF 3(1)] by (auto simp: strlist_generator_call_def)
qed

interpretation command_gen: generator "command_generator_call word" "\<lambda>_. True" "command_generator word"
    "in_table word (map ce_name commands)" for word
proof (unfold_locales, goal_cases)
  case (1 s)
  have "in_table word (map ce_name commands) (at_start word) (command_generator word)"
    by (simp add: in_table_def at_start_def command_generator_def)
  then show ?case by (intro exI[of _ "at_start word"]) (simp add: command_generator_call_def)
next
  case (2 s k)
  then show ?case using in_table_last[OF 2(1)] by (simp add: command_generator_call_def)
next
  case (3 s x xs k)
  then show ?case using in_table_next[OF 3(1)] by (auto simp: command_generator_call_def)
qed

interpretation function_gen: generator "function_generator_call word d" "\<lambda>_. True" "function_generator word d"
    "\<lambda>g xs. in_table word (map fe_name (get_valid_func_symbols (db_syms d))) g xs \<and>
       fs_funcs g = map fe_name (get_valid_func_symbols (db_syms d))" for word d
proof (unfold_locales, goal_cases)
  case (1 s)
  let ?g = "\<lparr>ps_idx = 0, ps_len = length word, fs_funcs = map fe_name (get_valid_func_symbols (db_syms d))\<rparr>"
  show ?case by (rule exI[of _ ?g]) (simp add: function_generator_call_def in_table_def function_generator_def)
next
  case (2 s k)
  then show ?case using in_table_last[OF conjunct1[OF 2(1)]] by (simp add: function_generator_call_def)
next
  case (3 s x xs k)
  then show ?case using in_table_next[OF conjunct1[OF 3(1)]] by (auto simp: function_generator_call_def)
qed

definition with_colon :: "string list \<Rightarrow> string list" where
  "with_colon = map (\<lambda>name. take 255 (name @ '':''))"

definition targets_left :: "string \<Rightarrow> debugger \<Rightarrow> target_statics \<Rightarrow> string list \<Rightarrow> bool" where
  "targets_left word d g xs \<longleftrightarrow> ps_idx g \<le> length (fs_funcs g) \<and> ps_len g = length word \<and>
     tg_file_idx g \<le> length (tg_files g) \<and>
     xs = generate word (fs_funcs g) (ps_idx g) @
       (if tg_has_func_match g then [] else generate word (with_colon (tg_files g)) (tg_file_idx g))"

lemma generate_end: "length items \<le> idx \<Longrightarrow> generate word items idx = []"
  by (simp add: generate_filter)

interpretation target_gen: generator "break_target_generator_call word d" "\<lambda>_. True" "break_target_generator word d"
    "targets_left word d" for word d
proof (unfold_locales, goal_cases)
  case (1 s)
  let ?funcs = "map fe_name (get_valid_func_symbols (db_syms d))"
  let ?g = "\<lparr>ps_idx = 0, ps_len = length word, fs_funcs = ?funcs, tg_file_idx = 0,
    tg_files = get_source_files (db_syms d), tg_has_func_match = list_ex (\<lambda>f. strncmp_eq f word (length word)) ?funcs\<rparr>"
  have "targets_left word d ?g (break_target_generator word d)"
    by (auto simp: targets_left_def break_target_generator_def with_colon_def list_ex_iff Let_def)
  then show ?case by (intro exI[of _ ?g]) (simp add: break_target_generator_call_def Let_def)
next
  case (2 s k)
  then have s: "in_table word (fs_funcs s) s []" "\<not> tg_has_func_match s \<Longrightarrow> generate word (with_colon (tg_files s)) (tg_file_idx s) = []"
    "tg_file_idx s \<le> length (with_colon (tg_files s))" "ps_len s = length word"
    by (auto simp: targets_left_def in_table_def with_colon_def)
  have "scan word (length word) (with_colon (tg_files s)) (tg_file_idx s) = (None, length (with_colon (tg_files s)))"
    if "\<not> tg_has_func_match s"
    using scan_generate(1)[OF s(3), of word] s(2)[OF that] by simp
  then show ?case
    using in_table_last[OF s(1)] s(4) 2(2) by (auto simp: break_target_generator_call_def Let_def with_colon_def)
next
  case (3 s x xs k)
  then have s: "ps_idx s \<le> length (fs_funcs s)" "ps_len s = length word" "tg_file_idx s \<le> length (with_colon (tg_files s))"
    "x # xs = generate word (fs_funcs s) (ps_idx s) @
       (if tg_has_func_match s then [] else generate word (with_colon (tg_files s)) (tg_file_idx s))"
    by (auto simp: targets_left_def with_colon_def)
  show ?case
  proof (cases "generate word (fs_funcs s) (ps_idx s)")
    case (Cons y ys)
    then obtain i where i: "scan word (length word) (fs_funcs s) (ps_idx s) = (Some y, i)" "i \<le> length (fs_funcs s)"
      "generate word (fs_funcs s) i = ys"
      using scan_generate(2)[OF s(1), of word y ys] by blast
    then show ?thesis using s 3(2) Cons by (auto simp: break_target_generator_call_def targets_left_def with_colon_def)
  next
    case Nil
    then have n: "scan word (length word) (fs_funcs s) (ps_idx s) = (None, length (fs_funcs s))"
      using scan_generate(1)[OF s(1), of word] by simp
    have f: "\<not> tg_has_func_match s" "generate word (with_colon (tg_files s)) (tg_file_idx s) = x # xs"
      using s(4) Nil by (auto split: if_splits)
    from f(2)[unfolded scan_generate(2)[OF s(3)]]
    obtain j where j: "scan word (length word) (with_colon (tg_files s)) (tg_file_idx s) = (Some x, j)"
      "j \<le> length (with_colon (tg_files s))" "generate word (with_colon (tg_files s)) j = xs" by blast
    then show ?thesis using s(2) n f(1) 3(2)
      by (simp add: break_target_generator_call_def targets_left_def with_colon_def Let_def generate_end)
  qed
qed

section \<open>The breakpoint generator\<close>

text \<open>
  The candidates: the array with what its slots hold, their number and the capacity noted for
  the array. A slot without a string is one that has never been written or whose string has
  been freed; \<open>bp_candidates\<close> is the null pointer while the array has no slot.
\<close>

record bp_statics = position +
  bg_cands :: "string option list"
  bg_count :: nat
  bg_cap :: nat

text \<open>\<open>grow cap\<close>: \<open>realloc\<close> to \<open>cap\<close> pointers succeeds; the capacity is noted before it is called.\<close>

definition cand_store :: "string \<Rightarrow> bp_statics \<Rightarrow> bp_statics res" where
  "cand_store s g =
     (if bg_count g < length (bg_cands g)
      then Inr (g\<lparr>bg_cands := (bg_cands g)[bg_count g := Some s], bg_count := Suc (bg_count g)\<rparr>)
      else Inl OutOfBounds)"

definition bp_cand_add :: "(nat \<Rightarrow> bool) \<Rightarrow> string option \<Rightarrow> bp_statics \<Rightarrow> bp_statics res" where
  "bp_cand_add grow s g =
     (case s of
        None \<Rightarrow> Inr g
      | Some s \<Rightarrow>
          if bg_cap g \<le> bg_count g
          then let cap = (if bg_cap g = 0 then 16 else bg_cap g * 2); g1 = g\<lparr>bg_cap := cap\<rparr>
               in if \<not> grow cap then Inr g1
                  else cand_store s (g1\<lparr>bg_cands := take cap (bg_cands g1 @ replicate cap None)\<rparr>)
          else cand_store s g)"

definition free_candidates :: "bp_statics \<Rightarrow> bp_statics res" where
  "free_candidates g =
     (if length (bg_cands g) < bg_count g then Inl OutOfBounds
      else if \<not> list_all (\<lambda>s. s \<noteq> None) (take (bg_count g) (bg_cands g)) then Inl UninitRead
      else Inr (g\<lparr>bg_cands := replicate (bg_count g) None @ drop (bg_count g) (bg_cands g), bg_count := 0\<rparr>))"

definition add_candidates :: "(nat \<Rightarrow> bool) \<Rightarrow> debugger \<Rightarrow> nat \<Rightarrow> bp_statics \<Rightarrow> bp_statics res" where
  "add_candidates grow d p g =
     res_bind (deref (w_bps d) p) (\<lambda>b.
       res_fold (\<lambda>s. bp_cand_add grow (Some s)) (bp_candidates b) g)"

function scan_candidates :: "string \<Rightarrow> nat \<Rightarrow> string option list \<Rightarrow> nat \<Rightarrow> nat \<Rightarrow> (string option \<times> nat) res" where
  "scan_candidates word len slots cand_count idx =
     (if idx < cand_count
      then if length slots \<le> idx then Inl OutOfBounds
           else case slots ! idx of
                  None \<Rightarrow> Inl UninitRead
                | Some cand \<Rightarrow>
                    if strncmp_eq cand word len then Inr (Some cand, Suc idx)
                    else scan_candidates word len slots cand_count (Suc idx)
      else Inr (None, idx))"
  by pat_completeness auto
termination by (relation "measure (\<lambda>(word, len, slots, cand_count, idx). cand_count - idx)") auto

declare scan_candidates.simps [simp del]

definition bp_generator_call ::
    "(nat \<Rightarrow> bool) \<Rightarrow> string \<Rightarrow> debugger \<Rightarrow> nat \<Rightarrow> bp_statics \<Rightarrow> (string option \<times> bp_statics) res" where
  "bp_generator_call grow word d state g =
     res_bind
       (if state = 0
        then res_bind (free_candidates (g\<lparr>ps_idx := 0, ps_len := length word\<rparr>)) (\<lambda>g1.
               res_fold (add_candidates grow d) (db_pending_breakpoints d) g1)
        else Inr g) (\<lambda>g1.
     res_bind (scan_candidates word (ps_len g1) (bg_cands g1) (bg_count g1) (ps_idx g1)) (\<lambda>(cand, i).
       Inr (cand, g1\<lparr>ps_idx := i\<rparr>)))"

text \<open>The array holds \<open>items\<close>.\<close>

definition holds :: "bp_statics \<Rightarrow> string list \<Rightarrow> bool" where
  "holds g items \<longleftrightarrow> bg_count g = length items \<and> length (bg_cands g) = bg_cap g \<and> length items \<le> bg_cap g \<and>
     take (length items) (bg_cands g) = map Some items"

lemma holds_store:
  assumes "holds g items" "bg_count g < bg_cap g"
  shows "\<exists>g'. cand_store s g = Inr g' \<and> holds g' (items @ [s]) \<and> ps_idx g' = ps_idx g \<and> ps_len g' = ps_len g"
proof -
  let ?slots = "(bg_cands g)[length items := Some s]"
  have g: "bg_count g = length items" "length (bg_cands g) = bg_cap g" "take (length items) (bg_cands g) = map Some items"
    "length items < length (bg_cands g)"
    using assms by (simp_all add: holds_def)
  have "take (Suc (length items)) ?slots = take (length items) ?slots @ [?slots ! length items]"
    by (rule take_Suc_conv_app_nth) (simp add: g(4))
  also have "\<dots> = map Some (items @ [s])" using g(3,4) by simp
  finally show ?thesis using g by (simp add: cand_store_def holds_def)
qed

definition grown :: "bp_statics \<Rightarrow> nat \<Rightarrow> bp_statics" where
  "grown g cap = g\<lparr>bg_cap := cap, bg_cands := take cap (bg_cands g @ replicate cap None)\<rparr>"

lemma add_full:
  assumes "bg_cap g \<le> bg_count g" "cap = (if bg_cap g = 0 then 16 else bg_cap g * 2)"
  shows "bp_cand_add grow (Some s) g =
    (if grow cap then cand_store s (grown g cap) else Inr (g\<lparr>bg_cap := cap\<rparr>))"
  unfolding assms(2) using assms(1) by (simp add: bp_cand_add_def grown_def Let_def del: take_append)

lemma grown_sel [simp]:
  "bg_cap (grown g cap) = cap" "bg_count (grown g cap) = bg_count g" "ps_idx (grown g cap) = ps_idx g"
  "ps_len (grown g cap) = ps_len g" "bg_cands (grown g cap) = take cap (bg_cands g @ replicate cap None)"
  by (simp_all add: grown_def)

lemma holds_add:
  assumes "holds g items"
  shows "\<exists>g'. bp_cand_add (\<lambda>_. True) (Some s) g = Inr g' \<and> holds g' (items @ [s]) \<and> ps_idx g' = ps_idx g \<and> ps_len g' = ps_len g"
proof (cases "bg_cap g \<le> bg_count g")
  case False
  then have "bp_cand_add (\<lambda>_. True) (Some s) g = cand_store s g" by (simp add: bp_cand_add_def)
  then show ?thesis using holds_store[OF assms] False by simp
next
  case True
  define cap where "cap = (if bg_cap g = 0 then 16 else bg_cap g * 2)"
  have c: "bg_cap g < cap" "bg_count g = bg_cap g" "bg_cands g = map Some items" "length items = bg_cap g"
    using True assms by (auto simp: cap_def holds_def)
  have "holds (grown g cap) items" using c assms by (simp add: holds_def)
  moreover have "bg_count (grown g cap) < bg_cap (grown g cap)" using c(1,2) by simp
  ultimately have "\<exists>g'. cand_store s (grown g cap) = Inr g' \<and> holds g' (items @ [s]) \<and>
      ps_idx g' = ps_idx (grown g cap) \<and> ps_len g' = ps_len (grown g cap)" by (rule holds_store)
  then show ?thesis unfolding add_full[OF True cap_def] by simp
qed

lemma holds_add_all:
  "holds g items \<Longrightarrow> \<exists>g'. res_fold (\<lambda>s. bp_cand_add (\<lambda>_. True) (Some s)) ss g = Inr g' \<and> holds g' (items @ ss) \<and>
    ps_idx g' = ps_idx g \<and> ps_len g' = ps_len g"
proof (induction ss arbitrary: g items)
  case (Cons s ss)
  obtain g1 where g1: "bp_cand_add (\<lambda>_. True) (Some s) g = Inr g1" "holds g1 (items @ [s])" "ps_idx g1 = ps_idx g" "ps_len g1 = ps_len g"
    using holds_add[OF Cons.prems] by blast
  from Cons.IH[OF g1(2)] show ?case using g1(1,3,4) by auto
qed simp

lemma holds_collect:
  assumes bs: "deref_all (w_bps d) ps = Inr bs" and g: "holds g items"
  shows "\<exists>g'. res_fold (add_candidates (\<lambda>_. True) d) ps g = Inr g' \<and> holds g' (items @ concat (map bp_candidates bs)) \<and>
    ps_idx g' = ps_idx g \<and> ps_len g' = ps_len g"
  using bs g
proof (induction ps arbitrary: bs g items)
  case (Cons p ps)
  then obtain b bs' where b: "w_bps d p = Some b" "deref_all (w_bps d) ps = Inr bs'" "bs = b # bs'" by auto
  obtain g1 where g1: "add_candidates (\<lambda>_. True) d p g = Inr g1" "holds g1 (items @ bp_candidates b)"
    "ps_idx g1 = ps_idx g" "ps_len g1 = ps_len g"
    using holds_add_all[OF Cons.prems(2)] b(1) by (auto simp: add_candidates_def)
  from Cons.IH[OF b(2) g1(2)] show ?case using b(3) g1(1,3,4) by auto
qed simp

lemma free_candidates_holds:
  assumes "holds g items"
  shows "\<exists>g'. free_candidates g = Inr g' \<and> holds g' [] \<and> ps_idx g' = ps_idx g \<and> ps_len g' = ps_len g"
proof -
  have "list_all (\<lambda>s. s \<noteq> None) (take (bg_count g) (bg_cands g))"
    using assms by (simp add: holds_def list_all_iff)
  then show ?thesis using assms by (simp add: free_candidates_def holds_def)
qed

lemma scan_candidates_scan:
  assumes "take (length items) slots = map Some items" "length items \<le> length slots"
  shows "scan_candidates word len slots (length items) idx = Inr (scan word len items idx)"
  using assms
proof (induction word len items idx rule: scan.induct)
  case (1 word len items idx)
  have "slots ! idx = Some (items ! idx)" if "idx < length items"
    using that nth_take[of idx "length items" slots] "1.prems" by simp
  then show ?case using 1 by (subst scan_candidates.simps, subst scan.simps) simp
qed

definition bps_left :: "string \<Rightarrow> bp_statics \<Rightarrow> string list \<Rightarrow> bool" where
  "bps_left word g xs \<longleftrightarrow> (\<exists>items. holds g items \<and> in_table word items g xs)"

lemma bps_left_scan:
  assumes "holds g items" "0 < k"
  shows "bp_generator_call grow word d k g =
    (case scan word (ps_len g) items (ps_idx g) of (cand, i) \<Rightarrow> Inr (cand, g\<lparr>ps_idx := i\<rparr>))"
proof -
  have "scan_candidates word (ps_len g) (bg_cands g) (bg_count g) (ps_idx g) = Inr (scan word (ps_len g) items (ps_idx g))"
    using scan_candidates_scan[of items "bg_cands g"] assms(1) by (simp add: holds_def)
  then show ?thesis using assms(2) by (simp add: bp_generator_call_def split: prod.split)
qed

definition bp_items :: "string \<Rightarrow> debugger \<Rightarrow> string list" where
  "bp_items word d = (case bp_generator word d of Inr ms \<Rightarrow> ms | Inl _ \<Rightarrow> [])"

interpretation bp_gen: generator "bp_generator_call (\<lambda>_. True) word d"
    "\<lambda>g. (\<exists>items. holds g items) \<and> (\<exists>ms. bp_generator word d = Inr ms)" "bp_items word d"
    "\<lambda>g xs. bps_left word g xs \<and> (\<exists>ms. bp_generator word d = Inr ms)" for word d
proof (unfold_locales, goal_cases)
  case (1 g)
  then obtain items where g: "holds g items" and ms: "\<exists>ms. bp_generator word d = Inr ms" by blast
  obtain bs where bs: "deref_all (w_bps d) (db_pending_breakpoints d) = Inr bs"
    "bp_items word d = generate word (concat (map bp_candidates bs)) 0"
    using ms by (auto simp: bp_generator_def bp_items_def)
  have "holds (g\<lparr>ps_idx := 0, ps_len := length word\<rparr>) items" using g by (simp add: holds_def)
  then obtain g1 where g1: "free_candidates (g\<lparr>ps_idx := 0, ps_len := length word\<rparr>) = Inr g1" "holds g1 []"
    "ps_idx g1 = 0" "ps_len g1 = length word"
    using free_candidates_holds by fastforce
  obtain g2 where g2: "res_fold (add_candidates (\<lambda>_. True) d) (db_pending_breakpoints d) g1 = Inr g2"
    "holds g2 (concat (map bp_candidates bs))" "ps_idx g2 = 0" "ps_len g2 = length word"
    using holds_collect[OF bs(1) g1(2)] g1(3,4) by auto
  have "bps_left word g2 (bp_items word d)" using g2(2-4) bs(2) by (auto simp: bps_left_def in_table_def)
  then show ?case using g1(1) g2(1) ms by (intro exI[of _ g2]) (simp add: bp_generator_call_def)
next
  case (2 g k)
  then obtain items where g: "holds g items" "in_table word items g []" by (auto simp: bps_left_def)
  then have "holds (g\<lparr>ps_idx := length items\<rparr>) items" by (simp add: holds_def)
  then show ?case using bps_left_scan[OF g(1) 2(2)] in_table_last[OF g(2)] 2(1) by auto
next
  case (3 g x xs k)
  then obtain items where g: "holds g items" "in_table word items g (x # xs)" by (auto simp: bps_left_def)
  obtain i where i: "scan word (ps_len g) items (ps_idx g) = (Some x, i)" "in_table word items (g\<lparr>ps_idx := i\<rparr>) xs"
    using in_table_next[OF g(2)] by blast
  moreover have "holds (g\<lparr>ps_idx := i\<rparr>) items" using g(1) by (simp add: holds_def)
  ultimately have "bps_left word (g\<lparr>ps_idx := i\<rparr>) xs" unfolding bps_left_def by blast
  then show ?case using bps_left_scan[OF g(1) 3(2)] i(1) 3(1) by simp
qed

section \<open>Properties\<close>

text \<open>
  C28: readline gets from every generator, call by call, exactly the list that completion is
  about, whatever the static variables hold from an earlier completion: of the table of
  commands, of a fixed list, of the functions, of the functions or files of \<open>break\<close>, and of
  the breakpoints, whose array of candidates grows without a write outside of it and without
  a read of a freed or unwritten slot.
\<close>

theorem generators_give_their_lists:
  assumes "holds g cands" "bp_generator word d = Inr ms"
    and "length (command_generator word) < n" "length (strlist_generator word items) < n"
      "length (function_generator word d) < n" "length (break_target_generator word d) < n" "length ms < n"
  shows "(\<exists>p'. rl_calls (command_generator_call word) n 0 p = Inr (Some (command_generator word, p'))) \<and>
    (\<exists>p'. rl_calls (strlist_generator_call items word) n 0 p = Inr (Some (strlist_generator word items, p'))) \<and>
    (\<exists>f'. rl_calls (function_generator_call word d) n 0 f = Inr (Some (function_generator word d, f'))) \<and>
    (\<exists>t'. rl_calls (break_target_generator_call word d) n 0 t = Inr (Some (break_target_generator word d, t'))) \<and>
    (\<exists>g' cands'. rl_calls (bp_generator_call (\<lambda>_. True) word d) n 0 g = Inr (Some (ms, g')) \<and> holds g' cands')"
proof -
  have "bp_items word d = ms" by (simp add: bp_items_def assms(2))
  then have "\<exists>g' cands'. rl_calls (bp_generator_call (\<lambda>_. True) word d) n 0 g = Inr (Some (ms, g')) \<and> holds g' cands'"
    using bp_gen.completion_calls[of g word d n] assms(1,2,7) by auto
  then show ?thesis
    using command_gen.completion_calls[OF TrueI assms(3)] strlist_gen.completion_calls[OF TrueI assms(4)]
      function_gen.completion_calls[OF TrueI assms(5)] target_gen.completion_calls[OF TrueI assms(6)] by blast
qed

theorem generators_give_their_lists_witness:
  "(\<exists>p'. rl_calls (command_generator_call ''f'') 10 0 \<lparr>ps_idx = 99, ps_len = 3\<rparr> =
      Inr (Some ([''finish'', ''files'', ''functions''], p'))) \<and>
   (\<exists>g'. rl_calls (bp_generator_call (\<lambda>_. True) ''f'' demo_debugger) 10 0
     \<lparr>ps_idx = 3, ps_len = 7, bg_cands = [], bg_count = 0, bg_cap = 0\<rparr> = Inr (Some ([''foo''], g')))"
proof -
  have l: "command_generator ''f'' = [''finish'', ''files'', ''functions'']" "strlist_generator ''f'' [] = []"
    "function_generator ''f'' demo_debugger = []" "break_target_generator ''f'' demo_debugger = []"
    "bp_generator ''f'' demo_debugger = Inr [''foo'']" by code_simp+
  have "holds \<lparr>ps_idx = 3, ps_len = 7, bg_cands = [], bg_count = 0, bg_cap = 0\<rparr> []" by (simp add: holds_def)
  from generators_give_their_lists[OF this l(5), where n = 10 and items = "[]" and p = "\<lparr>ps_idx = 99, ps_len = 3\<rparr>"] show ?thesis
    by (simp add: l(1-4) del: rl_calls.simps) blast
qed

text \<open>
  a failed \<open>realloc\<close> is survived only until the next candidate: the new capacity is noted
  although the array has not grown, and the next string is stored behind its end.
\<close>

theorem failed_growth_writes_outside:
  assumes "holds g items" "length items = bg_cap g" "\<not> grow (if bg_cap g = 0 then 16 else bg_cap g * 2)"
  shows "\<exists>g1. bp_cand_add grow (Some s) g = Inr g1 \<and> bg_cands g1 = bg_cands g \<and>
    bp_cand_add grow (Some s') g1 = Inl OutOfBounds"
proof -
  define cap where "cap = (if bg_cap g = 0 then 16 else bg_cap g * 2)"
  have g: "bg_cap g \<le> bg_count g" "bg_count g < cap" "length (bg_cands g) = bg_count g"
    using assms(1,2) by (auto simp: holds_def cap_def)
  have "bp_cand_add grow (Some s) g = Inr (g\<lparr>bg_cap := cap\<rparr>)"
    using add_full[OF g(1) cap_def, of grow s] assms(3) by (simp add: cap_def)
  moreover have "bp_cand_add grow (Some s') (g\<lparr>bg_cap := cap\<rparr>) = Inl OutOfBounds"
    using g(2,3) by (simp add: bp_cand_add_def cand_store_def)
  ultimately show ?thesis by simp
qed

theorem failed_growth_writes_outside_witness:
  "\<exists>g1. bp_cand_add (\<lambda>_. False) (Some ''0'') \<lparr>ps_idx = 0, ps_len = 0, bg_cands = [], bg_count = 0, bg_cap = 0\<rparr> = Inr g1 \<and>
     bp_cand_add (\<lambda>_. False) (Some ''foo'') g1 = Inl OutOfBounds"
  using failed_growth_writes_outside[of "\<lparr>ps_idx = 0, ps_len = 0, bg_cands = [], bg_count = 0, bg_cap = 0\<rparr>" "[]" "\<lambda>_. False"]
  by (force simp: holds_def)

end
