(* ===== verification/Main_Program.thy ===== *)
theory Main_Program
  imports Commands_Props Debugger_Props
begin

text \<open>
  \<open>src/main.c\<close>: the options of the debugger, and the program from its arguments to its exit
  status; with the properties of both.
\<close>

section \<open>Options\<close>

text \<open>
  What \<open>parse_arguments\<close> leaves: the executable with the commands and the script, or no
  executable and the return value true after \<open>--help\<close> and false after an error.
\<close>

datatype parsed_args = Parsed string "string list" "string option" | Help | Arg_Error string

definition is_option :: "string \<Rightarrow> bool" where
  "is_option a \<longleftrightarrow> a \<noteq> [] \<and> hd a = CHR ''-''"

fun parse_loop :: "string list \<Rightarrow> string list \<Rightarrow> string option \<Rightarrow> string option \<Rightarrow> parsed_args" where
  "parse_loop [] list script path =
     (case path of None \<Rightarrow> Arg_Error ''No executable found'' | Some p \<Rightarrow> Parsed p list script)"
| "parse_loop (a # as) list script path =
     (if is_option a
      then if a = ''-ex'' \<or> a = ''--execute''
           then if script \<noteq> None then Arg_Error ''Can't have -ex along with script''
                else (case as of
                        [] \<Rightarrow> Arg_Error (''passing incomplete option: '' @ a)
                      | c # as' \<Rightarrow>
                          if is_option c then Arg_Error ''invalid commands passed along with -ex''
                          else parse_loop as' (list @ [c]) script path)
           else if a = ''--script''
           then if list \<noteq> [] then Arg_Error ''Can't give script along with -ex''
                else if script \<noteq> None then Arg_Error ''Can't pass multiple scripts''
                else (case as of
                        [] \<Rightarrow> Arg_Error (''passing incomplete option: '' @ a)
                      | s # as' \<Rightarrow>
                          if is_option s then Arg_Error ''invalid script passed''
                          else parse_loop as' list (Some s) path)
           else if a = ''--help'' \<or> a = ''-h'' then Help
           else Arg_Error (''wrong option: '' @ a)
      else if path \<noteq> None then Arg_Error ''Maybe you are passing multiple executable''
      else parse_loop as list script (Some a))"

definition parse_arguments :: "string list \<Rightarrow> parsed_args" where
  "parse_arguments argv = parse_loop (tl argv) [] None None"

section \<open>The program\<close>

fun run_commands :: "(string \<Rightarrow> debugger \<Rightarrow> debugger option res) \<Rightarrow> string list \<Rightarrow> debugger \<Rightarrow> debugger option res" where
  "run_commands handle [] d = Inr (Some d)"
| "run_commands handle (c # cs) d =
     res_bind (handle c d) (\<lambda>r. case r of None \<Rightarrow> Inr None | Some d1 \<Rightarrow> run_commands handle cs d1)"

text \<open>
  The exit status of \<open>main\<close>; \<open>t\<close> and \<open>answers\<close> are the process table entry before the first
  \<open>fork\<close> and what the user will type.
\<close>

definition vdbg_main :: "cli \<Rightarrow> nat \<Rightarrow> tracee \<Rightarrow> string option list \<Rightarrow> string list \<Rightarrow> int option res" where
  "vdbg_main X fuel t answers argv =
     (if length argv < 2 then Inr (Some 1)
      else case parse_arguments argv of
             Help \<Rightarrow> Inr (Some 0)
           | Arg_Error _ \<Rightarrow> Inr (Some 1)
           | Parsed executable command_list script \<Rightarrow>
               res_bind (dbg_init (cli_system X) t answers executable) (\<lambda>dbg.
                 case dbg of
                   None \<Rightarrow> Inr (Some 1)
                 | Some d0 \<Rightarrow>
                     (let d = say (Out_Text (''Loaded '' @ executable)) d0
                      in res_bind
                           (case script of
                              Some path \<Rightarrow> cmd_source X (handle_command X fuel) [''source'', path] d
                            | None \<Rightarrow> run_commands (handle_command X fuel) command_list d) (\<lambda>r.
                         case r of
                           None \<Rightarrow> Inr None
                         | Some d1 \<Rightarrow>
                             res_bind (dbg_start X fuel d1) (\<lambda>r.
                               case r of
                                 None \<Rightarrow> Inr None
                               | Some d2 \<Rightarrow> res_bind (dbg_free d2) (\<lambda>_. Inr (Some 0)))))))"

section \<open>Lemmas\<close>

lemma parse_commands:
  assumes "\<forall>c \<in> set cmds. \<not> is_option c"
  shows "parse_loop (concat (map (\<lambda>c. [''-ex'', c]) cmds) @ rest) list None path = parse_loop rest (list @ cmds) None path"
  using assms
proof (induction cmds arbitrary: list)
  case (Cons c cmds)
  have "is_option ''-ex''" by (simp add: is_option_def)
  then show ?case using Cons by simp
qed simp

lemma say_answers [simp]: "db_answers (say e d) = db_answers d"
  by (simp add: say_def)

lemma parse_loop_shape:
  "parse_loop as list script path = Parsed exe cmds s \<Longrightarrow> list = [] \<or> script = None \<Longrightarrow>
     (cmds = [] \<or> s = None) \<and>
     2 * length cmds + (if s = None then 0 else 2) + 1 \<le>
       length as + 2 * length list + (if script = None then 0 else 2) + (if path = None then 0 else 1)"
proof (induction as list script path rule: parse_loop.induct)
  case (2 a as list script path)
  consider "is_option a" "a = ''-ex'' \<or> a = ''--execute''" | "is_option a" "a = ''--script''"
    | "is_option a" "a \<noteq> ''-ex'' \<and> a \<noteq> ''--execute''" "a \<noteq> ''--script''" | "\<not> is_option a" by blast
  then show ?case
  proof cases
    case 1
    then obtain c as' where c: "as = c # as'" "script = None" "\<not> is_option c"
      "parse_loop as' (list @ [c]) script path = Parsed exe cmds s"
      using "2.prems"(1) by (auto split: if_splits list.splits)
    then show ?thesis using "2.IH"(1)[OF 1 _ c(1) c(3)] by simp
  next
    case 2
    then obtain f as' where c: "as = f # as'" "list = []" "script = None" "\<not> is_option f"
      "parse_loop as' list (Some f) path = Parsed exe cmds s"
      using "2.prems"(1) by (auto split: if_splits list.splits)
    then show ?thesis using "2.IH"(2)[OF 2(1) _ 2(2)] 2(2) by simp
  next
    case 3
    then show ?thesis using "2.prems"(1) by (simp split: if_splits)
  next
    case 4
    then have "path = None" "parse_loop as list script (Some a) = Parsed exe cmds s"
      using "2.prems"(1) by (auto split: if_splits)
    then show ?thesis using "2.IH"(3)[OF 4] "2.prems"(2) by simp
  qed
qed (simp split: option.splits)

lemma dbg_init_idle:
  assumes "symbols_init (sys_files S) pname = Inr (Some sy)"
  shows "\<exists>d. dbg_init S t answers pname = Inr (Some d) \<and> idle_ok d \<and> db_answers d = answers \<and> db_syms d = sy \<and>
    db_args d = SStr pname # replicate 49 SNull"
proof -
  have "MAP_SIZE \<noteq> 0" "MAP_SIZE \<noteq> - 1" by (simp_all add: MAP_SIZE_def)
  then obtain ht :: "nat umap" where ht: "map_init MAP_SIZE = Inr (Some ht)" "wf_umap ht" "umap_abs ht = (\<lambda>_. None)"
    using map_init_wf by blast
  have "heap_ok d" if "w_bps d = (\<lambda>_. None)" "w_locs d = (\<lambda>_. None)" for d :: debugger
    using that by (simp add: heap_ok_def)
  moreover have "map_ok (Some ht)" "map_abs (Some ht) = (\<lambda>_. None)" using ht by (simp_all add: map_ok_def map_abs_def)
  ultimately show ?thesis
    using assms ht(1) by (simp add: dbg_init_def idle_ok_def core_ok_def maps_ok_def MAX_ARGS_def)
qed

section \<open>Properties\<close>

text \<open>
  the options are read as they are documented: every \<open>-ex\<close> gives one command, in order;
  commands and a script exclude each other; and the commands fit into the array of \<open>argc\<close>
  pointers that is allocated for them.
\<close>

theorem options_are_parsed:
  assumes "\<forall>c \<in> set cmds. \<not> is_option c" "\<not> is_option exe"
  shows "parse_arguments (prog # concat (map (\<lambda>c. [''-ex'', c]) cmds) @ [exe]) = Parsed exe cmds None \<and>
    (\<forall>argv exe' cmds' script. parse_arguments argv = Parsed exe' cmds' script \<longrightarrow>
       (cmds' = [] \<or> script = None) \<and> 2 * length cmds' + (if script = None then 0 else 2) < length argv)"
proof -
  have "2 * length cmds' + (if script = None then 0 else 2) < length argv \<and> (cmds' = [] \<or> script = None)"
    if "parse_arguments argv = Parsed exe' cmds' script" for argv exe' cmds' script
    using parse_loop_shape[of "tl argv" "[]" None None exe' cmds' script] that
    by (cases argv) (auto simp: parse_arguments_def)
  then show ?thesis
    using parse_commands[OF assms(1), of "[exe]" "[]" None] assms(2) by (simp add: parse_arguments_def)
qed

theorem options_are_parsed_witness:
  "parse_arguments [''vdbg'', ''-ex'', ''break main'', ''-ex'', ''run'', ''a.out''] =
     Parsed ''a.out'' [''break main'', ''run''] None"
  using options_are_parsed[of "[''break main'', ''run'']" "''a.out''" "''vdbg''"] by (simp add: is_option_def)

text \<open>
  C20: started on an executable whose symbols can be read, without commands and with nothing
  to read from the terminal, the program goes through its whole life, from the parsing of
  its arguments to the freeing of its data, and exits with status 0.
\<close>

theorem vdbg_without_input_exits:
  assumes "symbols_init (sys_files (cli_system X)) exe = Inr (Some sy)" "\<not> is_option exe"
  shows "vdbg_main X (Suc n) t [] [prog, exe] = Inr (Some 0)"
proof -
  obtain d where d: "dbg_init (cli_system X) t [] exe = Inr (Some d)" "idle_ok d" "db_answers d = []"
    "db_args d = SStr exe # replicate 49 SNull"
    using dbg_init_idle[OF assms(1)] by blast
  define d1 where "d1 = (let e = say (Out_Text (''Loaded '' @ exe)) d in if sy_has_dwarf (db_syms e) then e
      else say (Out_Text ''Warning: this executable doesn't contain debug symbols'') e)"
  have l: "live d1" "db_answers d1 = []" "read_args (tl (db_args d1)) = Inr []"
  proof -
    have "read_args (replicate 49 SNull) = Inr []" by code_simp
    then show "live d1" "db_answers d1 = []" "read_args (tl (db_args d1)) = Inr []"
      using d by (simp_all add: d1_def Let_def liveI_idle)
  qed
  obtain d2 d3 where d2: "prompt_loop X (Suc n) None d1 = Inr (Some d2)" "dbg_free d2 = Inr d3"
    using prompt_at_end_of_input[OF l] by blast
  have "dbg_start X (Suc n) (say (Out_Text (''Loaded '' @ exe)) d) = Inr (Some d2)"
    using d2(1) by (simp add: dbg_start_def d1_def Let_def del: prompt_loop.simps)
  moreover have "parse_arguments [prog, exe] = Parsed exe [] None" using assms(2) by (simp add: parse_arguments_def)
  ultimately show ?thesis using d(1) d2(2) by (simp add: vdbg_main_def)
qed

definition demo_files :: cli where
  "demo_files = demo_cli\<lparr>cli_system := (demo_system Dead)\<lparr>sys_files := \<lparr>
     hf_bytes = (\<lambda>f. if f = ''a.out'' then Some [CHR 0x7f, CHR ''E'', CHR ''L'', CHR ''F''] else None),
     hf_elf = (\<lambda>_. Some demo_elf), hf_dwarf = (\<lambda>_. Some demo_dwarf), hf_mtime = (\<lambda>_. 0), hf_stat_ok = (\<lambda>_. True)\<rparr>\<rparr>\<rparr>"

theorem vdbg_without_input_exits_witness:
  "vdbg_main demo_files 1 demo_tracee [] [''vdbg'', ''a.out''] = Inr (Some 0)"
proof -
  have "case symbols_init (sys_files (cli_system demo_files)) ''a.out'' of Inr (Some _) \<Rightarrow> True | _ \<Rightarrow> False"
    by code_simp
  then obtain sy where "symbols_init (sys_files (cli_system demo_files)) ''a.out'' = Inr (Some sy)"
    by (auto split: sum.splits option.splits)
  from vdbg_without_input_exits[OF this, of 0 demo_tracee "''vdbg''"] show ?thesis by (simp add: is_option_def)
qed

end
