(* ===== verification/Session_Props.thy ===== *)
theory Session_Props
  imports Main_Program
begin

text \<open>
  Properties of whole lines and of sequences of lines: commands that look at the program
  change nothing but the output, commands on breakpoints change nothing that the program can
  see, and a breakpoint set by name before the start is where the program stops.
\<close>

section \<open>Commands that only print\<close>

definition only_says :: "debugger \<Rightarrow> debugger \<Rightarrow> bool" where
  "only_says d d' \<longleftrightarrow> (\<exists>ms. d' = d\<lparr>db_out := db_out d @ ms\<rparr>)"

lemma only_says_refl [simp]: "only_says d d"
  unfolding only_says_def by (rule exI[of _ "[]"]) simp

lemma only_says_say: "only_says d d' \<Longrightarrow> only_says d (say m d')"
  by (auto simp: only_says_def say_def)

lemma only_says_1 [simp]: "only_says d (say m d)"
  by (simp add: only_says_say)

lemma only_says_trans: "only_says d e \<Longrightarrow> only_says e f \<Longrightarrow> only_says d f"
  by (auto simp: only_says_def)

lemma only_says_fold:
  "(\<And>x e. only_says e (f x e)) \<Longrightarrow> only_says d (fold f xs d)"
  by (induction xs arbitrary: d) (auto intro: only_says_trans)

lemma only_says_res_fold:
  assumes "\<And>x e e'. f x e = Inr e' \<Longrightarrow> only_says e e'" "res_fold f xs d = Inr d'"
  shows "only_says d d'"
  by (rule res_fold_keeps[where I = "only_says d", OF _ only_says_refl assms(2)])
    (use assms(1) only_says_trans in blast)

lemma only_says_disassemble_entry: "disassemble_entry K S name la pc f e = Inr e' \<Longrightarrow> only_says e e'"
  by (auto simp: disassemble_entry_def only_says_say Let_def split: if_splits option.splits)

lemma only_says_disassembly:
  assumes "print_disassembly_of_function K S name d = Inr d'"
  shows "only_says d d'"
proof -
  obtain start d1 where s: "function_to_disassemble name d = Inr (start, d1)"
    using assms by (auto simp: print_disassembly_of_function_def)
  then have d1: "only_says d d1"
    by (auto simp: function_to_disassemble_def split: option.splits if_splits)
  have fd: "only_says e e'" if "res_fold (disassemble_entry K S f la pc) fs e = Inr e'" for f la pc fs e e'
    by (rule only_says_res_fold[OF _ that]) (rule only_says_disassemble_entry)
  have "only_says d1 d'"
    using assms s by (auto simp: print_disassembly_of_function_def only_says_say Let_def
        split: option.splits if_splits intro: fd only_says_say[OF fd])
  with d1 show ?thesis by (rule only_says_trans)
qed

lemma only_says_plt_row: "plt_row name e d = Inr d' \<Longrightarrow> only_says d d'"
  by (auto simp: plt_row_def split: option.splits if_splits)

text \<open>The lines that look at the program: the commands themselves, and \<open>read\<close> and \<open>dump\<close>.\<close>

definition inspection :: "cmd_handler set" where
  "inspection = {H_help, H_ls, H_clear, H_header, H_list, H_files, H_vmmap, H_plt, H_context, H_sections,
     H_symbols, H_functions, H_disassemble}"

definition inspects :: "string list \<Rightarrow> bool" where
  "inspects args \<longleftrightarrow> (case args of [] \<Rightarrow> True | c # as \<Rightarrow>
     (case find_command c of
        None \<Rightarrow> True
      | Some e \<Rightarrow> ce_handler e \<in> inspection \<or>
          ce_handler e \<in> {H_reg, H_mem} \<and> (as \<noteq> [] \<longrightarrow> \<not> is_prefix (Some (hd as)) (Some ''write''))))"

lemma only_says_source: "source_at_pc X k d = Inr d' \<Longrightarrow> only_says d d'"
  by (auto simp: source_at_pc_def split: option.splits)

lemma only_says_plain:
  "cmd_help d = Inr d' \<Longrightarrow> only_says d d'" "cmd_ls X d = Inr d' \<Longrightarrow> only_says d d'"
  "cmd_clear d = Inr d' \<Longrightarrow> only_says d d'" "cmd_header X d = Inr d' \<Longrightarrow> only_says d d'"
  "cmd_list d = Inr d' \<Longrightarrow> only_says d d'" "cmd_vmmap X d = Inr d' \<Longrightarrow> only_says d d'"
  "cmd_sections args d = Inr d' \<Longrightarrow> only_says d d'" "cmd_symbols args d = Inr d' \<Longrightarrow> only_says d d'"
  by (auto simp: cmd_help_def cmd_ls_def cmd_clear_def cmd_header_def cmd_list_def cmd_vmmap_def
      cmd_sections_def cmd_symbols_def split: option.splits)

lemma only_says_files: "cmd_files d = Inr d' \<Longrightarrow> only_says d d'"
  using only_says_fold[of "\<lambda>f. say (Out_Text f)"] by (auto simp: cmd_files_def)

lemma only_says_plt: "cmd_plt args d = Inr d' \<Longrightarrow> only_says d d'"
  using only_says_res_fold[of "plt_row _", OF only_says_plt_row] only_says_trans[OF only_says_1]
  by (auto simp: cmd_plt_def split: option.splits if_splits)

lemma only_says_context: "cmd_context X args d = Inr d' \<Longrightarrow> only_says d d'"
  using only_says_source by (auto simp: cmd_context_def)

lemma only_says_functions: "cmd_functions args d = Inr d' \<Longrightarrow> only_says d d'"
  by (auto simp: cmd_functions_def Let_def intro: only_says_fold split: option.splits if_splits)

lemma only_says_disassemble: "cmd_disassemble X args d = Inr d' \<Longrightarrow> only_says d d'"
  using only_says_disassembly by (auto simp: cmd_disassemble_def)

lemmas only_says_commands = only_says_plain only_says_files only_says_plt only_says_context
  only_says_functions only_says_disassemble

lemma lifted_only_says:
  "lift_res m = Inr r \<Longrightarrow> (\<And>d'. m = Inr d' \<Longrightarrow> only_says d d') \<Longrightarrow> \<exists>d'. r = Some d' \<and> only_says d d'"
  by (auto simp: lift_res_def)

lemma inspection_only_says:
  assumes "h \<in> inspection" "call_handler X n handle h args d = Inr r"
  shows "\<exists>d'. r = Some d' \<and> only_says d d'"
  using assms unfolding inspection_def
  by - (elim insertE emptyE; simp add: call_handler_def; erule lifted_only_says; erule only_says_commands)

lemma not_write:
  "as \<noteq> [] \<longrightarrow> \<not> is_prefix (Some (hd as)) (Some ''write'') \<Longrightarrow> arg (c # as) 1 = Inr sub \<Longrightarrow>
     \<not> is_prefix sub (Some ''write'')"
  by (cases as) (auto simp: arg_def is_prefix_def split: if_splits)

lemma reg_mem_only_says:
  assumes "as \<noteq> [] \<longrightarrow> \<not> is_prefix (Some (hd as)) (Some ''write'')"
    and "cmd_reg (c # as) d = Inr d' \<or> cmd_mem (c # as) d = Inr d'"
  shows "only_says d d'"
  using assms(2) not_write[OF assms(1)]
  by (auto simp: cmd_reg_def cmd_mem_def split: if_splits)

lemma reg_mem_handler:
  assumes "h \<in> {H_reg, H_mem} \<and> (as \<noteq> [] \<longrightarrow> \<not> is_prefix (Some (hd as)) (Some ''write''))"
    and "call_handler X n handle h (c # as) d = Inr r"
  shows "\<exists>d'. r = Some d' \<and> only_says d d'"
proof -
  have "lift_res (cmd_reg (c # as) d) = Inr r \<or> lift_res (cmd_mem (c # as) d) = Inr r"
    using assms by (auto simp: call_handler_def)
  moreover have "only_says d d'" if "cmd_reg (c # as) d = Inr d' \<or> cmd_mem (c # as) d = Inr d'" for d'
    by (rule reg_mem_only_says[OF _ that]) (use assms(1) in simp)
  ultimately show ?thesis using lifted_only_says by blast
qed

lemma command_outcome:
  assumes "split line (CHR '' '') = Inr (c # as)" "find_command c = Some e" "handle_command X (Suc n) line d = Inr r"
  obtains (message) m where "r = Some (say m d)"
    | (handler) "call_handler X n (handle_command X n) (ce_handler e) (c # as) d = Inr r"
proof -
  have "run_command X n (handle_command X n) (c # as) d = Inr r" using assms by simp
  then have "(\<exists>m. r = Some (say m d)) \<or> call_handler X n (handle_command X n) (ce_handler e) (c # as) d = Inr r"
    using assms(2) by (auto simp: run_command_def split: if_splits)
  then show ?thesis using message handler by blast
qed

lemma inspects_only_says:
  assumes "split line (CHR '' '') = Inr args" "inspects args"
    and "handle_command X (Suc n) line d = Inr r"
  shows "\<exists>d'. r = Some d' \<and> only_says d d'"
proof -
  have run: "run_command X n (handle_command X n) args d = Inr r" using assms(1,3) by simp
  show ?thesis
  proof (cases args)
    case Nil
    then show ?thesis using run by (auto simp: run_command_def)
  next
    case (Cons c as)
    show ?thesis
    proof (cases "find_command c")
      case None
      then show ?thesis using run Cons by (auto simp: run_command_def)
    next
      case (Some e)
      from assms(1)[unfolded Cons] Some assms(3) show ?thesis
      proof (cases rule: command_outcome)
        case handler
        have "ce_handler e \<in> inspection \<or>
            ce_handler e \<in> {H_reg, H_mem} \<and> (as \<noteq> [] \<longrightarrow> \<not> is_prefix (Some (hd as)) (Some ''write''))"
          using assms(2) Cons Some by (simp add: inspects_def)
        then show ?thesis
        proof
          assume "ce_handler e \<in> inspection"
          then show ?thesis using inspection_only_says handler by blast
        next
          assume "ce_handler e \<in> {H_reg, H_mem} \<and> (as \<noteq> [] \<longrightarrow> \<not> is_prefix (Some (hd as)) (Some ''write''))"
          then show ?thesis
            using handler reg_mem_handler by blast
        qed
      qed simp
    qed
  qed
qed



section \<open>Lines that the program does not notice\<close>

definition harmless :: "string \<Rightarrow> bool" where
  "harmless line \<longleftrightarrow> (\<exists>args. split line (CHR '' '') = Inr args \<and> (inspects args \<or>
     (\<exists>c as e. args = c # as \<and> find_command c = Some e \<and> ce_handler e \<in> {H_delete, H_enable, H_disable})))"

lemma harmless_calm:
  assumes l: "harmless line" and c: "calm orig u d" and r: "handle_command X (Suc n) line d = Inr r"
  shows "\<exists>d'. r = Some d' \<and> calm orig u d'"
proof -
  obtain args where a: "split line (CHR '' '') = Inr args" "inspects args \<or>
      (\<exists>c as e. args = c # as \<and> find_command c = Some e \<and> ce_handler e \<in> {H_delete, H_enable, H_disable})"
    using l by (auto simp: harmless_def)
  from a(2) show ?thesis
  proof
    assume "inspects args"
    then obtain d' where "r = Some d'" "only_says d d'" using inspects_only_says[OF a(1) _ r] by blast
    then show ?thesis using c by (auto simp: only_says_def calm_only_output)
  next
    assume "\<exists>c as e. args = c # as \<and> find_command c = Some e \<and> ce_handler e \<in> {H_delete, H_enable, H_disable}"
    then obtain c' as e where e: "args = c' # as" "find_command c' = Some e" "ce_handler e \<in> {H_delete, H_enable, H_disable}"
      by blast
    from a(1)[unfolded e(1)] e(2) r show ?thesis
    proof (cases rule: command_outcome)
      case message
      then show ?thesis using c by simp
    next
      case handler
      then show ?thesis using e(3) breakpoint_commands_calm[OF c, of "c' # as"]
        by (auto simp: call_handler_def lift_res_def)
    qed
  qed
qed

text \<open>
  C9: any sequence of lines that inspect or that delete, enable or disable breakpoints, as
  given with \<open>-ex\<close>, goes unnoticed by the stopped program: if no line faults, the
  registers, the state and every byte of the program are afterwards what they were, the memory
  shows them everywhere but at the patches of the breakpoints left, and the session is consistent.
\<close>

theorem harmless_lines_go_unnoticed:
  assumes "session_ok orig d" "\<And>x. \<not> temp_at d x" "\<forall>l \<in> set lines. harmless l"
    and "run_commands (handle_command X (Suc n)) lines d = Inr r"
  shows "\<exists>d'. r = Some d' \<and> session_ok orig d' \<and> (\<forall>x. \<not> temp_at d' x) \<and>
    (w_tracee d')\<lparr>t_mem := orig\<rparr> = (w_tracee d)\<lparr>t_mem := orig\<rparr> \<and>
    (\<forall>x. t_mem (w_tracee d') x = (if armed d' x then Some 0xCC else orig x))"
proof -
  have "\<exists>d'. r = Some d' \<and> calm orig u d'" if "calm orig u d" for u
    using assms(3,4) that
  proof (induction lines arbitrary: d)
    case (Cons l ls)
    then obtain r1 where r1: "handle_command X (Suc n) l d = Inr r1"
      "(case r1 of None \<Rightarrow> Inr None | Some d1 \<Rightarrow> run_commands (handle_command X (Suc n)) ls d1) = Inr r"
      by (auto simp del: handle_command.simps)
    obtain d1 where "r1 = Some d1" "calm orig u d1" using harmless_calm[OF _ Cons.prems(3) r1(1)] Cons.prems(1) by auto
    then show ?case using Cons.IH[of d1] Cons.prems(1) r1(2) by (simp del: handle_command.simps)
  qed auto
  from this[OF calmI[OF assms(1,2)]] obtain d' where d': "r = Some d'" "calm orig ((w_tracee d)\<lparr>t_mem := orig\<rparr>) d'"
    by blast
  then have "attached orig d'" by (simp add: calm_def session_ok_def)
  from image_patched[OF this] show ?thesis using d' by (auto simp: calm_def patched_with_def)
qed

theorem harmless_lines_go_unnoticed_witness:
  "\<exists>d'. run_commands (handle_command demo_cli 1) [''delete'', ''help''] demo_at_bp = Inr (Some d') \<and>
     t_mem (w_tracee demo_at_bp) 0x1000 = Some 0xCC \<and> t_regs (w_tracee d') = t_regs (w_tracee demo_at_bp)"
proof -
  have w: "list_all proper_word [''delete'']" "list_all proper_word [''help'']" by (simp_all add: proper_word_def)
  have "case find_command ''delete'' of Some e \<Rightarrow> ce_handler e = H_delete \<and> \<not> ce_requires_dwarf_symbols e | None \<Rightarrow> False"
    "case find_command ''help'' of Some e \<Rightarrow> ce_handler e = H_help \<and> \<not> ce_requires_dwarf_symbols e \<and>
       \<not> ce_requires_running_pid e | None \<Rightarrow> False" by code_simp+
  then obtain e f where e: "find_command ''delete'' = Some e" "ce_handler e = H_delete" "\<not> ce_requires_dwarf_symbols e"
    and f: "find_command ''help'' = Some f" "ce_handler f = H_help" "\<not> ce_requires_dwarf_symbols f" "\<not> ce_requires_running_pid f"
    by (auto split: option.splits)
  have s: "split ''delete'' (CHR '' '') = Inr [''delete'']" "split ''help'' (CHR '' '') = Inr [''help'']"
    using split_unwords[OF w(1)] split_unwords[OF w(2)] by simp_all
  have h: "\<forall>l \<in> set [''delete'', ''help'']. harmless l"
    using s e f by (auto simp: harmless_def inspects_def inspection_def)
  have t: "\<not> temp_at demo_at_bp x" for x by (auto simp: temp_at_def demo_at_bp_def split: if_splits)
  obtain d1 where d1: "cmd_delete [''delete''] demo_at_bp = Inr d1"
    using breakpoint_commands_calm(1)[OF calmI[OF demo_at_bp_session t]] by blast
  have h1: "handle_command demo_cli 1 ''delete'' demo_at_bp = Inr (Some d1)"
    using handle_words[OF w(1) _ e(1), of demo_at_bp demo_cli 0] e d1 by (simp add: call_handler_def lift_res_def)
  have "\<exists>d2. handle_command demo_cli 1 ''help'' d1 = Inr (Some d2)"
    using handle_words[OF w(2) _ f(1), of d1 demo_cli 0] f by (simp add: call_handler_def lift_res_def cmd_help_def del: handle_command.simps)
  then obtain d2 where "handle_command demo_cli 1 ''help'' d1 = Inr (Some d2)" by blast
  then have r: "run_commands (handle_command demo_cli (Suc 0)) [''delete'', ''help''] demo_at_bp = Inr (Some d2)"
    using h1 by (simp del: handle_command.simps)
  obtain d' where "Some d2 = Some d'" "(w_tracee d')\<lparr>t_mem := demo_mem\<rparr> = (w_tracee demo_at_bp)\<lparr>t_mem := demo_mem\<rparr>"
    using harmless_lines_go_unnoticed[OF demo_at_bp_session t h r] by blast
  then have "t_regs (w_tracee d2) = t_regs (w_tracee demo_at_bp)" by (metis option.inject tracee.select_convs(4) tracee.surjective tracee.update_convs(3))
  moreover have "t_mem (w_tracee demo_at_bp) 0x1000 = Some 0xCC" by simp
  ultimately show ?thesis using r unfolding One_nat_def by blast
qed

section \<open>A breakpoint before the start\<close>

lemma install_idle_more:
  assumes "idle_ok d" "w_id_counter d \<noteq> - 1"
  shows "\<exists>d'. install_breakpoint data i quiet d = Inr d' \<and> idle_ok d' \<and>
    db_pending_breakpoints d' = db_pending_breakpoints d @ [w_next d] \<and>
    w_bps d' = (w_bps d)(w_next d \<mapsto> \<lparr>b_id = w_id_counter d, b_data = data, b_enable = True,
        b_instr_addr = i, b_location = None\<rparr>) \<and>
    w_id_counter d' = w_id_counter d + 1 \<and> w_next d' = Suc (w_next d) \<and>
    db_args d' = db_args d \<and> db_process_name d' = db_process_name d \<and> db_syms d' = db_syms d \<and>
    db_pending_signal d' = db_pending_signal d"
proof -
  have "core_ok d" using assms by (simp add: idle_ok_def)
  then obtain m where "core_ok (entered data i m d)" "install_breakpoint data i quiet d =
    add_and_set_bp_for_running_tracee i (w_next d)
      (if quiet then entered data i m d
       else say (Out_Set_Breakpoint data i (w_id_counter d)) (entered data i m d))"
    using install_run[OF _ assms(2)] by blast
  moreover have "db_args (say e d) = db_args d" "db_process_name (say e d) = db_process_name d"
    "db_pending_signal (say e d) = db_pending_signal d" "w_next (say e d) = w_next d"
    "w_id_counter (say e d) = w_id_counter d" for e and d :: debugger by (simp_all add: say_def)
  moreover have "db_args (entered data i m d) = db_args d" "db_process_name (entered data i m d) = db_process_name d"
    "db_pending_signal (entered data i m d) = db_pending_signal d" by (simp_all add: entered_def)
  ultimately show ?thesis
    using assms(1) by (auto simp: add_and_set_bp_for_running_tracee_def idle_ok_def)
qed

text \<open>The breakpoints \<open>ps\<close> are new, enabled, and exactly at the functions \<open>s\<close> among \<open>fs\<close>.\<close>

definition new_at_functions :: "func_entry list \<Rightarrow> string \<Rightarrow> nat list \<Rightarrow> debugger \<Rightarrow> debugger \<Rightarrow> bool" where
  "new_at_functions fs s ps d d' \<longleftrightarrow> idle_ok d' \<and> db_pending_breakpoints d' = db_pending_breakpoints d @ ps \<and>
     (\<forall>p. p \<notin> set ps \<longrightarrow> w_bps d' p = w_bps d p) \<and>
     (\<forall>p \<in> set ps. w_bps d' p \<noteq> None \<and> b_enable (the (w_bps d' p))) \<and>
     (\<lambda>p. b_instr_addr (the (w_bps d' p))) ` set ps = fe_addr ` set (filter (\<lambda>f. fe_name f = s) fs) \<and>
     db_args d' = db_args d \<and> db_process_name d' = db_process_name d \<and> db_syms d' = db_syms d \<and>
     db_pending_signal d' = db_pending_signal d"

lemma symbol_fold_idle:
  assumes "idle_ok d" "unat (w_id_counter d) + length fs < 2 ^ 64 - 1"
  shows "\<exists>d' ps. res_fold (\<lambda>f d. if fe_name f \<noteq> s then Inr d
         else install_breakpoint (BP_SYMBOL s) (fe_addr f) False d) fs d = Inr d' \<and> new_at_functions fs s ps d d'"
  using assms
proof (induction fs arbitrary: d)
  case Nil
  then show ?case by (auto simp: new_at_functions_def intro: exI[of _ "[]"])
next
  case (Cons f fs)
  show ?case
  proof (cases "fe_name f = s")
    case False
    have "unat (w_id_counter d) + length fs < 2 ^ 64 - 1" using Cons.prems(2) by simp
    then obtain d' ps where "res_fold (\<lambda>f d. if fe_name f \<noteq> s then Inr d
         else install_breakpoint (BP_SYMBOL s) (fe_addr f) False d) fs d = Inr d'" "new_at_functions fs s ps d d'"
      using Cons.IH[OF Cons.prems(1)] by blast
    moreover from this(2) False have "new_at_functions (f # fs) s ps d d'"
      by (simp add: new_at_functions_def)
    ultimately show ?thesis using False by auto
  next
    case True
    have m: "unat (- 1 :: u64) = 2 ^ 64 - 1" by (simp add: unsigned_minus_1_eq_mask mask_eq_exp_minus_1)
    then have c: "w_id_counter d \<noteq> - 1" using Cons.prems(2) by auto
    obtain d1 where d1: "install_breakpoint (BP_SYMBOL s) (fe_addr f) False d = Inr d1" "idle_ok d1"
      "db_pending_breakpoints d1 = db_pending_breakpoints d @ [w_next d]"
      "w_bps d1 = (w_bps d)(w_next d \<mapsto> \<lparr>b_id = w_id_counter d, b_data = BP_SYMBOL s, b_enable = True,
        b_instr_addr = fe_addr f, b_location = None\<rparr>)" "w_id_counter d1 = w_id_counter d + 1"
      "db_args d1 = db_args d" "db_process_name d1 = db_process_name d" "db_syms d1 = db_syms d"
      "db_pending_signal d1 = db_pending_signal d"
      using install_idle_more[OF Cons.prems(1) c, of "BP_SYMBOL s" "fe_addr f" False] by blast
    have "1 + w_id_counter d \<noteq> 0" using c by (simp add: eq_neg_iff_add_eq_0 add.commute)
    then have "unat (w_id_counter d1) = Suc (unat (w_id_counter d))"
      using unatSuc[of "w_id_counter d"] d1(5) by (simp add: add.commute)
    then have "unat (w_id_counter d1) + length fs < 2 ^ 64 - 1" using Cons.prems(2) by simp
    then obtain d' ps where d': "res_fold (\<lambda>f d. if fe_name f \<noteq> s then Inr d
         else install_breakpoint (BP_SYMBOL s) (fe_addr f) False d) fs d1 = Inr d'" "new_at_functions fs s ps d1 d'"
      using Cons.IH[OF d1(2)] by blast
    have "idle_ok d'" using d'(2) by (simp add: new_at_functions_def)
    then have "distinct (db_pending_breakpoints d')" by (simp add: idle_ok_def core_ok_def maps_ok_def)
    then have "w_next d \<notin> set ps" using d'(2) d1(3) by (auto simp: new_at_functions_def)
    then have b: "w_bps d' (w_next d) = Some \<lparr>b_id = w_id_counter d, b_data = BP_SYMBOL s, b_enable = True,
        b_instr_addr = fe_addr f, b_location = None\<rparr>"
      using d'(2) d1(4) by (simp add: new_at_functions_def)
    have "new_at_functions (f # fs) s (w_next d # ps) d d'"
      using d'(2) d1(3,4,6-9) b True by (auto simp: new_at_functions_def simp del: set_filter)
    then show ?thesis using d1(1) d'(1) True by auto
  qed
qed

text \<open>The names that \<open>break\<close> takes for functions.\<close>

definition function_word :: "string \<Rightarrow> bool" where
  "function_word s \<longleftrightarrow> proper_word s \<and> \<not> is_number s \<and> \<not> is_hex_address s \<and> CHR '':'' \<notin> set s"

lemma break_function_idle:
  assumes ok: "idle_ok d" and s: "function_word s"
    and f: "f \<in> set (get_valid_func_symbols (db_syms d))" "fe_name f = s"
    and c: "unat (w_id_counter d) + length (get_valid_func_symbols (db_syms d)) < 2 ^ 64 - 1"
  shows "\<exists>d1 ps. handle_command X (Suc n) (unwords [''break'', s]) d = Inr (Some d1) \<and>
    new_at_functions (get_valid_func_symbols (db_syms d)) s ps d d1"
proof -
  obtain d1 ps where d1: "res_fold (\<lambda>f d. if fe_name f \<noteq> s then Inr d
      else install_breakpoint (BP_SYMBOL s) (fe_addr f) False d) (get_valid_func_symbols (db_syms d)) d = Inr d1"
    "new_at_functions (get_valid_func_symbols (db_syms d)) s ps d d1"
    using symbol_fold_idle[OF ok c] by blast
  have w: "list_all proper_word [''break'', s]" using s by (simp add: proper_word_def function_word_def)
  have e: "find_command ''break'' = Some \<lparr>ce_name = ''break'', ce_handler = H_break, ce_requires_running_pid = False,
      ce_requires_dwarf_symbols = False, ce_help_text = ''Set breakpoint'', ce_completer = Some Complete_break\<rparr>"
    by code_simp
  have "get_valid_func_symbols (db_syms d) \<noteq> []" using f(1) by auto
  then have "set_breakpoint_at_func_symbol s d = Inr d1"
    using d1(1) f by (auto simp: set_breakpoint_at_func_symbol_def Let_def)
  moreover have "strchr s (CHR '':'') = None" using s by (simp add: function_word_def strchr_none)
  ultimately have "handle_command X (Suc n) (unwords [''break'', s]) d = Inr (Some d1)"
    using handle_words[OF w _ e, of d X n] s
    by (simp add: call_handler_def lift_res_def cmd_break_def break_arg_def function_word_def
        del: unwords.simps handle_command.simps)
  then show ?thesis using d1(2) by blast
qed

lemma run_command_idle:
  assumes "db_state d = NOT_ACTIVE"
  shows "handle_command X (Suc n) ''run'' d = lift_res (spawn_tracee (cli_system X) d)"
proof -
  have w: "list_all proper_word [''run'']" by (simp add: proper_word_def)
  have e: "find_command ''run'' = Some \<lparr>ce_name = ''run'', ce_handler = H_run, ce_requires_running_pid = False,
      ce_requires_dwarf_symbols = False, ce_help_text = ''Start tracee'', ce_completer = None\<rparr>"
    by code_simp
  show ?thesis
    using handle_words[OF w _ e, of d X n] assms
    by (simp add: call_handler_def cmd_run_def run_def del: handle_command.simps)
qed

lemma new_breakpoints_armed:
  assumes "new_at_functions fs s ps d d1" "f \<in> set fs" "fe_name f = s"
  shows "arm_all (d1\<lparr>db_load_address := la\<rparr>) (db_pending_breakpoints d1) A (fe_addr f + la)"
proof -
  let ?e = "d1\<lparr>db_load_address := la\<rparr>" let ?x = "fe_addr f + la"
  have "fe_addr f \<in> (\<lambda>p. b_instr_addr (the (w_bps d1 p))) ` set ps"
    using assms by (simp add: new_at_functions_def)
  then obtain p where p: "p \<in> set ps" "run_addr ?e p = ?x" by (auto simp: run_addr_def)
  let ?h = "filter (\<lambda>p. run_addr ?e p = ?x) ps"
  have "?h \<noteq> []" using p by (metis (mono_tags, lifting) filter_empty_conv)
  moreover from this have "last ?h \<in> set ps" using last_in_set filter_is_subset by (metis subsetD)
  ultimately show ?thesis
    using assms(1) by (simp add: arm_all_last new_at_functions_def Let_def)
qed

text \<open>
  Where a breakpoint can be put in the program that is about to start, away from its first
  instruction.
\<close>

definition place_ok :: "tracee \<Rightarrow> u64 \<Rightarrow> u64 \<Rightarrow> bool" where
  "place_ok t la i \<longleftrightarrow> i + la \<noteq> 0 \<and> mapped8 (t_mem t) (i + la) \<and> i + la \<noteq> t_regs t ! 16"

lemma new_places_ok:
  assumes "new_at_functions fs s ps d d1" "w_bps d1 p = Some b"
    and "\<forall>p b. w_bps d p = Some b \<longrightarrow> place_ok t la (b_instr_addr b)"
    and "\<forall>g \<in> set fs. fe_name g = s \<longrightarrow> place_ok t la (fe_addr g)"
  shows "place_ok t la (b_instr_addr b)"
proof (cases "p \<in> set ps")
  case True
  then have "b_instr_addr b \<in> (\<lambda>p. b_instr_addr (the (w_bps d1 p))) ` set ps" using assms(2) by force
  then show ?thesis using assms(1,4) by (auto simp: new_at_functions_def)
qed (use assms in \<open>metis new_at_functions_def\<close>)

lemma start_with_new_breakpoints:
  assumes new: "new_at_functions fs s ps d d1" and f: "f \<in> set fs" "fe_name f = s"
    and argv: "read_args (db_args d) = Inr argv"
    and t: "t = env_spawn (sys_program S) (db_process_name d) argv" "t_run t = Running (WStopped 5 0)" "t_pid t \<noteq> 0"
    and la: "initialize_load_address (sys_program S) (t\<lparr>t_run := Stopped 5 0\<rparr>) (db_syms d) = Inr la"
    and rep: "dw_report (sy_dwarf (db_syms d)) (t_pid t)"
    and places: "\<And>p b. w_bps d1 p = Some b \<Longrightarrow> place_ok t la (b_instr_addr b)"
  shows "\<exists>d2. spawn_tracee S d1 = continue_execution S d2 \<and> session_ok (t_mem t) d2 \<and>
    (\<forall>x. \<not> temp_at d2 x) \<and> db_load_address d2 = la \<and> armed d2 (fe_addr f + la) \<and>
    \<not> armed d2 (t_regs t ! 16) \<and> db_pending_signal d2 = db_pending_signal d \<and>
    t_regs (w_tracee d2) = t_regs t \<and> db_syms d2 = (db_syms d)\<lparr>sy_proc := Some (t_pid t)\<rparr>"
proof -
  let ?e = "d1\<lparr>db_load_address := la\<rparr>"
  have ok: "idle_ok d1" using new by (simp add: new_at_functions_def)
  have "\<forall>p b. w_bps d1 p = Some b \<longrightarrow> b_instr_addr b + la \<noteq> 0 \<and> mapped8 (t_mem t) (b_instr_addr b + la)"
    using places by (simp add: place_ok_def)
  moreover have same: "db_args d1 = db_args d" "db_process_name d1 = db_process_name d" "db_syms d1 = db_syms d"
    "db_pending_signal d1 = db_pending_signal d"
    using new by (simp_all add: new_at_functions_def)
  ultimately obtain d2 where d2: "spawn_tracee S d1 = continue_execution S d2" "session_ok (t_mem t) d2"
    "\<forall>x. \<not> temp_at d2 x" "db_load_address d2 = la"
    "armed d2 = arm_all ?e (db_pending_breakpoints d1) (\<lambda>_. False)"
    "db_pending_signal d2 = db_pending_signal d" "t_regs (w_tracee d2) = t_regs t"
    "db_syms d2 = (db_syms d)\<lparr>sy_proc := Some (t_pid t)\<rparr>"
    using spawn_ok[OF ok _ _ t(2,3), of argv S la, unfolded same, OF argv t(1) la rep] by blast
  have "set (db_pending_breakpoints d1) = {p. w_bps d1 p \<noteq> None}"
    using ok by (simp add: idle_ok_def core_ok_def maps_ok_def)
  then have "filter (\<lambda>p. run_addr ?e p = t_regs t ! 16) (db_pending_breakpoints d1) = []"
    using places by (fastforce simp: filter_empty_conv run_addr_def place_ok_def)
  then have "\<not> armed d2 (t_regs t ! 16)" unfolding d2(5) arm_all_last by (simp add: Let_def)
  moreover have "armed d2 (fe_addr f + la)" unfolding d2(5) by (rule new_breakpoints_armed[OF new f])
  ultimately show ?thesis using d2(1-4,6-8) same by auto
qed

text \<open>
  C7: a breakpoint on a function that is set before the start is where the program stops: the line
  \<open>break s\<close> succeeds without a process, and \<open>run\<close> then starts the program with the function
  patched where it is loaded, its registers untouched, and every byte its own but at armed
  addresses; if the program, continued, runs into that patch first, \<open>run\<close> ends at the
  function's first instruction and reports a breakpoint set there.
\<close>

theorem break_before_run_stops_there:
  assumes ok: "idle_ok d" and s: "function_word s"
    and f: "f \<in> set (get_valid_func_symbols (db_syms d))" "fe_name f = s" "a = fe_addr f + la"
    and c: "unat (w_id_counter d) + length (get_valid_func_symbols (db_syms d)) < 2 ^ 64 - 1"
    and argv: "read_args (db_args d) = Inr argv"
    and t: "t = env_spawn (sys_program S) (db_process_name d) argv" "t_run t = Running (WStopped 5 0)" "t_pid t \<noteq> 0"
    and la: "initialize_load_address (sys_program S) (t\<lparr>t_run := Stopped 5 0\<rparr>) (db_syms d) = Inr la"
    and rep: "dw_report (sy_dwarf (db_syms d)) (t_pid t)"
    and places: "\<forall>p b. w_bps d p = Some b \<longrightarrow> place_ok t la (b_instr_addr b)"
      "\<forall>g \<in> set (get_valid_func_symbols (db_syms d)). fe_name g = s \<longrightarrow> place_ok t la (fe_addr g)"
    and S: "S = cli_system X"
  shows "\<exists>d1 d2 u. handle_command X (Suc n) (unwords [''break'', s]) d = Inr (Some d1) \<and>
    handle_command X (Suc n) ''run'' d1 = lift_res (continue_execution S d2) \<and>
    session_ok (t_mem t) d2 \<and> t_regs (w_tracee d2) = t_regs t \<and> t_mem (w_tracee d2) a = Some 0xCC \<and>
    (\<forall>x. t_mem (w_tracee d2) x = (if armed d2 x then Some 0xCC else t_mem t x)) \<and>
    db_syms d2 = (db_syms d)\<lparr>sy_proc := Some (t_pid t)\<rparr> \<and>
    u = env_cont (sys_program S) (db_pending_signal d) (w_tracee d2) \<and>
    (program_hits S d2 u \<and> t_regs u ! 16 = a + 1 \<longrightarrow>
      (\<exists>d3 m. handle_command X (Suc n) ''run'' d1 = Inr (Some d3) \<and> get_pc (w_tracee d3) (db_pid d3) = Inr a \<and>
         Out_Hit m \<in> set (db_out d3) \<and> hit_addr m = fe_addr f))"
proof -
  obtain d1 ps where d1: "handle_command X (Suc n) (unwords [''break'', s]) d = Inr (Some d1)"
    "new_at_functions (get_valid_func_symbols (db_syms d)) s ps d d1"
    using break_function_idle[OF ok s f(1,2) c] by blast
  have pl: "place_ok t la (b_instr_addr b)" if "w_bps d1 p = Some b" for p b
    by (rule new_places_ok[OF d1(2) that places])
  obtain d2 where d2: "spawn_tracee S d1 = continue_execution S d2" "session_ok (t_mem t) d2"
    "\<forall>x. \<not> temp_at d2 x" "db_load_address d2 = la" "armed d2 a" "\<not> armed d2 (t_regs t ! 16)"
    "db_pending_signal d2 = db_pending_signal d" "t_regs (w_tracee d2) = t_regs t"
    "db_syms d2 = (db_syms d)\<lparr>sy_proc := Some (t_pid t)\<rparr>"
    using start_with_new_breakpoints[OF d1(2) f(1,2) argv t la rep] pl unfolding f(3) by blast
  have run: "handle_command X (Suc n) ''run'' d1 = lift_res (continue_execution S d2)"
    using run_command_idle[of d1 X n] d1(2) d2(1) S by (simp add: idle_ok_def new_at_functions_def)
  note mem = attached_mem[OF session_attached[OF d2(2)]]
  define u where "u = env_cont (sys_program S) (db_pending_signal d) (w_tracee d2)"
  have "\<exists>d3 m. handle_command X (Suc n) ''run'' d1 = Inr (Some d3) \<and> get_pc (w_tracee d3) (db_pid d3) = Inr a \<and>
         Out_Hit m \<in> set (db_out d3) \<and> hit_addr m = fe_addr f"
    if hits: "program_hits S d2 u" and pc: "t_regs u ! 16 = a + 1"
  proof -
    obtain k out where h: "code_untouched (armed d2) (w_tracee d2) u" "length (t_regs u) = 27"
      "t_run u = Running (WStopped 5 k)" "k \<in> {1, 0x80}"
      "print_source_at_current_pc (sys_files S) (db_syms d2) a 3 = Inr out"
      using hits pc by (auto simp: program_hits_def)
    have u: "u = env_cont (sys_program S) (db_pending_signal d2) (w_tracee d2)" by (simp add: u_def d2(7))
    have "get_pc (w_tracee d2) (db_pid d2) = Inr (t_regs t ! 16)"
      using d2(2,8) by (simp add: get_pc_stopped session_ok_def attached_def patch_ok_def sites_ok_def)
    from continue_hit_ok[OF d2(2) this d2(6) u h(3,4,1) pc h(2) d2(5) _ h(5)] d2(3)
    obtain d3 p b m where d3: "continue_execution S d2 = Inr d3" "get_pc (w_tracee d3) (db_pid d3) = Inr a"
      "w_bps d2 p = Some b" "run_addr d2 p = a" "Out_Hit m \<in> set (db_out d3)" "hit_addr m = b_instr_addr b"
      by blast
    have "b_instr_addr b = fe_addr f" using d3(3,4) d2(4) f(3) by (simp add: run_addr_def)
    then show ?thesis using run d3 by (auto simp: lift_res_def)
  qed
  then show ?thesis using d1(1) run d2(2,5,8,9) mem unfolding u_def by (intro exI[of _ d1] exI[of _ d2] exI) auto
qed

text \<open>The debugger before the start with one function of the program, and no line information.\<close>

definition demo_named :: debugger where
  "demo_named = demo_ready\<lparr>db_syms := (db_syms demo_ready)\<lparr>sy_has_dwarf := False,
     sy_cache := demo_cache\<lparr>funcs_list := [\<lparr>fe_name = ''main'', fe_addr = 0x1000, fe_size = 8\<rparr>]\<rparr>\<rparr>\<rparr>"

lemma unwords_break_main: "unwords [''break'', ''main''] = ''break main''"
  by simp

theorem break_before_run_stops_there_witness:
  "\<exists>d1 d3. handle_command (demo_cli\<lparr>cli_system := demo_run\<rparr>) 1 ''break main'' demo_named = Inr (Some d1) \<and>
     handle_command (demo_cli\<lparr>cli_system := demo_run\<rparr>) 1 ''run'' d1 = Inr (Some d3) \<and>
     get_pc (w_tracee d3) (db_pid d3) = Inr 0x1000"
proof -
  let ?X = "demo_cli\<lparr>cli_system := demo_run\<rparr>"
  define t where "t = env_spawn (sys_program demo_run) (db_process_name demo_named) [''a.out'']"
  have t: "t = demo_tracee\<lparr>t_run := Running (WStopped 5 0)\<rparr>" by (simp add: t_def demo_run_def)
  have fs: "get_valid_func_symbols (db_syms demo_named) = [\<lparr>fe_name = ''main'', fe_addr = 0x1000, fe_size = 8\<rparr>]"
    by (simp add: get_valid_func_symbols_def demo_named_def)
  have ok: "idle_ok demo_named" using demo_ready_ok by (simp add: demo_named_def idle_ok_def core_ok_def)
  have w: "function_word ''main''" by code_simp
  have sel: "w_id_counter demo_named = 2" "db_args demo_named = [SStr ''a.out'', SNull]" "db_pending_signal demo_named = 0"
    "dw_report (sy_dwarf (db_syms demo_named)) = (\<lambda>_. True)" "sy_has_dwarf (db_syms demo_named) = False"
    "w_bps demo_named = w_bps demo_ready"
    by (simp_all add: demo_named_def) (simp add: demo_ready_def demo_idle_def)
  have la: "initialize_load_address E t' (db_syms demo_named) = Inr 0" for E t'
    by (simp add: demo_named_def demo_ready_def initialize_load_address_def)
  have p: "place_ok t 0 0x1000" by (simp add: t place_ok_def)
  have places: "\<forall>p b. w_bps demo_named p = Some b \<longrightarrow> place_ok t 0 (b_instr_addr b)"
    "\<forall>g \<in> set (get_valid_func_symbols (db_syms demo_named)). fe_name g = ''main'' \<longrightarrow> place_ok t 0 (fe_addr g)"
    using p by (simp_all add: fs sel)
  have argv: "read_args (db_args demo_named) = Inr [''a.out'']" by (simp add: sel)
  have run: "t_run t = Running (WStopped 5 0)" "t_pid t \<noteq> 0" by (simp_all add: t)
  have rep: "dw_report (sy_dwarf (db_syms demo_named)) (t_pid t)" by (simp add: sel)
  obtain d1 d2 u where r: "handle_command ?X (Suc 0) (unwords [''break'', ''main'']) demo_named = Inr (Some d1)"
    "session_ok (t_mem t) d2" "t_regs (w_tracee d2) = t_regs t" "t_mem (w_tracee d2) 0x1000 = Some 0xCC"
    "\<forall>x. t_mem (w_tracee d2) x = (if armed d2 x then Some 0xCC else t_mem t x)"
    "db_syms d2 = (db_syms demo_named)\<lparr>sy_proc := Some (t_pid t)\<rparr>"
    "u = env_cont (sys_program demo_run) (db_pending_signal demo_named) (w_tracee d2)"
    "program_hits demo_run d2 u \<and> t_regs u ! 16 = 0x1000 + 1 \<longrightarrow>
      (\<exists>d3 m. handle_command ?X (Suc 0) ''run'' d1 = Inr (Some d3) \<and> get_pc (w_tracee d3) (db_pid d3) = Inr 0x1000 \<and>
         Out_Hit m \<in> set (db_out d3) \<and> hit_addr m = fe_addr \<lparr>fe_name = ''main'', fe_addr = 0x1000, fe_size = 8\<rparr>)"
    using break_before_run_stops_there[OF ok w, of _ "0x1000" 0 "[''a.out'']" t demo_run ?X 0,
        OF _ _ _ _ argv t_def run la rep places] fs sel(1) by force
  have "armed d2 0x1000" using r(4,5) by (auto simp: t split: if_splits)
  moreover have "t_regs u = (t_regs t)[16 := 0x1001]" "t_run u = Running (WStopped 5 0x80)"
    "code_untouched (armed d2) (w_tracee d2) u"
    using r(3,7) by (simp_all add: demo_run_def code_untouched_def)
  moreover have "print_source_at_current_pc (sys_files demo_run) (db_syms d2) 0x1000 3 = Inr None"
    using r(6) sel(5) by (simp add: print_source_at_current_pc_def)
  ultimately have "program_hits demo_run d2 u" "t_regs u ! 16 = 0x1000 + 1" by (simp_all add: program_hits_def t)
  then obtain d3 where "handle_command ?X (Suc 0) ''run'' d1 = Inr (Some d3)" "get_pc (w_tracee d3) (db_pid d3) = Inr 0x1000"
    using r(8) by blast
  then show ?thesis using r(1) unfolding unwords_break_main One_nat_def by blast
qed

end
