(* ===== verification/Spec2Isabelle.thy ===== *)
theory Spec2Isabelle
  imports Hashmap Intrusive_List Disassemble_Props Generators Session_Props
begin

text \<open>
  A model of vdbg, a source-level debugger for x86-64 Linux programs, and its properties.

  \<^bold>\<open>The program.\<close> \<open>src/main.c\<close> reads the options, creates the debugger object of
  \<open>src/debugger.c\<close>, runs the commands of \<open>-ex\<close> or of a script and enters the prompt. A line of
  input goes to \<open>handle_command\<close> in \<open>src/commands.c\<close>, which splits it (\<open>src/util.c\<close>), finds the
  command in its table and calls the handler. The handlers set, delete and switch breakpoints
  and run the tracee (\<open>src/debugger.c\<close>), step it (\<open>src/stepping.c\<close>), read and write its registers
  and memory (\<open>src/registers.c\<close>), and print symbols, source and instructions (\<open>src/symbols.c\<close>,
  \<open>src/util.c\<close>, \<open>src/disassemble.c\<close>). \<open>src/breakpoint.c\<close> keeps the breakpoints that the user set and
  the locations where \<open>0xcc\<close> is written over the code of the tracee; both are found through the
  hash maps of \<open>src/hashmap.c\<close>, the breakpoints also through a list of \<open>include/list.h\<close>.
  \<open>src/completion.c\<close> completes the line at the prompt.

  \<^bold>\<open>Conventions.\<close> An operation of C is a function into \<open>'a res\<close>: \<open>Inr\<close> a result, or \<open>Inl\<close> the way
  in which the C code goes wrong (theory Vdbg_Prelude): a null or freed pointer, an access out of
  bounds, a read of something never written, a failed assertion, \<open>abort\<close>, or \<open>exit\<close> with a
  status. Objects behind pointers live in stores, maps from addresses to records; the state is a
  record that every operation takes and returns. Integers have their width. What the
  program prints is recorded in the state as a list of messages, in which the wording of fixed
  texts may be shortened. Allocation never fails (but see \<open>bp_cand_add\<close> in Generators).

  \<^bold>\<open>Theories, in the order of the imports.\<close>
  \<^item> Vdbg_Prelude: faults, the result monad, collections of rules.
  \<^item> Hashmap (\<open>src/hashmap.c\<close>), Intrusive_List (\<open>include/list.h\<close>): the two containers. The locale
    \<open>addr_map\<close> is what the debugger object relies on in a map, and \<open>node_list\<close> is the contract of a
    list; both are interpreted on the operations of these theories.
  \<^item> Tracee: the debugged process behind \<open>ptrace\<close>, \<open>waitpid\<close> and \<open>kill\<close>, as their manual pages
    describe them; what the program itself does between two stops is a parameter
    (\<open>program_env\<close>). Registers (\<open>src/registers.c\<close>).
  \<^item> C_Strings, Elf_Names, Ui: \<open>src/util.c\<close> and the functions of the C library it uses; the tables
    of names, the window of source lines, the listing of a directory.
  \<^item> Breakpoint (\<open>src/breakpoint.c\<close>); Breakpoint_Patch relates the memory of the tracee to the image
    of its code (locale \<open>code_patcher\<close>, interpreted on \<open>loc_enable\<close> and \<open>loc_disable\<close>);
    Breakpoint_Inv has the invariant of the stores; Breakpoint_Props the properties.
  \<^item> Symbols, Symbols_Props (\<open>src/symbols.c\<close>): ELF and DWARF data are given as the structures that
    libelf and libdw return; the searches over them are modelled.
  \<^item> Debugger (\<open>src/debugger.c\<close>); Debugger_Inv has its invariants (\<open>idle_ok\<close> without a tracee,
    \<open>session_ok\<close> with a stopped one); Debugger_Ops, Debugger_Run and Debugger_Temp show that
    setting, deleting and switching breakpoints, starting, stopping and ending of the tracee, and
    temporary locations keep them; Debugger_Demo has the concrete session of the witnesses;
    Debugger_Props, Debugger_Stops and Debugger_Life the properties, the last with the step
    relation \<open>debugger_step\<close> of a session.
  \<^item> Stepping, Stepping_Props (\<open>src/stepping.c\<close>); Stepping_Runs follows \<open>step\<close> and \<open>backtrace\<close> over
    many instructions and frames.
  \<^item> Disassemble, Disassemble_Props (\<open>src/disassemble.c\<close>), over what capstone decodes.
  \<^item> Commands, Commands_Props (\<open>src/commands.c\<close> and the prompt of \<open>src/debugger.c\<close>); Session_Frame
    has what an action on breakpoints leaves alone, and the locale \<open>session_action\<close> of
    Commands_Props, interpreted on removing and on switching, carries it to whole commands.
  \<^item> Completion, Completion_Props (\<open>src/completion.c\<close>), over readline; Generators has the same
    generators with their static variables, each an interpretation of the locale \<open>generator\<close>,
    the protocol in which readline calls them.
  \<^item> Main_Program (\<open>src/main.c\<close>); Session_Props has properties of lines and of sequences of lines.

  \<^bold>\<open>What the properties show.\<close> The containers implement finite maps and sequences. A patched location
  shows \<open>0xcc\<close> and nothing else changes; taking the patch back restores the byte. A breakpoint
  set at any time, by the function, from a line of input, or before the process exists, is in
  the code of the running process at the address with the load address added, the program stops
  there with the program counter on the instruction, and the step past it executes the original
  instruction. In every state that a session can reach, the memory shows the program's
  bytes except for the patches of breakpoints in the list, and no pointer dangles. The commands
  on breakpoints cannot fault on any arguments, and neither they nor the lines that only
  inspect are noticed by the program. \<open>step\<close> goes through the states of the program alone up to
  its next line, and a backtrace is the chain of calls. Stepping commands leave no temporary
  location. The debugger ends cleanly at the end of its input. Around these there are the properties of the pieces:
  registers, symbols, words, options, completion, disassembly.

  The theorems also show where the code does something else than it means to: a program that
  ends during \<open>finish\<close> or \<open>next\<close> aborts the debugger, one that ends during the step past a
  breakpoint makes it use a freed location, a disabled location blocks \<open>stepi\<close> and \<open>step\<close>,
  missing arguments are dereferenced, the colouring of operands reads past its array, and
  others stated where they arise.

  \<^bold>\<open>Fuel.\<close> Loops whose length the debugged program or a script decides take fuel and return
  \<open>None\<close> when it is used up: \<open>step_in_loop\<close> and \<open>backtrace_loop\<close> one unit for each
  instruction or frame, \<open>handle_command\<close> one for each level of nested scripts, \<open>prompt_loop\<close> one
  for each line, \<open>rl_calls\<close> one for each call of a generator. Properties of commands hold for all positive fuel, one unit being enough
  for a command without a script, and the two theorems about loops that never end hold
  for every fuel. All other recursions terminate.

  \<^bold>\<open>Parameters.\<close> libelf, libdw and libdwfl (\<open>elf_file\<close>, \<open>dwarf_info\<close>), capstone (\<open>capstone\<close>), readline
  (\<open>readline\<close>), the file system (\<open>host_files\<close>), the behaviour of the debugged program
  (\<open>program_env\<close>) and what the user answers (\<open>db_answers\<close>).

  \<^bold>\<open>Not modelled.\<close> The logging macros of \<open>include/macro.h\<close>; the usage texts, which are fixed
  output; the registration of the completer in \<open>completion_init\<close>; the buffer of
  \<open>print_memory_map\<close>; the getters \<open>bp_get_type\<close> and \<open>get_dwarf_data\<close>, whose values are parts of
  larger ones here; the reaction to exhausted memory, except for
  the array of candidates in completion; threads and child processes of the tracee, which the
  program does not trace either.
\<close>

end
